(* ===== verification/Prelude.thy ===== *)
theory Prelude
  imports Main "HOL-Library.Word" "HOL-Library.Multiset"
begin

text \<open>
  Shared vocabulary of the development: machine types, the outcome of a piece of C code that
  may leave the process, the interface of a time-ordered queue and the interface of an
  invariant that a script of calls keeps. The code is modelled for an LP64 target
  (\<open>int\<close> 32 bits, \<open>long\<close> and pointers 64 bits), which is what the default target of
  eloop/Makefile builds on a 64-bit Linux.
\<close>

unbundle bit_operations_syntax

section \<open>Machine types\<close>

type_synonym u8 = "8 word"
type_synonym u16 = "16 word"
type_synonym u32 = "32 word"

text \<open>Addresses and \<open>void *\<close> values, function pointers included.\<close>

type_synonym ptr = "64 word"

abbreviation NULL :: ptr where
  "NULL \<equiv> 0"

named_theorems outcome_simps "evaluation of sequenced outcomes"

section \<open>Outcomes of C code\<close>

text \<open>
  \<open>Done\<close> is a normal return, \<open>ExitProcess n\<close> a call of \<open>exit(n)\<close>, \<open>Crash\<close> a dereference of
  a null pointer, and \<open>OutOfFuel\<close> a loop that has used up the number of rounds the model
  was given.
\<close>

datatype 'a outcome = Done 'a | ExitProcess int | Crash | OutOfFuel

fun obind :: "'a outcome \<Rightarrow> ('a \<Rightarrow> 'b outcome) \<Rightarrow> 'b outcome" where
  "obind (Done x) f = f x"
| "obind (ExitProcess n) f = ExitProcess n"
| "obind Crash f = Crash"
| "obind OutOfFuel f = OutOfFuel"

lemma obind_Done_iff [outcome_simps]:
  "obind m f = Done y \<longleftrightarrow> (\<exists>x. m = Done x \<and> f x = Done y)"
  by (cases m) auto

lemma obind_ExitProcess_iff [outcome_simps]:
  "obind m f = ExitProcess n \<longleftrightarrow> m = ExitProcess n \<or> (\<exists>x. m = Done x \<and> f x = ExitProcess n)"
  by (cases m) auto

lemma obind_Crash_iff [outcome_simps]:
  "obind m f = Crash \<longleftrightarrow> m = Crash \<or> (\<exists>x. m = Done x \<and> f x = Crash)"
  by (cases m) auto

lemma obind_OutOfFuel_iff [outcome_simps]:
  "obind m f = OutOfFuel \<longleftrightarrow> m = OutOfFuel \<or> (\<exists>x. m = Done x \<and> f x = OutOfFuel)"
  by (cases m) auto

text \<open>
  A predicate holds of the state an outcome carries, if it carries one; the flag tells whether
  a crash is admitted.
\<close>

fun outcome_sat :: "bool \<Rightarrow> ('a \<Rightarrow> bool) \<Rightarrow> 'a outcome \<Rightarrow> bool" where
  "outcome_sat crash_ok P (Done x) = P x"
| "outcome_sat crash_ok P Crash = crash_ok"
| "outcome_sat crash_ok P (ExitProcess n) = True"
| "outcome_sat crash_ok P OutOfFuel = True"

lemma outcome_sat_obind:
  assumes "outcome_sat c P m" and "\<And>x. P x \<Longrightarrow> outcome_sat c Q (f x)"
  shows "outcome_sat c Q (obind m f)"
  using assms by (cases m) auto

lemma outcome_satD: "outcome_sat c P m \<Longrightarrow> m = Done x \<Longrightarrow> P x"
  by simp

section \<open>Bytes\<close>

lemma unat_u8_less: "unat (b :: u8) < 256"
  using unsigned_less [of b, where ?'a = nat] by simp

lemma u8_inc_0: "(c :: u8) + 1 = 0 \<longleftrightarrow> unat c = 255"
proof -
  have m: "unat (c + 1) = (unat c + 1) mod 256" by (simp add: unat_word_ariths)
  have "c + 1 = 0 \<longleftrightarrow> unat (c + 1) = 0" by (simp add: unat_eq_zero)
  with m unat_u8_less [of c] show ?thesis by (cases "unat c = 255") auto
qed

lemma unat_u8_inc: "unat (c + 1 :: u8) = (if c + 1 = 0 then 0 else unat c + 1)"
proof -
  have m: "unat (c + 1) = (unat c + 1) mod 256" by (simp add: unat_word_ariths)
  show ?thesis using unat_u8_less [of c] by (cases "unat c = 255") (simp_all add: u8_inc_0 m)
qed

section \<open>Lists\<close>

lemma mset_map_filter_split:
  "mset (map f xs) = mset (map f (filter P xs)) + mset (map f (filter (\<lambda>x. \<not> P x) xs))"
  by (induction xs) simp_all

lemma sorted_wrt_filter: "sorted_wrt P xs \<Longrightarrow> sorted_wrt P (filter Q xs)"
  by (induction xs) auto

text \<open>
  A stream cut behind every \<open>x\<close>: the elements kept so far, the stream; the elements kept at the end and the parts.
\<close>

fun split_after :: "'a \<Rightarrow> 'a list \<Rightarrow> 'a list \<Rightarrow> 'a list \<times> 'a list list" where
  "split_after x [] l = (l, [])"
| "split_after x (c # cs) l =
     (if c = x then let (r, ms) = split_after x cs [] in (r, (l @ [c]) # ms) else split_after x cs (l @ [c]))"

lemma split_after_none: "x \<notin> set a \<Longrightarrow> split_after x a l = (l @ a, [])"
  by (induction a arbitrary: l) auto

lemma split_after_first:
  "x \<notin> set a \<Longrightarrow> split_after x (a @ x # r) l = (fst (split_after x r []), (l @ a @ [x]) # snd (split_after x r []))"
  by (induction a arbitrary: l) (auto simp: case_prod_beta Let_def)

lemma split_after_append:
  "split_after x (xs @ ys) l =
     (fst (split_after x ys (fst (split_after x xs l))),
      snd (split_after x xs l) @ snd (split_after x ys (fst (split_after x xs l))))"
  by (induction xs arbitrary: l) (auto simp: case_prod_beta Let_def)

lemma split_after_notin: "x \<notin> set l \<Longrightarrow> x \<notin> set (fst (split_after x s l))"
  by (induction s arbitrary: l) (auto simp: case_prod_beta Let_def)

lemma length_split_after_mono:
  "length l \<le> length (fst (split_after x s l)) \<or> (\<exists>m \<in> set (snd (split_after x s l)). length l \<le> length m)"
proof (induction s arbitrary: l)
  case (Cons c s)
  show ?case using Cons.IH [of "l @ [c]"]
    by (cases "c = x") (auto simp: case_prod_beta Let_def dest!: Suc_leD)
qed simp

section \<open>The interface of a queue ordered by a key\<close>

text \<open>
  What a client of a sorted singly linked list relies on: a strict weak order on the keys, and
  an insertion that walks the list and stops in front of the first element whose key is
  strictly later. The laws of insertion (the same elements, sorted, behind equal keys) are
  proved here once; the timer lists of both event loops are instances.
\<close>

locale key_queue =
  fixes before :: "'k \<Rightarrow> 'k \<Rightarrow> bool"
    and key :: "'a \<Rightarrow> 'k"
    and ins :: "'a \<Rightarrow> 'a list \<Rightarrow> 'a list"
  assumes before_irrefl: "\<not> before a a"
    and before_trans: "before a b \<Longrightarrow> before b c \<Longrightarrow> before a c"
    and before_weak: "\<not> before a b \<Longrightarrow> \<not> before b c \<Longrightarrow> \<not> before a c"
    and ins_Nil: "ins x [] = [x]"
    and ins_Cons: "ins x (y # ys) = (if before (key x) (key y) then x # y # ys else y # ins x ys)"
begin

lemma before_asym: "before a b \<Longrightarrow> \<not> before b a"
  using before_irrefl before_trans by blast

lemma ins_mset: "mset (ins x xs) = add_mset x (mset xs)"
  by (induction xs) (simp_all add: ins_Nil ins_Cons)

lemma ins_set: "set (ins x xs) = insert x (set xs)"
  by (induction xs) (auto simp: ins_Nil ins_Cons)

lemma ins_length: "length (ins x xs) = Suc (length xs)"
  by (induction xs) (simp_all add: ins_Nil ins_Cons)

lemma ins_sorted:
  "sorted_wrt (\<lambda>a b. \<not> before (key b) (key a)) xs \<Longrightarrow>
   sorted_wrt (\<lambda>a b. \<not> before (key b) (key a)) (ins x xs)"
proof (induction xs)
  case Nil
  then show ?case by (simp add: ins_Nil)
next
  case (Cons y ys)
  show ?case
  proof (cases "before (key x) (key y)")
    case True
    have "\<not> before (key z) (key x)" if "z \<in> set (y # ys)" for z
      using True that Cons.prems before_asym before_trans by (metis set_ConsD sorted_wrt.simps(2))
    with True Cons.prems show ?thesis by (simp add: ins_Cons)
  next
    case False
    with Cons show ?thesis by (auto simp: ins_Cons ins_set)
  qed
qed

text \<open>The new element lands in front of exactly the elements with a strictly later key.\<close>

lemma ins_position:
  "sorted_wrt (\<lambda>a b. \<not> before (key b) (key a)) xs \<Longrightarrow>
   ins x xs = filter (\<lambda>y. \<not> before (key x) (key y)) xs @ x # filter (\<lambda>y. before (key x) (key y)) xs"
proof (induction xs)
  case Nil
  then show ?case by (simp add: ins_Nil)
next
  case (Cons y ys)
  show ?case
  proof (cases "before (key x) (key y)")
    case True
    have "before (key x) (key z)" if "z \<in> set ys" for z
    proof (rule ccontr)
      assume "\<not> before (key x) (key z)"
      with Cons.prems that have "\<not> before (key x) (key y)"
        using before_weak by (metis sorted_wrt.simps(2))
      with True show False by simp
    qed
    with True show ?thesis by (simp add: ins_Cons filter_empty_conv)
  next
    case False
    with Cons show ?thesis by (simp add: ins_Cons)
  qed
qed

lemma sorted_head_least:
  assumes "sorted_wrt (\<lambda>a b. \<not> before (key b) (key a)) (x # xs)" and "y \<in> set (x # xs)"
  shows "\<not> before (key y) (key x)"
  using assms before_irrefl by auto

end

section \<open>The interface of a step relation's invariant\<close>

text \<open>
  An invariant that every admissible step keeps. Runs are lists of steps; admissibility may
  depend on the state a step starts in (a block that \<open>malloc\<close> returns is not live).
\<close>

locale step_invariant =
  fixes step :: "'c \<Rightarrow> 's \<Rightarrow> 's"
    and ok :: "'c \<Rightarrow> 's \<Rightarrow> bool"
    and invar :: "'s \<Rightarrow> bool"
  assumes step_keeps: "invar s \<Longrightarrow> ok c s \<Longrightarrow> invar (step c s)"
begin

lemma fold_keeps:
  "invar s \<Longrightarrow> (\<forall>k < length cs. ok (cs ! k) (fold step (take k cs) s)) \<Longrightarrow> invar (fold step cs s)"
proof (induction cs arbitrary: s)
  case Nil
  then show ?case by simp
next
  case (Cons c cs)
  have ok0: "ok c s" using Cons.prems(2) by fastforce
  have "\<forall>k < length cs. ok (cs ! k) (fold step (take k cs) (step c s))"
  proof (intro allI impI)
    fix k
    assume "k < length cs"
    with Cons.prems(2) have "ok ((c # cs) ! Suc k) (fold step (take (Suc k) (c # cs)) s)"
      by (metis Suc_less_eq length_Cons)
    then show "ok (cs ! k) (fold step (take k cs) (step c s))" by simp
  qed
  with Cons.IH [of "step c s"] step_keeps [OF Cons.prems(1) ok0] show ?case by simp
qed

end

end
