(* ===== verification/Os_Time.thy ===== *)
theory Os_Time
  imports Prelude
begin

text \<open>
  \<open>struct os_time\<close> of eloop/os.h and the arithmetic on it in eloop/os.h and eloop/eloop.c.
  The fields are \<open>long\<close>; they are modelled as integers, so the model says nothing about
  a \<open>long\<close> that overflows (undefined in C). The current time that \<open>os_get_time\<close> reads is an
  argument of each definition whose C original reads the clock.
\<close>

record os_time =
  sec :: int
  usec :: int

abbreviation tm :: "int \<Rightarrow> int \<Rightarrow> os_time" where
  "tm s u \<equiv> \<lparr>sec = s, usec = u\<rparr>"

text \<open>Microseconds a time denotes, and the times \<open>gettimeofday\<close> produces.\<close>

definition us_of :: "os_time \<Rightarrow> int" where
  "us_of t = sec t * 1000000 + usec t"

definition normal_time :: "os_time \<Rightarrow> bool" where
  "normal_time t \<longleftrightarrow> 0 \<le> usec t \<and> usec t < 1000000"

section \<open>Operations\<close>

definition os_time_before :: "os_time \<Rightarrow> os_time \<Rightarrow> bool" where
  "os_time_before a b \<longleftrightarrow> sec a < sec b \<or> (sec a = sec b \<and> usec a < usec b)"

definition os_time_sub :: "os_time \<Rightarrow> os_time \<Rightarrow> os_time" where
  "os_time_sub a b =
     (let s = sec a - sec b; u = usec a - usec b
      in if u < 0 then tm (s - 1) (u + 1000000) else tm s u)"

definition CmpTime :: "os_time \<Rightarrow> os_time \<Rightarrow> int" where
  "CmpTime dst src =
     (if sec dst > sec src then 1
      else if sec dst = sec src then
        (if usec dst > usec src then 1 else if usec dst = usec src then 0 else -1)
      else -1)"

definition AddTime :: "os_time \<Rightarrow> os_time \<Rightarrow> os_time" where
  "AddTime a d =
     (let s = sec a + sec d; u = usec a + usec d
      in if u \<ge> 1000000 then tm (s + 1) (u - 1000000) else tm s u)"

definition SubTime :: "os_time \<Rightarrow> os_time \<Rightarrow> os_time" where
  "SubTime a d =
     (let s = sec a - sec d; u = usec a - usec d
      in if u < 0 then tm (s - 1) (u + 1000000) else tm s u)"

text \<open>
  \<open>GetTimeLeft\<close>: the guard looks at \<open>dsttime.sec <= 0\<close> before the subtraction. The literal
  \<open>999999U\<close> is an \<open>unsigned int\<close>, converted to \<open>long\<close> in the sum.
\<close>

definition GetTimeLeft :: "os_time \<Rightarrow> os_time \<Rightarrow> os_time" where
  "GetTimeLeft cur dst =
     (if sec dst < sec cur \<or> (usec dst < usec cur \<and> sec dst \<le> 0) then tm 0 0
      else if usec dst < usec cur
           then tm (sec dst - sec cur - 1) (999999 - usec cur + usec dst + 1)
           else tm (sec dst - sec cur) (usec dst - usec cur))"

text \<open>
  \<open>GetTimeElapsed\<close>: the borrow branch adds \<open>0xFFFFFFFF\<close> (an \<open>unsigned int\<close>, converted to
  \<open>long\<close>) and decrements the microseconds, not the seconds.
\<close>

definition GetTimeElapsed :: "os_time \<Rightarrow> os_time \<Rightarrow> os_time" where
  "GetTimeElapsed cur dst =
     (if sec dst > sec cur \<or> (usec dst > usec cur \<and> sec cur \<le> 0) then tm 0 0
      else if usec cur < usec dst
           then tm (sec cur - sec dst) (0xFFFFFFFF - usec dst + usec cur + 1 - 1)
           else tm (sec cur - sec dst) (usec cur - usec dst))"

text \<open>The carry loop of \<open>eloop_register_timeout0\<close>: \<open>while (usec >= 1000000) { sec++; usec -= 1000000; }\<close>\<close>

function carry_usec :: "os_time \<Rightarrow> os_time" where
  "carry_usec t = (if usec t \<ge> 1000000 then carry_usec (tm (sec t + 1) (usec t - 1000000)) else t)"
  by pat_completeness auto
termination
  by (relation "measure (\<lambda>t. nat (usec t))") auto

declare carry_usec.simps [simp del]

section \<open>Lemmas\<close>

lemmas time_defs = us_of_def normal_time_def os_time_before_def os_time_sub_def CmpTime_def
  AddTime_def SubTime_def Let_def

lemma os_time_before_irrefl [simp]: "\<not> os_time_before a a"
  by (simp add: os_time_before_def)

lemma os_time_before_trans: "os_time_before a b \<Longrightarrow> os_time_before b c \<Longrightarrow> os_time_before a c"
  by (auto simp: os_time_before_def)

lemma os_time_before_weak: "\<not> os_time_before a b \<Longrightarrow> \<not> os_time_before b c \<Longrightarrow> \<not> os_time_before a c"
  by (auto simp: os_time_before_def)

lemma os_time_before_us:
  assumes "normal_time a" and "normal_time b"
  shows "os_time_before a b \<longleftrightarrow> us_of a < us_of b"
  using assms by (auto simp: time_defs)

lemma normal_usec_mod: "normal_time a \<Longrightarrow> usec a = us_of a mod 1000000"
  by (simp add: us_of_def normal_time_def)

lemma normal_sec_div: "normal_time a \<Longrightarrow> sec a = us_of a div 1000000"
  by (simp add: us_of_def normal_time_def)

lemma us_of_inject:
  assumes "normal_time a" and "normal_time b" and "us_of a = us_of b"
  shows "a = b"
  using assms normal_usec_mod normal_sec_div by (metis (full_types) os_time.equality unit.exhaust)

lemma carry_usec_result:
  "0 \<le> usec t \<Longrightarrow> carry_usec t = tm (sec t + usec t div 1000000) (usec t mod 1000000)"
proof (induction t rule: carry_usec.induct)
  case (1 t)
  show ?case
  proof (cases "usec t \<ge> 1000000")
    case True
    let ?t = "tm (sec t + 1) (usec t - 1000000)"
    have "carry_usec t = carry_usec ?t"
      using True by (subst carry_usec.simps) simp
    also have "\<dots> = tm (sec ?t + usec ?t div 1000000) (usec ?t mod 1000000)"
      using True by (intro "1.IH") simp_all
    also have "\<dots> = tm (sec t + usec t div 1000000) (usec t mod 1000000)"
      using div_add_self2 [of 1000000 "usec t - 1000000"] mod_add_self2 [of "usec t - 1000000" 1000000]
      by simp
    finally show ?thesis .
  next
    case False
    with "1.prems" show ?thesis by (subst carry_usec.simps) simp
  qed
qed

lemma AddTime_us [simp]: "us_of (AddTime a d) = us_of a + us_of d"
  by (simp add: time_defs)

lemma SubTime_us [simp]: "us_of (SubTime a d) = us_of a - us_of d"
  by (simp add: time_defs)

lemma os_time_sub_us [simp]: "us_of (os_time_sub a d) = us_of a - us_of d"
  by (simp add: time_defs)

lemma AddTime_normal: "normal_time a \<Longrightarrow> normal_time d \<Longrightarrow> normal_time (AddTime a d)"
  by (simp add: time_defs)

lemma SubTime_normal: "normal_time a \<Longrightarrow> normal_time d \<Longrightarrow> normal_time (SubTime a d)"
  by (simp add: time_defs)

lemma os_time_sub_normal: "normal_time a \<Longrightarrow> normal_time d \<Longrightarrow> normal_time (os_time_sub a d)"
  by (simp add: time_defs)

lemma CmpTime_sgn:
  assumes "normal_time a" and "normal_time b"
  shows "CmpTime a b = sgn (us_of a - us_of b)"
  using assms by (auto simp: time_defs sgn_if)

lemma CmpTime_before: "CmpTime a b < 0 \<longleftrightarrow> os_time_before a b"
  by (auto simp: CmpTime_def os_time_before_def)

text \<open>The times are linearly ordered, seconds first, so the library's orderings apply to them.\<close>

instantiation os_time_ext :: (linorder) linorder
begin

definition less_eq_os_time_ext :: "'a os_time_ext \<Rightarrow> 'a os_time_ext \<Rightarrow> bool" where
  "less_eq_os_time_ext a b \<longleftrightarrow>
     sec a < sec b \<or>
     (sec a = sec b \<and> (usec a < usec b \<or> (usec a = usec b \<and> os_time.more a \<le> os_time.more b)))"

definition less_os_time_ext :: "'a os_time_ext \<Rightarrow> 'a os_time_ext \<Rightarrow> bool" where
  "less_os_time_ext a b \<longleftrightarrow>
     sec a < sec b \<or>
     (sec a = sec b \<and> (usec a < usec b \<or> (usec a = usec b \<and> os_time.more a < os_time.more b)))"

instance
  by standard (auto simp: less_eq_os_time_ext_def less_os_time_ext_def intro: os_time.equality)

end

lemma os_time_before_less: "os_time_before a b \<longleftrightarrow> a < b"
  by (simp add: os_time_before_def less_os_time_ext_def)

end
