(* ===== verification/Cexcept.thy ===== *)
theory Cexcept
  imports Prelude
begin

text \<open>
  The per-process exception contexts of eloop/cexcept.h and eloop/cexceptNew.c: the table
  \<open>g_state\<close> of \<open>MAX_THREAD\<close> slots (a slot with \<open>pid\<close> 0 is free), its three operations,
  \<open>signum2str\<close>, and the Try/Catch/Throw protocol over one context: \<open>Try\<close> saves \<open>penv\<close>, points
  it at its own \<open>jmp_buf\<close> and runs the body; a \<open>Throw\<close> stores the exception in \<open>v.etmp\<close> and
  jumps to \<open>*penv\<close>; both ways out restore \<open>penv\<close>, and the Catch clause runs when \<open>caught\<close> is
  set. A \<open>Throw\<close> with a null \<open>penv\<close> dereferences it.
\<close>

section \<open>State\<close>

record cexception =
  flavor :: int
  msg :: string
  info :: int

record exception_context =
  penv :: ptr
  caught :: bool
  etmp :: cexception

record thread_state =
  ts_pid :: int
  ts_arg :: ptr
  ts_count :: int
  ts_ec :: exception_context

definition MAX_THREAD :: nat where
  "MAX_THREAD = 20"

definition zero_exception :: cexception where
  "zero_exception = \<lparr>flavor = 0, msg = [], info = 0\<rparr>"

definition zero_state :: thread_state where
  "zero_state = \<lparr>ts_pid = 0, ts_arg = NULL, ts_count = 0,
     ts_ec = \<lparr>penv = NULL, caught = False, etmp = zero_exception\<rparr>\<rparr>"

text \<open>The table after the \<open>memset\<close> that closes \<open>init_except_handler\<close>.\<close>

definition init_except_table :: "thread_state list" where
  "init_except_table = replicate MAX_THREAD zero_state"

section \<open>The table\<close>

text \<open>
  The loops look at the slots from 0 up; \<open>scan_pid\<close> is their common shape and gives the index
  of the first slot with a given \<open>pid\<close>.
\<close>

fun scan_pid :: "int \<Rightarrow> nat \<Rightarrow> thread_state list \<Rightarrow> nat option" where
  "scan_pid p i [] = None"
| "scan_pid p i (t # ts) = (if ts_pid t = p then Some i else scan_pid p (Suc i) ts)"

definition allocstate :: "int \<Rightarrow> thread_state list \<Rightarrow> nat option \<times> thread_state list" where
  "allocstate pid g =
     (case scan_pid 0 0 g of
        Some i \<Rightarrow> (Some i, g[i := (g ! i)\<lparr>ts_pid := pid\<rparr>])
      | None \<Rightarrow> (None, g))"

definition findstate :: "int \<Rightarrow> thread_state list \<Rightarrow> nat option" where
  "findstate pid g = scan_pid pid 0 g"

definition freestate :: "int \<Rightarrow> thread_state list \<Rightarrow> thread_state list" where
  "freestate pid g =
     (case scan_pid pid 0 g of
        Some i \<Rightarrow> g[i := (g ! i)\<lparr>ts_pid := 0\<rparr>]
      | None \<Rightarrow> g)"

text \<open>\<open>NEW_THREAD_EXCEPT_CONTEXT\<close>: allocate a slot and clear its \<open>penv\<close>.\<close>

definition new_thread_except_context ::
    "int \<Rightarrow> thread_state list \<Rightarrow> nat option \<times> thread_state list" where
  "new_thread_except_context pid g =
     (case allocstate pid g of
        (Some i, g') \<Rightarrow> (Some i, g'[i := (g' ! i)\<lparr>ts_ec := (ts_ec (g' ! i))\<lparr>penv := NULL\<rparr>\<rparr>])
      | (None, g') \<Rightarrow> (None, g'))"

section \<open>Signal names\<close>

text \<open>The Linux signal numbers of the cases of \<open>signum2str\<close>.\<close>

definition signum2str :: "int \<Rightarrow> string" where
  "signum2str n =
     (if n = 10 then ''SIGUSR1'' else if n = 12 then ''SIGUSR2'' else if n = 4 then ''SIGILL''
      else if n = 11 then ''SIGSEGV'' else if n = 2 then ''SIGINT'' else if n = 3 then ''SIGQUIT''
      else if n = 6 then ''SIGABRT'' else if n = 13 then ''SIGPIPE'' else if n = 30 then ''SIGPWR''
      else if n = 16 then ''SIGSTKFLT'' else if n = 8 then ''SIGFPE'' else ''UnKnown'')"

section \<open>Try, Catch and Throw\<close>

text \<open>
  A body runs in a context and returns or throws. \<open>Try_Catch env body catch\<close> is the macro
  expansion: \<open>env\<close> is the address of its \<open>jmp_buf\<close>. \<open>Throw\<close> jumps to \<open>*penv\<close>; when the body has
  left \<open>penv\<close> as it found it, that is this Try's buffer.
\<close>

datatype 'w body_result = Returned 'w | Thrown 'w

type_synonym 'w tbody = "exception_context \<times> 'w \<Rightarrow> (exception_context \<times> 'w) body_result"

definition Throw :: "cexception \<Rightarrow> 'w tbody" where
  "Throw e = (\<lambda>(ec, w). Thrown (ec\<lparr>etmp := e\<rparr>, w))"

definition seq_body :: "'w tbody \<Rightarrow> 'w tbody \<Rightarrow> 'w tbody" where
  "seq_body f g = (\<lambda>s. case f s of Returned s' \<Rightarrow> g s' | Thrown s' \<Rightarrow> Thrown s')"

definition Try_Catch :: "ptr \<Rightarrow> 'w tbody \<Rightarrow> (cexception \<Rightarrow> 'w tbody) \<Rightarrow> 'w tbody" where
  "Try_Catch env body catch = (\<lambda>(ec, w).
     let prev = penv ec in
     case body (ec\<lparr>penv := env\<rparr>, w) of
       Returned (ec', w') \<Rightarrow> Returned (ec'\<lparr>caught := False, penv := prev\<rparr>, w')
     | Thrown (ec', w') \<Rightarrow> catch (etmp ec') (ec'\<lparr>caught := True, penv := prev\<rparr>, w'))"

text \<open>
  The test at the end of cexceptNew.c: its Catch clause only prints. \<open>barf\<close> is a union member
  with \<open>info\<close>; its first four bytes are the characters 1234.
\<close>

definition test_exception :: "ptr \<Rightarrow> 'w tbody" where
  "test_exception env =
     Try_Catch env (Throw \<lparr>flavor = 1234567, msg = ''demo barf message'', info = 0x34333231\<rparr>)
       (\<lambda>e s. Returned s)"

section \<open>Signals turned into exceptions\<close>

text \<open>
  \<open>sighandler\<close>, installed for the signals of faults: the exception it throws into the context of
  the process, \<open>None\<close> when the process has no slot and the handler returns. \<open>info.segvexcept\<close> is a
  64-bit \<open>long\<close>.
\<close>

definition sighandler :: "int \<Rightarrow> int \<Rightarrow> thread_state list \<Rightarrow> cexception option" where
  "sighandler pid signum g =
     (case findstate pid g of
        None \<Rightarrow> None
      | Some i \<Rightarrow> Some \<lparr>flavor = signum, msg = ''demo segvexcept message'',
                        info = sint (12345678 + ts_arg (g ! i) * 100)\<rparr>)"

text \<open>
  \<open>init_except_handler\<close>: the signals (Linux numbers) it installs \<open>sighandler\<close> for and the ones it
  unblocks; it leaves the process with status 0 when \<open>sigprocmask\<close> fails.
\<close>

definition except_signals :: "int list" where
  "except_signals = [4, 5, 6, 8, 13, 21, 22, 11]"

definition except_unblocked :: "int list" where
  "except_unblocked = [4, 5, 6, 8, 13, 19, 21, 22, 11, 15, 9, 1, 10, 12]"

definition init_except_handler :: "bool \<Rightarrow> (int list \<times> int list \<times> thread_state list) outcome" where
  "init_except_handler sigprocmask_ok =
     (if \<not> sigprocmask_ok then ExitProcess 0
      else Done (except_signals, except_unblocked, init_except_table))"

section \<open>Lemmas\<close>

lemma scan_pid_Some:
  "scan_pid p k g = Some i \<Longrightarrow>
   k \<le> i \<and> i - k < length g \<and> ts_pid (g ! (i - k)) = p \<and> (\<forall>j < i - k. ts_pid (g ! j) \<noteq> p)"
proof (induction g arbitrary: k)
  case Nil
  then show ?case by simp
next
  case (Cons t g)
  show ?case
  proof (cases "ts_pid t = p")
    case True
    with Cons.prems show ?thesis by simp
  next
    case False
    with Cons have IH: "Suc k \<le> i \<and> i - Suc k < length g \<and> ts_pid (g ! (i - Suc k)) = p \<and>
        (\<forall>j < i - Suc k. ts_pid (g ! j) \<noteq> p)" by simp
    have le: "Suc k \<le> i" using IH by (rule conjunct1)
    have eq: "i - k = Suc (i - Suc k)" using Suc_diff_Suc [of k i] le by simp
    show ?thesis unfolding eq using IH False by (auto simp: less_Suc_eq_0_disj)
  qed
qed

lemma scan_pid_None: "scan_pid p k g = None \<longleftrightarrow> (\<forall>t \<in> set g. ts_pid t \<noteq> p)"
  by (induction g arbitrary: k) auto

lemma findstate_Some:
  "findstate p g = Some i \<Longrightarrow> i < length g \<and> ts_pid (g ! i) = p \<and> (\<forall>j < i. ts_pid (g ! j) \<noteq> p)"
  unfolding findstate_def by (drule scan_pid_Some) simp

lemma findstate_None: "findstate p g = None \<longleftrightarrow> (\<forall>t \<in> set g. ts_pid t \<noteq> p)"
  by (simp add: findstate_def scan_pid_None)

lemma findstate_ex: "t \<in> set g \<Longrightarrow> ts_pid t = p \<Longrightarrow> \<exists>i. findstate p g = Some i"
  using findstate_None by (metis option.exhaust)

lemma length_allocstate [simp]: "length (snd (allocstate p g)) = length g"
  by (simp add: allocstate_def split: option.split)

lemma length_freestate [simp]: "length (freestate p g) = length g"
  by (simp add: freestate_def split: option.split)

lemma length_new_thread [simp]: "length (snd (new_thread_except_context p g)) = length g"
proof (cases "allocstate p g")
  case (Pair r g')
  with length_allocstate [of p g] show ?thesis
    by (simp add: new_thread_except_context_def split: option.split)
qed

lemma map_pid_allocstate:
  "map ts_pid (snd (allocstate p g)) =
     (case scan_pid 0 0 g of Some i \<Rightarrow> (map ts_pid g)[i := p] | None \<Rightarrow> map ts_pid g)"
  by (simp add: allocstate_def map_update split: option.split)

lemma map_pid_new_thread:
  "map ts_pid (snd (new_thread_except_context p g)) = map ts_pid (snd (allocstate p g))"
proof (cases "allocstate p g")
  case (Pair r g')
  then show ?thesis
  proof (cases r)
    case None
    with Pair show ?thesis by (simp add: new_thread_except_context_def)
  next
    case (Some i)
    have "(map ts_pid g')[i := ts_pid (g' ! i)] = map ts_pid g'"
      by (metis (no_types, lifting) list_update_beyond list_update_id not_le_imp_less nth_map length_map)
    with Pair Some show ?thesis by (simp add: new_thread_except_context_def map_update)
  qed
qed

lemma scan_pid_map: "map ts_pid g = map ts_pid h \<Longrightarrow> scan_pid p k g = scan_pid p k h"
proof (induction g arbitrary: h k)
  case Nil
  then show ?case by simp
next
  case (Cons t g)
  then obtain u h' where "h = u # h'" "ts_pid t = ts_pid u" "map ts_pid g = map ts_pid h'" by auto
  with Cons.IH show ?case by simp
qed

lemma new_thread_find:
  assumes "\<exists>t \<in> set g. ts_pid t = 0"
  shows "\<exists>i. findstate p (snd (new_thread_except_context p g)) = Some i"
proof -
  obtain i where i: "scan_pid 0 0 g = Some i" using assms scan_pid_None by (metis option.exhaust)
  then have lt: "i < length g" using scan_pid_Some by fastforce
  have "p \<in> set ((map ts_pid g)[i := p])"
    using lt by (simp add: set_update_memI)
  then have "p \<in> set (map ts_pid (snd (new_thread_except_context p g)))"
    using i by (simp add: map_pid_new_thread map_pid_allocstate)
  then show ?thesis using findstate_ex by auto
qed

text \<open>Allocating and then freeing the same \<open>pid\<close> gives the table back, if it was not in it.\<close>

lemma alloc_free_pids:
  assumes "\<forall>t \<in> set g. ts_pid t \<noteq> p" and "p \<noteq> 0"
  shows "map ts_pid (freestate p (snd (allocstate p g))) = map ts_pid g"
proof (cases "scan_pid 0 0 g")
  case None
  have "scan_pid p 0 g = None" using assms(1) by (simp add: scan_pid_None)
  with None show ?thesis by (simp add: allocstate_def freestate_def)
next
  case (Some i)
  let ?g = "g[i := (g ! i)\<lparr>ts_pid := p\<rparr>]"
  from Some have i: "i < length g" "ts_pid (g ! i) = 0" using scan_pid_Some by fastforce+
  obtain j where j: "scan_pid p 0 ?g = Some j"
  proof -
    have "?g ! i \<in> set ?g" using i(1) by (metis length_list_update nth_mem)
    moreover have "ts_pid (?g ! i) = p" using i(1) by simp
    ultimately show ?thesis using that scan_pid_None by (metis option.exhaust)
  qed
  then have j': "j < length g" "ts_pid (?g ! j) = p" using scan_pid_Some by fastforce+
  have "j = i"
  proof (rule ccontr)
    assume "j \<noteq> i"
    with j' have "ts_pid (g ! j) = p" by simp
    with assms(1) j'(1) show False by auto
  qed
  with j Some i show ?thesis
    by (simp add: allocstate_def freestate_def map_update)
       (metis length_map list_update_id nth_map)
qed

section \<open>Properties\<close>

lemma lookup_after_alloc:
  assumes "\<forall>t \<in> set g. ts_pid t \<noteq> p" and "scan_pid 0 0 g = Some i"
  shows "findstate p (snd (allocstate p g)) = Some i"
proof -
  from assms(2) have i: "i < length g" using scan_pid_Some by fastforce
  let ?g = "g[i := (g ! i)\<lparr>ts_pid := p\<rparr>]"
  have "?g ! i \<in> set ?g" using i by (metis length_list_update nth_mem)
  then obtain j where j: "findstate p ?g = Some j" using findstate_ex [of "?g ! i" ?g p] i by auto
  then have jl: "j < length g" "ts_pid (?g ! j) = p" using findstate_Some [OF j] by auto
  have "j = i"
  proof (rule ccontr)
    assume "j \<noteq> i"
    with jl have "ts_pid (g ! j) = p" by simp
    with assms(1) jl(1) show False by auto
  qed
  with j assms(2) show ?thesis by (simp add: allocstate_def)
qed

text \<open>C13. The table of exception contexts as a map from process to slot: a process without a slot
  gets the first free one and is found there, with its exception chain empty; other
  processes are found where they were; freeing gives the slot back. With no free slot the
  allocation fails and changes nothing.\<close>

theorem except_context_allocation:
  assumes "\<forall>t \<in> set g. ts_pid t \<noteq> p" and "p \<noteq> 0"
  shows "case new_thread_except_context p g of
     (Some i, g') \<Rightarrow> i < length g \<and> ts_pid (g ! i) = 0 \<and> findstate p g' = Some i \<and>
        penv (ts_ec (g' ! i)) = NULL \<and>
        (\<forall>j < length g. j \<noteq> i \<longrightarrow> g' ! j = g ! j) \<and> map ts_pid (freestate p g') = map ts_pid g
   | (None, g') \<Rightarrow> (\<forall>t \<in> set g. ts_pid t \<noteq> 0) \<and> g' = g"
proof (cases "scan_pid 0 0 g")
  case None
  then have "\<forall>t \<in> set g. ts_pid t \<noteq> 0" using scan_pid_None by blast
  with None show ?thesis by (simp add: new_thread_except_context_def allocstate_def)
next
  case (Some i)
  then have i: "i < length g" "ts_pid (g ! i) = 0" using scan_pid_Some by fastforce+
  let ?g' = "snd (new_thread_except_context p g)"
  have pids: "map ts_pid ?g' = map ts_pid (snd (allocstate p g))" by (rule map_pid_new_thread)
  have find: "findstate p ?g' = Some i"
    using lookup_after_alloc [OF assms(1) Some] scan_pid_map [OF pids] by (simp add: findstate_def)
  have free: "map ts_pid (freestate p h) = (case findstate p h of None \<Rightarrow> map ts_pid h
      | Some j \<Rightarrow> (map ts_pid h)[j := 0])" for h
    by (simp add: freestate_def findstate_def map_update split: option.split)
  have "map ts_pid (freestate p ?g') = map ts_pid g"
    using alloc_free_pids [OF assms] pids find lookup_after_alloc [OF assms(1) Some] by (simp add: free)
  with i find Some show ?thesis
    by (simp add: new_thread_except_context_def allocstate_def)
qed

theorem except_context_allocation_witness:
  "fst (new_thread_except_context 42 (zero_state\<lparr>ts_pid := 7\<rparr> # init_except_table)) = Some 1 \<and>
   findstate 42 (snd (new_thread_except_context 42 (zero_state\<lparr>ts_pid := 7\<rparr> # init_except_table))) = Some 1"
proof -
  let ?g = "zero_state\<lparr>ts_pid := 7\<rparr> # init_except_table"
  have a: "\<forall>t \<in> set ?g. ts_pid t \<noteq> 42" by code_simp
  have r: "fst (new_thread_except_context 42 ?g) = Some 1" by code_simp
  obtain g' where "new_thread_except_context 42 ?g = (Some 1, g')" using r by (metis prod.collapse)
  with except_context_allocation [OF a] show ?thesis by simp
qed

text \<open>Structured exceptions: a body that returns skips the Catch clause; when it throws, what
  follows the \<open>Throw\<close> is skipped and the Catch clause of the innermost enclosing Try runs with the
  thrown exception; either way the Catch clause and the code behind it run with the exception chain
  that was current at the Try, so a Throw from a Catch clause reaches the next Try out.\<close>

lemma throw_reaches_innermost_catch:
  "Try_Catch env (seq_body (\<lambda>s. Returned s) (seq_body (Throw e) rest)) catch (ec, w) =
     catch e (ec\<lparr>etmp := e, caught := True\<rparr>, w) \<and>
   Try_Catch env (\<lambda>(c, v). Returned (c, upd v)) catch (ec, w) = Returned (ec\<lparr>caught := False\<rparr>, upd w) \<and>
   Try_Catch env2 (Try_Catch env (Throw e) (\<lambda>_. Throw e2)) catch (ec, w) =
     catch e2 (ec\<lparr>etmp := e2, caught := True\<rparr>, w) \<and>
   test_exception env (ec, w) =
     Returned (ec\<lparr>etmp := \<lparr>flavor = 1234567, msg = ''demo barf message'', info = 0x34333231\<rparr>,
       caught := True\<rparr>, w)"
  by (simp add: Try_Catch_def seq_body_def Throw_def test_exception_def)

end
