(* ===== verification/Eloop_State.thy ===== *)
theory Eloop_State
  imports Os_Time Cexcept
begin

text \<open>
  The state of the event loop: \<open>struct eloop_sock\<close>, \<open>eloop_timeout\<close>, \<open>eloop_signal\<close>,
  \<open>eloop_sock_table\<close> and \<open>eloop_data\<close> of eloop/eloop.c, and the record \<open>sys\<close> that holds the
  static variable \<open>eloop\<close> beside the other process state its operations touch: the
  live heap blocks of timeouts, the calls made to the hardware watchdog, the alarm timer, the
  callback monitor, the exception contexts of cexceptNew.c and a trace of the callbacks made
  and of the arguments given to \<open>pselect\<close>.
\<close>

section \<open>The records of eloop.c\<close>

record eloop_sock =
  so_sock :: int
  so_eloop_data :: ptr
  so_user_data :: ptr
  so_handler :: ptr

text \<open>
  A node of the timeout list is identified by \<open>to_id\<close>, the address \<open>os_malloc\<close> gave it; the
  \<open>next\<close> pointers are the order of the list that holds the nodes.
\<close>

record eloop_timeout =
  to_id :: ptr
  to_time :: os_time
  to_eloop_data :: ptr
  to_user_data :: ptr
  to_bIsWDTimeout :: bool
  to_handler :: ptr

record eloop_signal =
  sg_sig :: int
  sg_user_data :: ptr
  sg_handler :: ptr
  sg_signaled :: int

text \<open>\<open>count\<close> is the length of the table; \<open>None\<close> is a table that was never allocated.\<close>

record eloop_sock_table =
  st_table :: "eloop_sock list option"
  st_changed :: bool

record eloop_data =
  el_user_data :: ptr
  el_max_sock :: int
  el_readers :: eloop_sock_table
  el_writers :: eloop_sock_table
  el_exceptions :: eloop_sock_table
  el_timeout :: "eloop_timeout list"
  el_timeout_currentWDT :: ptr
  el_signals :: "eloop_signal list"
  el_signaled :: int
  el_pending_terminate :: bool
  el_terminate :: bool
  el_reader_table_changed :: bool
  el_tmp_terminate :: int

section \<open>The process around it\<close>

text \<open>
  The calls to the hardware watchdog interface of eloop.h, whose bodies the application
  provides; the arguments are C \<open>int\<close> values.
\<close>

datatype wdt_call = StartWDT ptr int int | RestartWDT ptr int int | StopWDT ptr

datatype callback =
    SockCb ptr int ptr ptr      \<comment> \<open>handler, sock, eloop_data, user_data\<close>
  | SignalCb ptr int ptr ptr    \<comment> \<open>handler, sig, eloop.user_data, user_data\<close>
  | TimeoutCb ptr ptr ptr       \<comment> \<open>handler, eloop_data, user_data\<close>
  | EventCb ptr ptr ptr         \<comment> \<open>handler, eloop_data, user_ctx\<close>

datatype trace_event =
    Called callback
  | Select int "int list" "int list" "int list" "os_time option"

record sys =
  sy_eloop :: eloop_data
  sy_heap :: "ptr list"
  sy_bad_free :: bool
  sy_wdt :: "wdt_call list"
  sy_alarm :: bool
  sy_installed :: "int list"
  sy_monitor :: int
  sy_tid :: int
  sy_threads :: "thread_state list"
  sy_trace :: "trace_event list"

definition SIGHUP :: int where "SIGHUP = 1"
definition SIGINT :: int where "SIGINT = 2"
definition SIGTERM :: int where "SIGTERM = 15"

lemmas signal_numbers = SIGHUP_def SIGINT_def SIGTERM_def

definition ELOOP_ALL_CTX :: ptr where
  "ELOOP_ALL_CTX = - 1"

definition upd_el :: "(eloop_data \<Rightarrow> eloop_data) \<Rightarrow> sys \<Rightarrow> sys" where
  "upd_el f s = s\<lparr>sy_eloop := f (sy_eloop s)\<rparr>"

text \<open>The conversion of a \<open>long\<close> or \<open>unsigned int\<close> argument to an \<open>int\<close> parameter.\<close>

definition to_int32 :: "int \<Rightarrow> int" where
  "to_int32 x = sint (word_of_int x :: 32 word)"

section \<open>Heap blocks of timeouts\<close>

text \<open>
  \<open>os_malloc\<close> either fails (\<open>NULL\<close>) or hands out a block that is not live; the address is an
  argument of the model. \<open>os_free\<close> of a block that is not live is undefined behaviour; the
  model records it in \<open>sy_bad_free\<close>.
\<close>

definition malloc_ok :: "ptr \<Rightarrow> sys \<Rightarrow> bool" where
  "malloc_ok p s \<longleftrightarrow> p = NULL \<or> p \<notin> set (sy_heap s)"

definition heap_alloc :: "ptr \<Rightarrow> sys \<Rightarrow> sys" where
  "heap_alloc p s = s\<lparr>sy_heap := p # sy_heap s\<rparr>"

definition heap_free :: "ptr \<Rightarrow> sys \<Rightarrow> sys" where
  "heap_free p s =
     (if p = NULL then s
      else if p \<in> set (sy_heap s) then s\<lparr>sy_heap := remove1 p (sy_heap s)\<rparr>
      else s\<lparr>sy_bad_free := True\<rparr>)"

section \<open>Initialisation\<close>

definition empty_table :: eloop_sock_table where
  "empty_table = \<lparr>st_table = None, st_changed = False\<rparr>"

definition zero_eloop :: eloop_data where
  "zero_eloop = \<lparr>el_user_data = NULL, el_max_sock = 0, el_readers = empty_table,
     el_writers = empty_table, el_exceptions = empty_table, el_timeout = [],
     el_timeout_currentWDT = NULL, el_signals = [], el_signaled = 0,
     el_pending_terminate = False, el_terminate = False, el_reader_table_changed = False,
     el_tmp_terminate = 0\<rparr>"

definition eloop_init :: "ptr \<Rightarrow> sys \<Rightarrow> int \<times> sys" where
  "eloop_init user_data s =
     (0, s\<lparr>sy_eloop := zero_eloop\<lparr>el_user_data := user_data\<rparr>, sy_threads := init_except_table\<rparr>)"

definition eloop_terminate :: "sys \<Rightarrow> sys" where
  "eloop_terminate = upd_el (\<lambda>e. e\<lparr>el_terminate := True\<rparr>)"

definition eloop_tmp_terminate :: "int \<Rightarrow> sys \<Rightarrow> sys" where
  "eloop_tmp_terminate v = upd_el (\<lambda>e. e\<lparr>el_tmp_terminate := v\<rparr>)"

definition eloop_terminated :: "sys \<Rightarrow> bool" where
  "eloop_terminated s = el_terminate (sy_eloop s)"

definition eloop_get_user_data :: "sys \<Rightarrow> ptr" where
  "eloop_get_user_data s = el_user_data (sy_eloop s)"

text \<open>A process before \<open>eloop_init\<close>: no block, no alarm, nothing installed.\<close>

definition boot :: "int \<Rightarrow> sys" where
  "boot tid = \<lparr>sy_eloop = zero_eloop, sy_heap = [], sy_bad_free = False, sy_wdt = [],
     sy_alarm = False, sy_installed = [], sy_monitor = -1, sy_tid = tid,
     sy_threads = init_except_table, sy_trace = []\<rparr>"

section \<open>Lemmas\<close>

lemma upd_el_simps [simp]:
  "sy_eloop (upd_el f s) = f (sy_eloop s)"
  "sy_heap (upd_el f s) = sy_heap s"
  "sy_bad_free (upd_el f s) = sy_bad_free s"
  "sy_wdt (upd_el f s) = sy_wdt s"
  "sy_alarm (upd_el f s) = sy_alarm s"
  "sy_installed (upd_el f s) = sy_installed s"
  "sy_monitor (upd_el f s) = sy_monitor s"
  "sy_tid (upd_el f s) = sy_tid s"
  "sy_threads (upd_el f s) = sy_threads s"
  "sy_trace (upd_el f s) = sy_trace s"
  by (simp_all add: upd_el_def)

lemma upd_el_upd_el [simp]: "upd_el f (upd_el g s) = upd_el (\<lambda>e. f (g e)) s"
  by (simp add: upd_el_def)

lemma upd_el_same [simp]: "upd_el (\<lambda>e. e) s = s"
  by (simp add: upd_el_def)

lemma heap_alloc_simps [simp]:
  "sy_eloop (heap_alloc p s) = sy_eloop s"
  "sy_heap (heap_alloc p s) = p # sy_heap s"
  "sy_bad_free (heap_alloc p s) = sy_bad_free s"
  "sy_wdt (heap_alloc p s) = sy_wdt s"
  "sy_alarm (heap_alloc p s) = sy_alarm s"
  "sy_trace (heap_alloc p s) = sy_trace s"
  "sy_threads (heap_alloc p s) = sy_threads s"
  "sy_tid (heap_alloc p s) = sy_tid s"
  "sy_monitor (heap_alloc p s) = sy_monitor s"
  "sy_installed (heap_alloc p s) = sy_installed s"
  by (simp_all add: heap_alloc_def)

lemma heap_free_simps [simp]:
  "sy_eloop (heap_free p s) = sy_eloop s"
  "sy_wdt (heap_free p s) = sy_wdt s"
  "sy_alarm (heap_free p s) = sy_alarm s"
  "sy_trace (heap_free p s) = sy_trace s"
  "sy_threads (heap_free p s) = sy_threads s"
  "sy_tid (heap_free p s) = sy_tid s"
  "sy_monitor (heap_free p s) = sy_monitor s"
  "sy_installed (heap_free p s) = sy_installed s"
  by (simp_all add: heap_free_def)

lemma heap_free_live:
  "p \<noteq> NULL \<Longrightarrow> p \<in> set (sy_heap s) \<Longrightarrow> heap_free p s = s\<lparr>sy_heap := remove1 p (sy_heap s)\<rparr>"
  by (simp add: heap_free_def)

lemma to_int32_id: "- (2 ^ 31) \<le> x \<Longrightarrow> x < 2 ^ 31 \<Longrightarrow> to_int32 x = x"
  by (simp add: to_int32_def sint_sbintrunc' signed_take_bit_int_eq_self)

end
