(* ===== verification/Eloop_Sock.thy ===== *)
theory Eloop_Sock
  imports Eloop_State
begin

text \<open>
  The socket tables of eloop/eloop.c: registration, removal, the recomputation of
  \<open>max_sock\<close>, the file-descriptor sets given to \<open>pselect\<close>. The dispatch loop calls
  application handlers and is in Eloop\_Run. Whether \<open>os_realloc\<close> succeeds is an argument.
\<close>

section \<open>Tables\<close>

datatype table_id = Readers | Writers | Exceptions

text \<open>The rows of a table; a table that was never allocated has \<open>count\<close> 0.\<close>

definition st_rows :: "eloop_sock_table \<Rightarrow> eloop_sock list" where
  "st_rows t = (case st_table t of None \<Rightarrow> [] | Some xs \<Rightarrow> xs)"

fun get_table :: "table_id \<Rightarrow> eloop_data \<Rightarrow> eloop_sock_table" where
  "get_table Readers e = el_readers e"
| "get_table Writers e = el_writers e"
| "get_table Exceptions e = el_exceptions e"

fun put_table :: "table_id \<Rightarrow> eloop_sock_table \<Rightarrow> eloop_data \<Rightarrow> eloop_data" where
  "put_table Readers t e = e\<lparr>el_readers := t\<rparr>"
| "put_table Writers t e = e\<lparr>el_writers := t\<rparr>"
| "put_table Exceptions t e = e\<lparr>el_exceptions := t\<rparr>"

abbreviation rows :: "table_id \<Rightarrow> sys \<Rightarrow> eloop_sock list" where
  "rows ty s \<equiv> st_rows (get_table ty (sy_eloop s))"

text \<open>\<open>eloop_get_sock_table\<close>: the enumeration values of eloop.h, \<open>None\<close> for the null pointer.\<close>

definition eloop_get_sock_table :: "int \<Rightarrow> table_id option" where
  "eloop_get_sock_table ty =
     (if ty = 0 then Some Readers else if ty = 1 then Some Writers
      else if ty = 2 then Some Exceptions else None)"

section \<open>Operations\<close>

definition eloop_sock_table_add_sock ::
    "bool \<Rightarrow> table_id option \<Rightarrow> int \<Rightarrow> ptr \<Rightarrow> ptr \<Rightarrow> ptr \<Rightarrow> sys \<Rightarrow> int \<times> sys" where
  "eloop_sock_table_add_sock realloc_ok table sock handler eloop_data user_data s =
     (case table of
        None \<Rightarrow> (-1, s)
      | Some ty \<Rightarrow>
          if \<not> realloc_ok then (-1, s)
          else
            (let row = \<lparr>so_sock = sock, so_eloop_data = eloop_data, so_user_data = user_data,
                        so_handler = handler\<rparr>;
                 t = get_table ty (sy_eloop s);
                 t' = \<lparr>st_table = Some (st_rows t @ [row]), st_changed = True\<rparr>
             in (0, upd_el (\<lambda>e. (put_table ty t' e)\<lparr>el_max_sock :=
                               (if sock > el_max_sock e then sock else el_max_sock e)\<rparr>) s)))"

text \<open>The scan of \<open>eloop_recalc_max_sock\<close> over one table, and over the three in order.\<close>

fun scan_max :: "eloop_sock list \<Rightarrow> int \<Rightarrow> int" where
  "scan_max [] m = m"
| "scan_max (r # rs) m = scan_max rs (if so_sock r > m then so_sock r else m)"

definition eloop_recalc_max_sock :: "sys \<Rightarrow> sys" where
  "eloop_recalc_max_sock s =
     upd_el (\<lambda>e. e\<lparr>el_max_sock :=
       scan_max (st_rows (el_exceptions e))
         (scan_max (st_rows (el_writers e)) (scan_max (st_rows (el_readers e)) (-1)))\<rparr>) s"

text \<open>The search loop and the \<open>os_memmove\<close> of \<open>eloop_sock_table_remove_sock\<close>.\<close>

fun find_sock :: "int \<Rightarrow> eloop_sock list \<Rightarrow> nat option" where
  "find_sock sock [] = None"
| "find_sock sock (r # rs) =
     (if so_sock r = sock then Some 0
      else (case find_sock sock rs of None \<Rightarrow> None | Some i \<Rightarrow> Some (Suc i)))"

definition eloop_sock_table_remove_sock :: "table_id option \<Rightarrow> int \<Rightarrow> sys \<Rightarrow> sys" where
  "eloop_sock_table_remove_sock table sock s =
     (case table of
        None \<Rightarrow> s
      | Some ty \<Rightarrow>
          (case find_sock sock (rows ty s) of
             None \<Rightarrow> s
           | Some i \<Rightarrow>
               upd_el (put_table ty
                 \<lparr>st_table = Some (take i (rows ty s) @ drop (Suc i) (rows ty s)),
                  st_changed = True\<rparr>) s))"

definition eloop_register_sock ::
    "bool \<Rightarrow> int \<Rightarrow> int \<Rightarrow> ptr \<Rightarrow> ptr \<Rightarrow> ptr \<Rightarrow> sys \<Rightarrow> int \<times> sys" where
  "eloop_register_sock realloc_ok sock ty handler eloop_data user_data s =
     eloop_sock_table_add_sock realloc_ok (eloop_get_sock_table ty) sock handler eloop_data user_data s"

definition eloop_unregister_sock :: "int \<Rightarrow> int \<Rightarrow> sys \<Rightarrow> sys" where
  "eloop_unregister_sock sock ty s =
     eloop_recalc_max_sock (eloop_sock_table_remove_sock (eloop_get_sock_table ty) sock s)"

definition eloop_register_read_sock ::
    "bool \<Rightarrow> int \<Rightarrow> ptr \<Rightarrow> ptr \<Rightarrow> ptr \<Rightarrow> sys \<Rightarrow> int \<times> sys" where
  "eloop_register_read_sock realloc_ok sock handler eloop_data user_data s =
     eloop_register_sock realloc_ok sock 0 handler eloop_data user_data s"

definition eloop_unregister_read_sock :: "int \<Rightarrow> sys \<Rightarrow> sys" where
  "eloop_unregister_read_sock sock s = eloop_unregister_sock sock 0 s"

text \<open>The descriptors put in the set for \<open>pselect\<close>.\<close>

definition eloop_sock_table_set_fds :: "eloop_sock_table \<Rightarrow> int list" where
  "eloop_sock_table_set_fds t = (case st_table t of None \<Rightarrow> [] | Some xs \<Rightarrow> map so_sock xs)"

text \<open>
  \<open>eloop_wait_for_read_sock\<close> gives the arguments of its \<open>select\<close> call, if it makes one.
\<close>

definition eloop_wait_for_read_sock :: "int \<Rightarrow> (int \<times> int list) option" where
  "eloop_wait_for_read_sock sock = (if sock < 0 then None else Some (sock + 1, [sock]))"

section \<open>Lemmas\<close>

lemma get_put_table [simp]: "get_table ty (put_table ty' t e) = (if ty = ty' then t else get_table ty e)"
  by (cases ty; cases ty') simp_all

lemma get_table_max_sock [simp]: "get_table ty (e\<lparr>el_max_sock := m\<rparr>) = get_table ty e"
  by (cases ty) simp_all

lemma put_table_simps [simp]:
  "el_timeout (put_table ty t e) = el_timeout e"
  "el_max_sock (put_table ty t e) = el_max_sock e"
  "el_signals (put_table ty t e) = el_signals e"
  "el_signaled (put_table ty t e) = el_signaled e"
  "el_pending_terminate (put_table ty t e) = el_pending_terminate e"
  "el_terminate (put_table ty t e) = el_terminate e"
  "el_tmp_terminate (put_table ty t e) = el_tmp_terminate e"
  "el_timeout_currentWDT (put_table ty t e) = el_timeout_currentWDT e"
  "el_user_data (put_table ty t e) = el_user_data e"
  by (cases ty; simp)+

lemma st_rows_Some [simp]: "st_rows \<lparr>st_table = Some xs, st_changed = c\<rparr> = xs"
  by (simp add: st_rows_def)

lemma st_rows_changed [simp]: "st_rows (t\<lparr>st_changed := c\<rparr>) = st_rows t"
  by (simp add: st_rows_def)

lemma st_rows_empty [simp]: "st_rows empty_table = []"
  by (simp add: st_rows_def empty_table_def)

lemma set_fds_rows: "eloop_sock_table_set_fds t = map so_sock (st_rows t)"
  by (simp add: eloop_sock_table_set_fds_def st_rows_def split: option.split)

lemma find_sock_Some:
  "find_sock sock rs = Some i \<Longrightarrow>
   i < length rs \<and> so_sock (rs ! i) = sock \<and> (\<forall>j < i. so_sock (rs ! j) \<noteq> sock)"
proof (induction rs arbitrary: i)
  case Nil
  then show ?case by simp
next
  case (Cons r rs)
  then show ?case
    by (cases i) (auto split: if_splits option.splits simp: less_Suc_eq_0_disj)
qed

lemma find_sock_None: "find_sock sock rs = None \<longleftrightarrow> sock \<notin> so_sock ` set rs"
  by (induction rs) (auto split: option.split)

text \<open>What the scan and the move do to the table: the first row with the socket is gone.\<close>

fun drop_first :: "int \<Rightarrow> eloop_sock list \<Rightarrow> eloop_sock list" where
  "drop_first sock [] = []"
| "drop_first sock (r # rs) = (if so_sock r = sock then rs else r # drop_first sock rs)"

lemma drop_first_find:
  "drop_first sock rs =
     (case find_sock sock rs of None \<Rightarrow> rs | Some i \<Rightarrow> take i rs @ drop (Suc i) rs)"
  by (induction rs) (auto split: option.split)

lemma scan_max_eq: "scan_max rs m = Max (insert m (so_sock ` set rs))"
proof (induction rs arbitrary: m)
  case Nil
  then show ?case by simp
next
  case (Cons r rs)
  have "scan_max (r # rs) m = Max (insert (max m (so_sock r)) (so_sock ` set rs))"
    using Cons.IH by (simp add: max_def)
  also have "\<dots> = Max (insert m (so_sock ` set (r # rs)))"
  proof (cases "set rs = {}")
    case True
    then show ?thesis by simp
  next
    case False
    then show ?thesis by (simp add: max.assoc)
  qed
  finally show ?case .
qed

definition all_socks :: "sys \<Rightarrow> int set" where
  "all_socks s = so_sock ` (set (rows Readers s) \<union> set (rows Writers s) \<union> set (rows Exceptions s))"

lemma finite_all_socks [simp]: "finite (all_socks s)"
  by (simp add: all_socks_def)

lemma mem_all_socks: "x \<in> all_socks s \<longleftrightarrow> (\<exists>ty. x \<in> so_sock ` set (rows ty s))"
  unfolding all_socks_def by (metis (full_types) Un_iff image_Un table_id.exhaust)

lemma recalc_max: "el_max_sock (sy_eloop (eloop_recalc_max_sock s)) = Max (insert (-1) (all_socks s))"
proof -
  have M: "Max (insert (Max (insert m A)) B) = Max (insert m (A \<union> B))"
    if "finite A" "finite B" for m :: int and A B
    using that by (cases "B = {}"; cases "A = {}") (simp_all add: Max_insert Max.union max.assoc)
  show ?thesis
    by (simp add: eloop_recalc_max_sock_def scan_max_eq M all_socks_def image_Un Un_assoc)
qed

lemma rows_recalc [simp]: "get_table ty (sy_eloop (eloop_recalc_max_sock s)) = get_table ty (sy_eloop s)"
  by (simp add: eloop_recalc_max_sock_def)

lemma all_socks_recalc [simp]: "all_socks (eloop_recalc_max_sock s) = all_socks s"
  by (simp add: all_socks_def eloop_recalc_max_sock_def)

lemma rows_remove:
  "rows ty' (eloop_sock_table_remove_sock (Some ty) sock s) =
     (if ty' = ty then drop_first sock (rows ty s) else rows ty' s)"
  by (auto simp: eloop_sock_table_remove_sock_def drop_first_find split: option.split)

lemma rows_add:
  "rows ty' (snd (eloop_sock_table_add_sock True (Some ty) sock h ed ud s)) =
     (if ty' = ty
      then rows ty s @ [\<lparr>so_sock = sock, so_eloop_data = ed, so_user_data = ud, so_handler = h\<rparr>]
      else rows ty' s)"
  by (simp add: eloop_sock_table_add_sock_def Let_def)

lemma set_drop_first: "set (drop_first sock rs) \<subseteq> set rs"
  by (induction rs) auto

section \<open>The invariant of \<open>max_sock\<close>\<close>

text \<open>\<open>pselect\<close> is given \<open>max_sock + 1\<close>: every registered descriptor is below it.\<close>

definition max_sock_ok :: "sys \<Rightarrow> bool" where
  "max_sock_ok s \<longleftrightarrow> (\<forall>x \<in> all_socks s. x \<le> el_max_sock (sy_eloop s))"

lemma max_sock_ok_cong:
  "(\<And>ty. rows ty s' = rows ty s) \<Longrightarrow> el_max_sock (sy_eloop s') = el_max_sock (sy_eloop s) \<Longrightarrow>
   max_sock_ok s' = max_sock_ok s"
  by (simp add: max_sock_ok_def Ball_def mem_all_socks)

lemma max_sock_ok_recalc: "max_sock_ok (eloop_recalc_max_sock s)"
  unfolding max_sock_ok_def by (simp add: recalc_max)

lemma max_sock_ok_add:
  assumes "max_sock_ok s"
  shows "max_sock_ok (snd (eloop_sock_table_add_sock r t sock h ed ud s))"
proof (cases "\<exists>ty. t = Some ty \<and> r")
  case False
  then have "snd (eloop_sock_table_add_sock r t sock h ed ud s) = s"
    by (auto simp: eloop_sock_table_add_sock_def split: option.split)
  with assms show ?thesis by simp
next
  case True
  then obtain ty where t: "t = Some ty" and r: "r = True" by auto
  let ?s' = "snd (eloop_sock_table_add_sock r t sock h ed ud s)"
  have m: "el_max_sock (sy_eloop ?s') = max sock (el_max_sock (sy_eloop s))"
    by (simp add: t r eloop_sock_table_add_sock_def Let_def)
  show ?thesis
    unfolding max_sock_ok_def m
  proof
    fix x
    assume "x \<in> all_socks ?s'"
    then obtain ty' where "x \<in> so_sock ` set (rows ty' ?s')" by (auto simp: mem_all_socks)
    then have "x = sock \<or> x \<in> all_socks s"
      unfolding t r rows_add by (auto simp: mem_all_socks split: if_splits)
    with assms show "x \<le> max sock (el_max_sock (sy_eloop s))" by (auto simp: max_sock_ok_def)
  qed
qed

lemma max_sock_ok_unregister: "max_sock_ok (eloop_unregister_sock sock ty s)"
  by (simp add: eloop_unregister_sock_def max_sock_ok_recalc)

end
