(* ===== verification/Eloop_Timeout.thy ===== *)
theory Eloop_Timeout
  imports Eloop_State
begin

text \<open>
  Timeouts of eloop/eloop.c: the sorted list behind \<open>eloop_register_timeout0\<close> and
  \<open>eloop_cancel_timeout0\<close>, and the bookkeeping of the hardware watchdog in
  \<open>OnRegisterWDT\<close> and \<open>OnUnregisterWDT\<close>, which keeps \<open>timeout_currentWDT\<close> on the first
  watchdog timeout of the list. A clock read is an argument: \<open>clk i\<close> is what the \<open>i\<close>-th
  \<open>os_get_time\<close> of a call returns.
\<close>

section \<open>The watchdog bookkeeping\<close>

definition wdt_log :: "wdt_call \<Rightarrow> sys \<Rightarrow> sys" where
  "wdt_log c s = s\<lparr>sy_wdt := sy_wdt s @ [c]\<rparr>"

text \<open>The loops over \<open>timeoutWDT\<close> stop at the first node with \<open>bIsWDTimeout\<close>.\<close>

fun first_wdt :: "eloop_timeout list \<Rightarrow> eloop_timeout option" where
  "first_wdt [] = None"
| "first_wdt (t # ts) = (if to_bIsWDTimeout t then Some t else first_wdt ts)"

definition mark_wdt :: "ptr \<Rightarrow> eloop_timeout list \<Rightarrow> eloop_timeout list" where
  "mark_wdt p ts = map (\<lambda>t. if to_id t = p then t\<lparr>to_bIsWDTimeout := True\<rparr> else t) ts"

definition OnRegisterWDT :: "os_time \<Rightarrow> ptr \<Rightarrow> u32 \<Rightarrow> u32 \<Rightarrow> sys \<Rightarrow> sys" where
  "OnRegisterWDT now p secs usecs s0 =
     (let s = upd_el (\<lambda>e. e\<lparr>el_timeout := mark_wdt p (el_timeout e)\<rparr>) s0;
          ud = el_user_data (sy_eloop s)
      in if el_timeout_currentWDT (sy_eloop s) = NULL then
           upd_el (\<lambda>e. e\<lparr>el_timeout_currentWDT := p\<rparr>)
             (wdt_log (StartWDT ud (sint secs) (sint usecs)) s)
         else
           (case first_wdt (el_timeout (sy_eloop s)) of
              None \<Rightarrow> s
            | Some t \<Rightarrow>
                if to_id t = p then
                  (let left = GetTimeLeft now (to_time t)
                   in upd_el (\<lambda>e. e\<lparr>el_timeout_currentWDT := to_id t\<rparr>)
                        (wdt_log (RestartWDT ud (to_int32 (sec left)) (to_int32 (usec left))) s))
                else s))"

text \<open>
  \<open>OnUnregisterWDT\<close> runs before its node \<open>t\<close> is unlinked; \<open>rest\<close> is the list behind
  \<open>t->next\<close>. It also clears the flag of \<open>t\<close>, which the caller frees right after.
\<close>

definition OnUnregisterWDT :: "os_time \<Rightarrow> eloop_timeout \<Rightarrow> eloop_timeout list \<Rightarrow> sys \<Rightarrow> sys" where
  "OnUnregisterWDT now t rest s =
     (let ud = el_user_data (sy_eloop s)
      in if el_timeout_currentWDT (sy_eloop s) = NULL then s
         else if el_timeout_currentWDT (sy_eloop s) = to_id t then
           (case first_wdt rest of
              None \<Rightarrow>
                wdt_log (StopWDT ud) (upd_el (\<lambda>e. e\<lparr>el_timeout_currentWDT := NULL\<rparr>) s)
            | Some u \<Rightarrow>
                (let left = GetTimeLeft now (to_time u)
                 in wdt_log (RestartWDT ud (to_int32 (sec left)) (to_int32 (usec left)))
                      (upd_el (\<lambda>e. e\<lparr>el_timeout_currentWDT := to_id u\<rparr>) s)))
         else s)"

section \<open>Registration\<close>

text \<open>The walk with \<open>prev\<close> and \<open>tmp\<close>, and the link in front of \<open>tmp\<close>.\<close>

fun insert_timeout :: "eloop_timeout \<Rightarrow> eloop_timeout list \<Rightarrow> eloop_timeout list" where
  "insert_timeout x [] = [x]"
| "insert_timeout x (y # ys) =
     (if os_time_before (to_time x) (to_time y) then x # y # ys else y # insert_timeout x ys)"

definition new_timeout ::
    "ptr \<Rightarrow> os_time \<Rightarrow> u32 \<Rightarrow> u32 \<Rightarrow> ptr \<Rightarrow> ptr \<Rightarrow> ptr \<Rightarrow> bool \<Rightarrow> eloop_timeout" where
  "new_timeout p now secs usecs handler eloop_data user_data wd =
     \<lparr>to_id = p, to_time = carry_usec (tm (sec now + uint secs) (usec now + uint usecs)),
      to_eloop_data = eloop_data, to_user_data = user_data, to_bIsWDTimeout = wd,
      to_handler = handler\<rparr>"

definition eloop_register_timeout0 ::
    "ptr \<Rightarrow> (nat \<Rightarrow> os_time) \<Rightarrow> u32 \<Rightarrow> u32 \<Rightarrow> ptr \<Rightarrow> ptr \<Rightarrow> ptr \<Rightarrow> bool \<Rightarrow> sys \<Rightarrow> int \<times> sys" where
  "eloop_register_timeout0 p clk secs usecs handler eloop_data user_data wd s =
     (if p = NULL then (-1, s)
      else
        (let t = new_timeout p (clk 0) secs usecs handler eloop_data user_data wd;
             s1 = upd_el (\<lambda>e. e\<lparr>el_timeout := insert_timeout t (el_timeout e)\<rparr>) (heap_alloc p s)
         in (0, if wd then OnRegisterWDT (clk 1) p secs usecs s1 else s1)))"

definition eloop_register_timeout ::
    "ptr \<Rightarrow> (nat \<Rightarrow> os_time) \<Rightarrow> u32 \<Rightarrow> u32 \<Rightarrow> ptr \<Rightarrow> ptr \<Rightarrow> ptr \<Rightarrow> sys \<Rightarrow> int \<times> sys" where
  "eloop_register_timeout p clk secs usecs handler eloop_data user_data =
     eloop_register_timeout0 p clk secs usecs handler eloop_data user_data False"

text \<open>
  The handler of watchdog timeouts is a function of the application; its address is an argument.
\<close>

definition eloop_register_watchdog_timeout ::
    "ptr \<Rightarrow> ptr \<Rightarrow> (nat \<Rightarrow> os_time) \<Rightarrow> u32 \<Rightarrow> u32 \<Rightarrow> ptr \<Rightarrow> ptr \<Rightarrow> sys \<Rightarrow> int \<times> sys" where
  "eloop_register_watchdog_timeout wdt_handler p clk secs usecs eloop_data user_data =
     eloop_register_timeout0 p clk secs usecs wdt_handler eloop_data user_data True"

section \<open>Cancellation\<close>

definition timeout_matches :: "ptr \<Rightarrow> ptr \<Rightarrow> ptr \<Rightarrow> eloop_timeout \<Rightarrow> bool" where
  "timeout_matches handler eloop_data user_data t \<longleftrightarrow>
     to_handler t = handler \<and>
     (to_eloop_data t = eloop_data \<or> eloop_data = ELOOP_ALL_CTX) \<and>
     (to_user_data t = user_data \<or> user_data = ELOOP_ALL_CTX)"

text \<open>
  The loop of \<open>eloop_cancel_timeout0\<close> at the \<open>i\<close>-th node: the nodes it keeps, the number it
  removes, and the state after the calls to \<open>OnUnregisterWDT\<close> and \<open>os_free\<close>.
\<close>

fun cancel_walk ::
    "ptr \<Rightarrow> ptr \<Rightarrow> ptr \<Rightarrow> bool \<Rightarrow> (nat \<Rightarrow> os_time) \<Rightarrow> nat \<Rightarrow> eloop_timeout list \<Rightarrow> sys \<Rightarrow>
     eloop_timeout list \<times> int \<times> sys" where
  "cancel_walk h ed ud wd clk i [] s = ([], 0, s)"
| "cancel_walk h ed ud wd clk i (t # ts) s =
     (if timeout_matches h ed ud t then
        (let s1 = (if to_bIsWDTimeout t \<or> wd then OnUnregisterWDT (clk i) t ts s else s);
             (kept, removed, s2) = cancel_walk h ed ud wd clk (Suc i) ts (heap_free (to_id t) s1)
         in (kept, removed + 1, s2))
      else
        (let (kept, removed, s1) = cancel_walk h ed ud wd clk (Suc i) ts s
         in (t # kept, removed, s1)))"

definition eloop_cancel_timeout0 ::
    "(nat \<Rightarrow> os_time) \<Rightarrow> ptr \<Rightarrow> ptr \<Rightarrow> ptr \<Rightarrow> bool \<Rightarrow> sys \<Rightarrow> int \<times> sys" where
  "eloop_cancel_timeout0 clk handler eloop_data user_data wd s =
     (let (kept, removed, s1) =
            cancel_walk handler eloop_data user_data wd clk 0 (el_timeout (sy_eloop s)) s
      in (removed, upd_el (\<lambda>e. e\<lparr>el_timeout := kept\<rparr>) s1))"

definition eloop_cancel_timeout ::
    "(nat \<Rightarrow> os_time) \<Rightarrow> ptr \<Rightarrow> ptr \<Rightarrow> ptr \<Rightarrow> sys \<Rightarrow> int \<times> sys" where
  "eloop_cancel_timeout clk handler eloop_data user_data =
     eloop_cancel_timeout0 clk handler eloop_data user_data False"

definition eloop_cancel_watchdog_timeout ::
    "ptr \<Rightarrow> (nat \<Rightarrow> os_time) \<Rightarrow> ptr \<Rightarrow> ptr \<Rightarrow> sys \<Rightarrow> int \<times> sys" where
  "eloop_cancel_watchdog_timeout wdt_handler clk eloop_data user_data =
     eloop_cancel_timeout0 clk wdt_handler eloop_data user_data True"

section \<open>The list is a queue ordered by deadline\<close>

interpretation tq: key_queue os_time_before to_time insert_timeout
  by unfold_locales
    (auto intro: os_time_before_trans dest: os_time_before_weak)

lemma filter_insert_timeout:
  "\<forall>u \<in> set ts. \<not> P u \<Longrightarrow> P t \<Longrightarrow>
   filter P (insert_timeout t ts) = [t] \<and> filter (\<lambda>u. \<not> P u) (insert_timeout t ts) = ts"
  by (induction ts) (auto simp: filter_empty_conv)

lemma find_insert_timeout:
  "\<forall>u \<in> set ts. \<not> P u \<Longrightarrow> P t \<Longrightarrow>
   find P (insert_timeout t ts) = Some t \<and> remove1 t (insert_timeout t ts) = ts"
  by (induction ts) auto

definition timeouts_sorted :: "eloop_timeout list \<Rightarrow> bool" where
  "timeouts_sorted ts \<longleftrightarrow> sorted_wrt (\<lambda>a b. \<not> os_time_before (to_time b) (to_time a)) ts"

lemma timeouts_sorted_insert: "timeouts_sorted ts \<Longrightarrow> timeouts_sorted (insert_timeout t ts)"
  unfolding timeouts_sorted_def by (rule tq.ins_sorted)

lemma timeouts_sorted_filter: "timeouts_sorted ts \<Longrightarrow> timeouts_sorted (filter P ts)"
  unfolding timeouts_sorted_def by (rule sorted_wrt_filter)

lemma timeouts_sorted_tl: "timeouts_sorted (t # ts) \<Longrightarrow> timeouts_sorted ts"
  by (simp add: timeouts_sorted_def)

lemma timeouts_sorted_head:
  "timeouts_sorted (t # ts) \<Longrightarrow> u \<in> set (t # ts) \<Longrightarrow> \<not> os_time_before (to_time u) (to_time t)"
  unfolding timeouts_sorted_def by (rule tq.sorted_head_least)

lemma timeouts_sorted_map:
  assumes "\<And>t. to_time (f t) = to_time t"
  shows "timeouts_sorted (map f ts) = timeouts_sorted ts"
  by (simp add: timeouts_sorted_def sorted_wrt_map assms)

section \<open>Lemmas about the bookkeeping\<close>

lemma wdt_log_simps [simp]:
  "sy_eloop (wdt_log c s) = sy_eloop s"
  "sy_heap (wdt_log c s) = sy_heap s"
  "sy_bad_free (wdt_log c s) = sy_bad_free s"
  "sy_wdt (wdt_log c s) = sy_wdt s @ [c]"
  "sy_alarm (wdt_log c s) = sy_alarm s"
  "sy_installed (wdt_log c s) = sy_installed s"
  "sy_monitor (wdt_log c s) = sy_monitor s"
  "sy_tid (wdt_log c s) = sy_tid s"
  "sy_threads (wdt_log c s) = sy_threads s"
  "sy_trace (wdt_log c s) = sy_trace s"
  by (simp_all add: wdt_log_def)

text \<open>The parts of the state the watchdog bookkeeping and the free loop leave alone.\<close>

definition forget_wdt :: "sys \<Rightarrow> sys" where
  "forget_wdt s =
     s\<lparr>sy_eloop := (sy_eloop s)\<lparr>el_timeout := [], el_timeout_currentWDT := NULL\<rparr>,
       sy_heap := [], sy_bad_free := False, sy_wdt := []\<rparr>"

definition same_but_wdt :: "sys \<Rightarrow> sys \<Rightarrow> bool" where
  "same_but_wdt s s' \<longleftrightarrow> forget_wdt s' = forget_wdt s"

lemma same_but_wdt_refl [simp]: "same_but_wdt s s"
  by (simp add: same_but_wdt_def)

lemma same_but_wdt_trans: "same_but_wdt a b \<Longrightarrow> same_but_wdt b c \<Longrightarrow> same_but_wdt a c"
  by (simp add: same_but_wdt_def)

lemma same_but_wdtD:
  assumes "same_but_wdt s s'"
  shows "el_readers (sy_eloop s') = el_readers (sy_eloop s)"
    and "el_writers (sy_eloop s') = el_writers (sy_eloop s)"
    and "el_exceptions (sy_eloop s') = el_exceptions (sy_eloop s)"
    and "el_max_sock (sy_eloop s') = el_max_sock (sy_eloop s)"
    and "el_signals (sy_eloop s') = el_signals (sy_eloop s)"
    and "el_signaled (sy_eloop s') = el_signaled (sy_eloop s)"
    and "el_user_data (sy_eloop s') = el_user_data (sy_eloop s)"
    and "el_pending_terminate (sy_eloop s') = el_pending_terminate (sy_eloop s)"
    and "el_terminate (sy_eloop s') = el_terminate (sy_eloop s)"
    and "el_tmp_terminate (sy_eloop s') = el_tmp_terminate (sy_eloop s)"
    and "sy_alarm s' = sy_alarm s" and "sy_installed s' = sy_installed s"
    and "sy_monitor s' = sy_monitor s" and "sy_tid s' = sy_tid s"
    and "sy_threads s' = sy_threads s" and "sy_trace s' = sy_trace s"
proof -
  have E: "forget_wdt s' = forget_wdt s" using assms by (simp add: same_but_wdt_def)
  from arg_cong [OF E, of sy_eloop]
  have F: "(sy_eloop s')\<lparr>el_timeout := [], el_timeout_currentWDT := NULL\<rparr> =
           (sy_eloop s)\<lparr>el_timeout := [], el_timeout_currentWDT := NULL\<rparr>"
    by (simp add: forget_wdt_def)
  show "el_readers (sy_eloop s') = el_readers (sy_eloop s)" using arg_cong [OF F, of el_readers] by simp
  show "el_writers (sy_eloop s') = el_writers (sy_eloop s)" using arg_cong [OF F, of el_writers] by simp
  show "el_exceptions (sy_eloop s') = el_exceptions (sy_eloop s)" using arg_cong [OF F, of el_exceptions] by simp
  show "el_max_sock (sy_eloop s') = el_max_sock (sy_eloop s)" using arg_cong [OF F, of el_max_sock] by simp
  show "el_signals (sy_eloop s') = el_signals (sy_eloop s)" using arg_cong [OF F, of el_signals] by simp
  show "el_signaled (sy_eloop s') = el_signaled (sy_eloop s)" using arg_cong [OF F, of el_signaled] by simp
  show "el_user_data (sy_eloop s') = el_user_data (sy_eloop s)" using arg_cong [OF F, of el_user_data] by simp
  show "el_pending_terminate (sy_eloop s') = el_pending_terminate (sy_eloop s)"
    using arg_cong [OF F, of el_pending_terminate] by simp
  show "el_terminate (sy_eloop s') = el_terminate (sy_eloop s)" using arg_cong [OF F, of el_terminate] by simp
  show "el_tmp_terminate (sy_eloop s') = el_tmp_terminate (sy_eloop s)"
    using arg_cong [OF F, of el_tmp_terminate] by simp
  show "sy_alarm s' = sy_alarm s" using arg_cong [OF E, of sy_alarm] by (simp add: forget_wdt_def)
  show "sy_installed s' = sy_installed s" using arg_cong [OF E, of sy_installed] by (simp add: forget_wdt_def)
  show "sy_monitor s' = sy_monitor s" using arg_cong [OF E, of sy_monitor] by (simp add: forget_wdt_def)
  show "sy_tid s' = sy_tid s" using arg_cong [OF E, of sy_tid] by (simp add: forget_wdt_def)
  show "sy_threads s' = sy_threads s" using arg_cong [OF E, of sy_threads] by (simp add: forget_wdt_def)
  show "sy_trace s' = sy_trace s" using arg_cong [OF E, of sy_trace] by (simp add: forget_wdt_def)
qed

lemma same_but_wdt_upd:
  "same_but_wdt s (upd_el (\<lambda>e. e\<lparr>el_timeout := f e\<rparr>) s)"
  "same_but_wdt s (upd_el (\<lambda>e. e\<lparr>el_timeout_currentWDT := g e\<rparr>) s)"
  "same_but_wdt s (wdt_log c s)"
  "same_but_wdt s (heap_alloc p s)"
  "same_but_wdt s (heap_free p s)"
  by (simp_all add: same_but_wdt_def forget_wdt_def upd_el_def wdt_log_def heap_alloc_def heap_free_def)

lemma same_but_wdt_OnRegister: "same_but_wdt s (OnRegisterWDT now p secs usecs s)"
  by (simp add: OnRegisterWDT_def same_but_wdt_def forget_wdt_def Let_def upd_el_def wdt_log_def split: option.split)

lemma same_but_wdt_OnUnregister: "same_but_wdt s (OnUnregisterWDT now t rest s)"
  by (simp add: OnUnregisterWDT_def same_but_wdt_def forget_wdt_def Let_def upd_el_def wdt_log_def split: option.split)

lemma OnUnregisterWDT_simps [simp]:
  "sy_heap (OnUnregisterWDT now t rest s) = sy_heap s"
  "sy_bad_free (OnUnregisterWDT now t rest s) = sy_bad_free s"
  "el_timeout (sy_eloop (OnUnregisterWDT now t rest s)) = el_timeout (sy_eloop s)"
  by (simp_all add: OnUnregisterWDT_def Let_def split: option.split)

lemma OnRegisterWDT_simps [simp]:
  "sy_heap (OnRegisterWDT now p secs usecs s) = sy_heap s"
  "sy_bad_free (OnRegisterWDT now p secs usecs s) = sy_bad_free s"
  "el_timeout (sy_eloop (OnRegisterWDT now p secs usecs s)) = mark_wdt p (el_timeout (sy_eloop s))"
  by (simp_all add: OnRegisterWDT_def Let_def split: option.split)

lemma mark_wdt_ids [simp]: "map to_id (mark_wdt p ts) = map to_id ts"
  by (simp add: mark_wdt_def)

lemma mark_wdt_sorted [simp]: "timeouts_sorted (mark_wdt p ts) = timeouts_sorted ts"
  unfolding mark_wdt_def by (rule timeouts_sorted_map) simp

text \<open>The node is already marked when it is registered as a watchdog timeout and its id is fresh.\<close>

lemma mark_wdt_id:
  "\<forall>t \<in> set ts. to_id t = p \<longrightarrow> to_bIsWDTimeout t \<Longrightarrow> mark_wdt p ts = ts"
  unfolding mark_wdt_def by (rule map_idI) auto

lemma first_wdt_Some: "first_wdt ts = Some t \<Longrightarrow> t \<in> set ts \<and> to_bIsWDTimeout t"
  by (induction ts) (auto split: if_splits)

lemma first_wdt_None: "first_wdt ts = None \<longleftrightarrow> (\<forall>t \<in> set ts. \<not> to_bIsWDTimeout t)"
  by (induction ts) auto

lemma first_wdt_append:
  "first_wdt (xs @ ys) = (case first_wdt xs of None \<Rightarrow> first_wdt ys | Some t \<Rightarrow> Some t)"
  by (induction xs) auto

lemma first_wdt_insert_other:
  "\<not> to_bIsWDTimeout x \<Longrightarrow> first_wdt (insert_timeout x ts) = first_wdt ts"
  by (induction ts) auto

lemma first_wdt_insert_wdt:
  "to_bIsWDTimeout x \<Longrightarrow>
   first_wdt (insert_timeout x ts) = Some x \<or> first_wdt (insert_timeout x ts) = first_wdt ts"
  by (induction ts) auto

section \<open>What cancellation does\<close>

lemma cancel_walk_result:
  "fst (cancel_walk h ed ud wd clk i ts s) = filter (\<lambda>t. \<not> timeout_matches h ed ud t) ts"
  "fst (snd (cancel_walk h ed ud wd clk i ts s)) = int (length (filter (timeout_matches h ed ud) ts))"
  by (induction ts arbitrary: i s) (simp_all add: Let_def split_def)

lemma cancel_walk_heap:
  assumes "mset (map to_id ts) + X = mset (sy_heap s)" and "NULL \<notin> set (sy_heap s)"
    and "\<not> sy_bad_free s"
  shows "mset (map to_id (filter (\<lambda>t. \<not> timeout_matches h ed ud t) ts)) + X =
           mset (sy_heap (snd (snd (cancel_walk h ed ud wd clk i ts s))))
         \<and> NULL \<notin> set (sy_heap (snd (snd (cancel_walk h ed ud wd clk i ts s))))
         \<and> \<not> sy_bad_free (snd (snd (cancel_walk h ed ud wd clk i ts s)))"
  using assms
proof (induction ts arbitrary: i s X)
  case Nil
  then show ?case by simp
next
  case (Cons t ts)
  show ?case
  proof (cases "timeout_matches h ed ud t")
    case False
    have "mset (map to_id ts) + add_mset (to_id t) X = mset (sy_heap s)" using Cons.prems(1) by simp
    from Cons.IH [OF this Cons.prems(2,3)] False show ?thesis
      by (simp add: Let_def split_def)
  next
    case True
    let ?s1 = "if to_bIsWDTimeout t \<or> wd then OnUnregisterWDT (clk i) t ts s else s"
    have "to_id t \<in># mset (sy_heap s)" using Cons.prems(1) by (metis list.simps(9) mset.simps(2) union_mset_add_mset_left union_single_eq_member)
    then have live: "to_id t \<in> set (sy_heap ?s1)" by simp
    then have "to_id t \<noteq> NULL" using Cons.prems(2) by (auto split: if_splits)
    then have free: "heap_free (to_id t) ?s1 = ?s1\<lparr>sy_heap := remove1 (to_id t) (sy_heap s)\<rparr>"
      using live by (simp add: heap_free_live)
    have "mset (map to_id ts) + X = mset (sy_heap (heap_free (to_id t) ?s1))"
      unfolding free using Cons.prems(1) by (simp flip: Cons.prems(1))
    moreover have "NULL \<notin> set (sy_heap (heap_free (to_id t) ?s1))"
      unfolding free using Cons.prems(2) by (auto dest: notin_set_remove1)
    moreover have "\<not> sy_bad_free (heap_free (to_id t) ?s1)"
      unfolding free using Cons.prems(3) by simp
    ultimately show ?thesis
      using Cons.IH [of X "heap_free (to_id t) ?s1" "Suc i"] True by (simp add: Let_def split_def)
  qed
qed

lemma same_but_wdt_cancel_walk:
  "same_but_wdt s (snd (snd (cancel_walk h ed ud wd clk i ts s)))"
proof (induction ts arbitrary: i s)
  case Nil
  then show ?case by simp
next
  case (Cons t ts)
  let ?s1 = "if to_bIsWDTimeout t \<or> wd then OnUnregisterWDT (clk i) t ts s else s"
  have "same_but_wdt s ?s1" by (simp add: same_but_wdt_OnUnregister)
  then have "same_but_wdt s (heap_free (to_id t) ?s1)"
    using same_but_wdt_trans same_but_wdt_upd(5) by blast
  then have "same_but_wdt s (snd (snd (cancel_walk h ed ud wd clk (Suc i) ts (heap_free (to_id t) ?s1))))"
    using Cons.IH same_but_wdt_trans by blast
  with Cons.IH show ?case by (simp add: Let_def split_def)
qed

lemma cancel_timeout0_result:
  "fst (eloop_cancel_timeout0 clk h ed ud wd s) =
     int (length (filter (timeout_matches h ed ud) (el_timeout (sy_eloop s))))"
  "el_timeout (sy_eloop (snd (eloop_cancel_timeout0 clk h ed ud wd s))) =
     filter (\<lambda>t. \<not> timeout_matches h ed ud t) (el_timeout (sy_eloop s))"
  by (simp_all add: eloop_cancel_timeout0_def Let_def split_def cancel_walk_result)

lemma same_but_wdt_cancel: "same_but_wdt s (snd (eloop_cancel_timeout0 clk h ed ud wd s))"
  unfolding eloop_cancel_timeout0_def Let_def split_def snd_conv
  by (rule same_but_wdt_trans [OF same_but_wdt_cancel_walk same_but_wdt_upd(1)])

lemma same_but_wdt_register: "same_but_wdt s (snd (eloop_register_timeout0 p clk secs usecs h ed ud wd s))"
  using same_but_wdt_trans [OF same_but_wdt_upd(4) same_but_wdt_upd(1)]
    same_but_wdt_trans [OF _ same_but_wdt_OnRegister]
  by (simp add: eloop_register_timeout0_def Let_def)

end
