(* ===== verification/Eloop_Watchdog.thy ===== *)
theory Eloop_Watchdog
  imports Eloop_Timeout
begin

text \<open>
  Invariants of the timeout operations: every live heap block is a node of the list (beside
  the blocks the run loop holds), nothing is freed twice, and \<open>timeout_currentWDT\<close> is the first
  watchdog timeout of the list, with the hardware watchdog running exactly when there is one.
\<close>

section \<open>The blocks of the timeout list\<close>

text \<open>\<open>X\<close> are the blocks that are unlinked but not freed yet.\<close>

definition heap_inv :: "ptr multiset \<Rightarrow> sys \<Rightarrow> bool" where
  "heap_inv X s \<longleftrightarrow>
     mset (map to_id (el_timeout (sy_eloop s))) + X = mset (sy_heap s) \<and>
     distinct (sy_heap s) \<and> NULL \<notin> set (sy_heap s) \<and> \<not> sy_bad_free s"

lemma heap_inv_distinct:
  assumes "heap_inv X s"
  shows "distinct (map to_id (el_timeout (sy_eloop s)))"
    and "NULL \<notin> to_id ` set (el_timeout (sy_eloop s))"
    and "to_id ` set (el_timeout (sy_eloop s)) \<subseteq> set (sy_heap s)"
proof -
  let ?ids = "map to_id (el_timeout (sy_eloop s))"
  have sub: "mset ?ids \<subseteq># mset (sy_heap s)"
    using assms by (metis heap_inv_def mset_subset_eq_add_left)
  have "count (mset (sy_heap s)) x \<le> 1" for x
    using assms by (metis distinct_count_atmost_1 heap_inv_def order.refl zero_le_one count_mset_0_iff linorder_le_cases)
  then have "count (mset ?ids) x \<le> 1" for x
    using sub by (meson mset_subset_eq_count order_trans)
  then show "distinct ?ids"
    by (metis (no_types, lifting) count_mset_0_iff distinct_count_atmost_1 le_antisym less_one linorder_not_le)
  have "set_mset (mset ?ids) \<subseteq> set_mset (mset (sy_heap s))" using sub by (rule set_mset_mono)
  then show "to_id ` set (el_timeout (sy_eloop s)) \<subseteq> set (sy_heap s)" by simp
  then show "NULL \<notin> to_id ` set (el_timeout (sy_eloop s))" using assms by (auto simp: heap_inv_def)
qed

lemma insert_timeout_ids [simp]:
  "mset (map to_id (insert_timeout t ts)) = add_mset (to_id t) (mset (map to_id ts))"
  using tq.ins_mset [of t ts] by (metis image_mset_add_mset mset_map)

lemma new_timeout_simps [simp]:
  "to_id (new_timeout p now secs usecs h ed ud wd) = p"
  "to_bIsWDTimeout (new_timeout p now secs usecs h ed ud wd) = wd"
  "to_handler (new_timeout p now secs usecs h ed ud wd) = h"
  "to_eloop_data (new_timeout p now secs usecs h ed ud wd) = ed"
  "to_user_data (new_timeout p now secs usecs h ed ud wd) = ud"
  by (simp_all add: new_timeout_def)

lemma heap_inv_register:
  assumes "heap_inv X s" and "malloc_ok p s"
  shows "heap_inv X (snd (eloop_register_timeout0 p clk secs usecs h ed ud wd s))"
proof (cases "p = NULL")
  case True
  with assms show ?thesis by (simp add: eloop_register_timeout0_def)
next
  case False
  have ids: "mset (map to_id (mark_wdt q ts)) = mset (map to_id ts)" for q ts by simp
  from False assms show ?thesis
    unfolding heap_inv_def eloop_register_timeout0_def Let_def malloc_ok_def
    by (cases wd) (auto simp del: mset_map simp: ids)
qed

lemma heap_inv_cancel:
  assumes "heap_inv X s"
  shows "heap_inv X (snd (eloop_cancel_timeout0 clk h ed ud wd s))"
proof -
  let ?w = "cancel_walk h ed ud wd clk 0 (el_timeout (sy_eloop s)) s"
  from assms have W: "mset (map to_id (filter (\<lambda>t. \<not> timeout_matches h ed ud t) (el_timeout (sy_eloop s)))) + X =
      mset (sy_heap (snd (snd ?w))) \<and> NULL \<notin> set (sy_heap (snd (snd ?w))) \<and> \<not> sy_bad_free (snd (snd ?w))"
    unfolding heap_inv_def by (intro cancel_walk_heap) blast+
  have D: "distinct (sy_heap (snd (snd ?w)))"
  proof -
    have "distinct (sy_heap (snd (snd (cancel_walk h ed ud wd clk i ts s'))))"
      if "distinct (sy_heap s')" for i ts s'
      using that
    proof (induction ts arbitrary: i s')
      case Nil
      then show ?case by simp
    next
      case (Cons t ts)
      have "distinct (sy_heap (heap_free p s''))" if "sy_heap s'' = sy_heap s'" for p s''
        using that Cons.prems by (simp add: heap_free_def)
      with Cons show ?case by (simp add: Let_def split_def)
    qed
    with assms show ?thesis by (simp add: heap_inv_def)
  qed
  from W D show ?thesis
    by (simp add: heap_inv_def eloop_cancel_timeout0_def Let_def split_def cancel_walk_result)
qed

section \<open>The hardware watchdog\<close>

text \<open>The protocol of the watchdog interface: start when stopped, restart or stop when started.\<close>

fun wdt_next :: "bool \<Rightarrow> wdt_call \<Rightarrow> bool option" where
  "wdt_next running (StartWDT ud x y) = (if running then None else Some True)"
| "wdt_next running (RestartWDT ud x y) = (if running then Some True else None)"
| "wdt_next running (StopWDT ud) = (if running then Some False else None)"

fun wdt_run :: "bool \<Rightarrow> wdt_call list \<Rightarrow> bool option" where
  "wdt_run b [] = Some b"
| "wdt_run b (c # cs) = (case wdt_next b c of None \<Rightarrow> None | Some b' \<Rightarrow> wdt_run b' cs)"

lemma wdt_run_snoc [simp]:
  "wdt_run b (cs @ [c]) = (case wdt_run b cs of None \<Rightarrow> None | Some b' \<Rightarrow> wdt_next b' c)"
  by (induction cs arbitrary: b) (auto split: option.split)

definition wdt_id :: "eloop_timeout list \<Rightarrow> ptr" where
  "wdt_id ts = (case first_wdt ts of None \<Rightarrow> NULL | Some t \<Rightarrow> to_id t)"

definition wdt_at :: "eloop_timeout list \<Rightarrow> sys \<Rightarrow> bool" where
  "wdt_at ts s \<longleftrightarrow>
     el_timeout_currentWDT (sy_eloop s) = wdt_id ts \<and>
     wdt_run False (sy_wdt s) = Some (el_timeout_currentWDT (sy_eloop s) \<noteq> NULL)"

definition wdt_ok :: "sys \<Rightarrow> bool" where
  "wdt_ok s \<longleftrightarrow> wdt_at (el_timeout (sy_eloop s)) s"

lemma wdt_id_NULL: "NULL \<notin> to_id ` set ts \<Longrightarrow> wdt_id ts = NULL \<longleftrightarrow> first_wdt ts = None"
  by (auto simp: wdt_id_def dest: first_wdt_Some split: option.split)

lemma wdt_id_OnUnregister:
  assumes "distinct (map to_id (ks @ t # ts))" and "NULL \<notin> to_id ` set (ks @ t # ts)"
    and "wdt_at (ks @ t # ts) s" and "to_bIsWDTimeout t \<or> el_timeout_currentWDT (sy_eloop s) \<noteq> to_id t"
  shows "wdt_at (ks @ ts) (OnUnregisterWDT now t ts s)"
proof (cases "first_wdt ks")
  case (Some u)
  then have "to_id u \<in> to_id ` set ks" using first_wdt_Some by blast
  then have "to_id u \<noteq> to_id t" "to_id u \<noteq> NULL" using assms(1,2) by auto
  with Some assms(3) show ?thesis
    by (simp add: wdt_at_def wdt_id_def first_wdt_append OnUnregisterWDT_def)
next
  case None
  have T: "to_id u \<noteq> NULL" if "first_wdt ts = Some u" for u
    using first_wdt_Some [OF that] assms(2) by auto
  have U: "to_id u \<noteq> to_id t" if "first_wdt ts = Some u" for u
  proof -
    have "to_id u \<in> to_id ` set ts" using first_wdt_Some [OF that] by blast
    with assms(1) show ?thesis by auto
  qed
  show ?thesis
  proof (cases "to_bIsWDTimeout t")
    case True
    with None assms(2,3) T show ?thesis
      by (auto simp: wdt_at_def wdt_id_def first_wdt_append OnUnregisterWDT_def Let_def split: option.splits)
  next
    case False
    with None assms(2,3,4) T U show ?thesis
      by (auto simp: wdt_at_def wdt_id_def first_wdt_append OnUnregisterWDT_def Let_def split: option.splits)
  qed
qed

lemma wdt_at_free [simp]: "wdt_at ts (heap_free p s) = wdt_at ts s"
  by (simp add: wdt_at_def)

lemma cancel_walk_wdt:
  assumes "distinct (map to_id (ks @ ts))" and "NULL \<notin> to_id ` set (ks @ ts)" and "wdt_at (ks @ ts) s"
  shows "wdt_at (ks @ fst (cancel_walk h ed ud wd clk i ts s)) (snd (snd (cancel_walk h ed ud wd clk i ts s)))"
  using assms
proof (induction ts arbitrary: ks i s)
  case Nil
  then show ?case by simp
next
  case (Cons t ts)
  let ?s1 = "if to_bIsWDTimeout t \<or> wd then OnUnregisterWDT (clk i) t ts s else s"
  show ?case
  proof (cases "timeout_matches h ed ud t")
    case False
    with Cons.IH [of "ks @ [t]" s "Suc i"] Cons.prems show ?thesis by (simp add: Let_def split_def)
  next
    case True
    have cur: "el_timeout_currentWDT (sy_eloop s) \<noteq> to_id t" if "\<not> to_bIsWDTimeout t"
    proof
      assume eq: "el_timeout_currentWDT (sy_eloop s) = to_id t"
      with Cons.prems(2,3) obtain u where u: "first_wdt (ks @ t # ts) = Some u" "to_id u = to_id t"
        by (auto simp: wdt_at_def wdt_id_def split: option.splits)
      then have "u \<in> set (ks @ t # ts)" "to_bIsWDTimeout u" using first_wdt_Some by blast+
      with u(2) Cons.prems(1) that show False by (auto simp: image_iff)
    qed
    have "wdt_at (ks @ ts) (if to_bIsWDTimeout t \<or> wd then OnUnregisterWDT (clk i) t ts s else s)"
    proof (cases "to_bIsWDTimeout t \<or> wd")
      case True
      with cur Cons.prems wdt_id_OnUnregister show ?thesis by (cases "to_bIsWDTimeout t") auto
    next
      case False
      with Cons.prems(3) show ?thesis
        by (auto simp: wdt_at_def wdt_id_def first_wdt_append split: option.splits)
    qed
    then have "wdt_at (ks @ ts) (heap_free (to_id t) ?s1)" by simp
    with Cons.IH [of ks "heap_free (to_id t) ?s1" "Suc i"] Cons.prems(1,2) True
    show ?thesis by (simp add: Let_def split_def)
  qed
qed

lemma wdt_ok_cancel:
  assumes "heap_inv X s" and "wdt_ok s"
  shows "wdt_ok (snd (eloop_cancel_timeout0 clk h ed ud wd s))"
proof -
  have "wdt_at ([] @ fst (cancel_walk h ed ud wd clk 0 (el_timeout (sy_eloop s)) s))
          (snd (snd (cancel_walk h ed ud wd clk 0 (el_timeout (sy_eloop s)) s)))"
    using heap_inv_distinct [OF assms(1)] assms(2) by (intro cancel_walk_wdt) (simp_all add: wdt_ok_def)
  then show ?thesis
    by (simp add: wdt_ok_def wdt_at_def eloop_cancel_timeout0_def Let_def split_def)
qed

lemma wdt_ok_register:
  assumes "heap_inv X s" and "malloc_ok p s" and "wdt_ok s"
  shows "wdt_ok (snd (eloop_register_timeout0 p clk secs usecs h ed ud wd s))"
proof (cases "p = NULL")
  case True
  with assms(3) show ?thesis by (simp add: eloop_register_timeout0_def)
next
  case p: False
  let ?t = "new_timeout p (clk 0) secs usecs h ed ud wd"
  let ?ts = "el_timeout (sy_eloop s)"
  have fresh: "p \<notin> to_id ` set ?ts"
    using heap_inv_distinct(3) [OF assms(1)] assms(2) p by (auto simp: malloc_ok_def)
  have null: "NULL \<notin> to_id ` set ?ts" using heap_inv_distinct(2) [OF assms(1)] .
  show ?thesis
  proof (cases wd)
    case False
    with p assms(3) show ?thesis
      by (simp add: wdt_ok_def wdt_at_def eloop_register_timeout0_def Let_def wdt_id_def
          first_wdt_insert_other)
  next
    case True
    then have wd: "wd = True" by simp
    have mark: "mark_wdt p (insert_timeout ?t ?ts) = insert_timeout ?t ?ts"
      using fresh True by (intro mark_wdt_id) (auto simp: tq.ins_set)
    have first: "first_wdt (insert_timeout ?t ?ts) = Some ?t \<or>
                 first_wdt (insert_timeout ?t ?ts) = first_wdt ?ts"
      using True by (intro first_wdt_insert_wdt) simp
    have notp: "to_id u \<noteq> p" if "first_wdt ?ts = Some u" for u
      using first_wdt_Some [OF that] fresh by auto
    have nonnull: "to_id u \<noteq> NULL" if "first_wdt ?ts = Some u" for u
      using first_wdt_Some [OF that] null by auto
    have ne: "first_wdt (insert_timeout ?t ?ts) \<noteq> None"
      using True by (auto simp: first_wdt_None tq.ins_set)
    from p assms(3) first [unfolded wd] notp nonnull ne [unfolded wd] show ?thesis
      unfolding wd
      by (auto simp: wdt_ok_def wdt_at_def eloop_register_timeout0_def Let_def wdt_id_def
          mark [unfolded wd] OnRegisterWDT_def split: option.splits)
  qed
qed

end
