(* ===== verification/Eloop_TimeChange.thy ===== *)
theory Eloop_TimeChange
  imports Eloop_Watchdog
begin

text \<open>
  The shift of all deadlines when the wall clock jumps (eloop/eloop.c, \<open>ELOOP_TIMECHANGE_PATCH\<close>):
  \<open>eloop_timeUpdate\<close>, \<open>eloop_timeChange0\<close> and \<open>eloop_timeChangeAuto\<close>, which the run loop calls
  before and after \<open>pselect\<close> with the tick counters of \<open>times()\<close>. \<open>clock_t\<close> is a 64-bit
  \<open>long\<close>; \<open>clockdiff\<close> is an \<open>unsigned long\<close>.
\<close>

section \<open>Operations\<close>

definition shift_time :: "int \<Rightarrow> os_time \<Rightarrow> os_time \<Rightarrow> os_time" where
  "shift_time sign d t = (if sign > 0 then AddTime t d else SubTime t d)"

text \<open>
  The loop of \<open>eloop_timeUpdate\<close>; \<open>has\<close> is \<open>bHasPrehistoric\<close>. A deadline of at most
  1000000000 seconds is \<open>bIsPrehistoric\<close>.
\<close>

fun update_walk :: "int \<Rightarrow> os_time \<Rightarrow> bool \<Rightarrow> eloop_timeout list \<Rightarrow> eloop_timeout list" where
  "update_walk sign d has [] = []"
| "update_walk sign d has (t # ts) =
     (let is_pre = (sec (to_time t) \<le> 1000000000);
          has' = (has \<or> is_pre);
          t' = (if is_pre \<or> (\<not> is_pre \<and> \<not> has')
                then t\<lparr>to_time := shift_time sign d (to_time t)\<rparr> else t)
      in t' # update_walk sign d has' ts)"

definition eloop_timeUpdate :: "int \<Rightarrow> os_time \<Rightarrow> sys \<Rightarrow> sys" where
  "eloop_timeUpdate sign d s =
     (if sign = 0 \<or> (sec d \<le> 0 \<and> usec d \<le> 900000) then s
      else upd_el (\<lambda>e. e\<lparr>el_timeout := update_walk sign d False (el_timeout e)\<rparr>) s)"

definition eloop_timeChange0 :: "os_time \<Rightarrow> os_time \<Rightarrow> sys \<Rightarrow> sys" where
  "eloop_timeChange0 newt cur s =
     (let sign = CmpTime newt cur
      in if sign = 0 then s
         else if sign > 0 then eloop_timeUpdate sign (SubTime newt cur) s
         else eloop_timeUpdate sign (SubTime cur newt) s)"

text \<open>
  \<open>clockdiff\<close>: for \<open>t1 <= t0\<close> the sum \<open>0xFFFFFFFF-t0+t1+1\<close> is a \<open>long\<close>, stored in an
  \<open>unsigned long\<close>.
\<close>

definition clockdiff_of :: "int \<Rightarrow> int \<Rightarrow> int" where
  "clockdiff_of t1 t0 = (if t1 > t0 then t1 - t0 else (0xFFFFFFFF - t0 + t1 + 1) mod 2 ^ 64)"

text \<open>The time \<open>curtime\<close> that \<open>eloop_timeChangeAuto\<close> expects the clock to show.\<close>

definition expected_time :: "int \<Rightarrow> int \<Rightarrow> os_time \<Rightarrow> os_time" where
  "expected_time t1 t0 prev =
     (let cd = clockdiff_of t1 t0;
          s = sec prev + cd div 100;
          u = usec prev + cd mod 100 * 1000000 div 100
      in if u > 1000000 then tm (s + 1) (u - 1000000)
         else if u < 0 then tm (s - 1) (u + 1000000) else tm s u)"

definition eloop_timeChangeAuto :: "int \<Rightarrow> int \<Rightarrow> os_time \<Rightarrow> os_time \<Rightarrow> sys \<Rightarrow> sys" where
  "eloop_timeChangeAuto t1 t0 newt prev s = eloop_timeChange0 newt (expected_time t1 t0 prev) s"

text \<open>
  With \<open>ELOOP_TIMECHANGE_AUTO\<close> the entry point \<open>eloop_timeChange\<close> only prints its argument.
\<close>

definition eloop_timeChange :: "int \<Rightarrow> int \<Rightarrow> sys \<Rightarrow> sys" where
  "eloop_timeChange new_sec new_usec s = s"

section \<open>Lemmas\<close>

lemma update_walk_ids [simp]: "map to_id (update_walk sign d has ts) = map to_id ts"
  by (induction ts arbitrary: has) (simp_all add: Let_def)

lemma update_walk_flags [simp]: "map to_bIsWDTimeout (update_walk sign d has ts) = map to_bIsWDTimeout ts"
  by (induction ts arbitrary: has) (simp_all add: Let_def)

lemma update_walk_length [simp]: "length (update_walk sign d has ts) = length ts"
  by (induction ts arbitrary: has) (simp_all add: Let_def)

lemma update_walk_modern:
  "\<forall>t \<in> set ts. sec (to_time t) > 1000000000 \<Longrightarrow>
   update_walk sign d False ts = map (\<lambda>t. t\<lparr>to_time := shift_time sign d (to_time t)\<rparr>) ts"
  by (induction ts) (auto simp: Let_def)

lemma update_walk_prehistoric:
  "\<forall>t \<in> set ts. sec (to_time t) \<le> 1000000000 \<Longrightarrow>
   update_walk sign d has ts = map (\<lambda>t. t\<lparr>to_time := shift_time sign d (to_time t)\<rparr>) ts"
  by (induction ts arbitrary: has) (auto simp: Let_def)

lemma shift_time_us:
  "us_of (shift_time sign d t) = (if sign > 0 then us_of t + us_of d else us_of t - us_of d)"
  by (simp add: shift_time_def)

lemma shift_time_normal: "normal_time t \<Longrightarrow> normal_time d \<Longrightarrow> normal_time (shift_time sign d t)"
  by (simp add: shift_time_def AddTime_normal SubTime_normal)

lemma shift_time_before:
  assumes "normal_time a" and "normal_time b" and "normal_time d"
  shows "os_time_before (shift_time sign d a) (shift_time sign d b) = os_time_before a b"
  using assms by (simp add: os_time_before_us shift_time_normal shift_time_us)

lemma wdt_id_cong:
  "map to_id ts = map to_id us \<Longrightarrow> map to_bIsWDTimeout ts = map to_bIsWDTimeout us \<Longrightarrow>
   wdt_id ts = wdt_id us"
proof (induction ts arbitrary: us)
  case Nil
  then show ?case by simp
next
  case (Cons t ts)
  then show ?case by (cases us) (auto simp: wdt_id_def)
qed

text \<open>The three ways a time change leaves the list: as it was, or walked over once.\<close>

lemma timeChange0_cases:
  obtains "eloop_timeChange0 newt cur s = s"
  | sign d where "eloop_timeChange0 newt cur s =
      upd_el (\<lambda>e. e\<lparr>el_timeout := update_walk sign d False (el_timeout e)\<rparr>) s"
proof -
  have U: "eloop_timeUpdate sign d s = s \<or> eloop_timeUpdate sign d s =
      upd_el (\<lambda>e. e\<lparr>el_timeout := update_walk sign d False (el_timeout e)\<rparr>) s" for sign d
    by (simp add: eloop_timeUpdate_def)
  have "eloop_timeChange0 newt cur s = s \<or>
      (\<exists>sign d. eloop_timeChange0 newt cur s = eloop_timeUpdate sign d s)"
    by (cases "CmpTime newt cur = 0"; cases "0 < CmpTime newt cur")
       (auto simp: eloop_timeChange0_def)
  with U that show thesis by metis
qed

lemma heap_inv_timeChange: "heap_inv X (eloop_timeChange0 newt cur s) = heap_inv X s"
  by (rule timeChange0_cases [of newt cur s]) (simp_all add: heap_inv_def del: mset_map)

lemma wdt_ok_timeChange: "wdt_ok (eloop_timeChange0 newt cur s) = wdt_ok s"
proof (rule timeChange0_cases [of newt cur s])
  fix sign d
  assume E: "eloop_timeChange0 newt cur s =
    upd_el (\<lambda>e. e\<lparr>el_timeout := update_walk sign d False (el_timeout e)\<rparr>) s"
  have "wdt_id (update_walk sign d False (el_timeout (sy_eloop s))) = wdt_id (el_timeout (sy_eloop s))"
    by (rule wdt_id_cong) simp_all
  then show ?thesis by (simp add: E wdt_ok_def wdt_at_def)
qed simp

lemma same_but_wdt_timeChange: "same_but_wdt s (eloop_timeChange0 newt cur s)"
  by (rule timeChange0_cases [of newt cur s]) (simp_all add: same_but_wdt_def forget_wdt_def upd_el_def)

lemma timeouts_sorted_shift:
  assumes "timeouts_sorted ts" and "\<forall>t \<in> set ts. normal_time (to_time t)" and "normal_time d"
  shows "timeouts_sorted (map (\<lambda>t. t\<lparr>to_time := shift_time sign d (to_time t)\<rparr>) ts)"
  using assms(1,2)
proof (induction ts)
  case Nil
  then show ?case by (simp add: timeouts_sorted_def)
next
  case (Cons t ts)
  then show ?case
    using shift_time_before [OF _ _ assms(3)] by (auto simp: timeouts_sorted_def)
qed

end
