(* ===== verification/Eloop_Signal.thy ===== *)
theory Eloop_Signal
  imports Eloop_Sock Eloop_TimeChange
begin

text \<open>
  Signals of eloop/eloop.c: registration, and the asynchronous handler \<open>eloop_handle_signal\<close>,
  which only counts. A POSIX build is modelled: \<open>alarm(2)\<close> and \<open>alarm(0)\<close> arm and disarm
  \<open>sy_alarm\<close>, \<open>signal(sig, eloop_handle_signal)\<close> adds \<open>sig\<close> to \<open>sy_installed\<close>. The
  dispatch of pending signals calls application handlers and is in Eloop\_Run. The two alarm handlers of the file print a message and leave the process.
\<close>

section \<open>Operations\<close>

definition eloop_register_signal :: "bool \<Rightarrow> int \<Rightarrow> ptr \<Rightarrow> ptr \<Rightarrow> sys \<Rightarrow> int \<times> sys" where
  "eloop_register_signal realloc_ok sig handler user_data s =
     (if \<not> realloc_ok then (-1, s)
      else
        (let row = \<lparr>sg_sig = sig, sg_user_data = user_data, sg_handler = handler, sg_signaled = 0\<rparr>;
             s1 = upd_el (\<lambda>e. e\<lparr>el_signals := el_signals e @ [row]\<rparr>) s
         in (0, s1\<lparr>sy_installed := sig # sy_installed s1\<rparr>)))"

definition eloop_register_signal_terminate ::
    "bool \<Rightarrow> bool \<Rightarrow> ptr \<Rightarrow> ptr \<Rightarrow> sys \<Rightarrow> int \<times> sys" where
  "eloop_register_signal_terminate ok1 ok2 handler user_data s =
     (let (ret, s1) = eloop_register_signal ok1 SIGINT handler user_data s
      in if ret = 0 then eloop_register_signal ok2 SIGTERM handler user_data s1 else (ret, s1))"

definition eloop_register_signal_reconfig :: "bool \<Rightarrow> ptr \<Rightarrow> ptr \<Rightarrow> sys \<Rightarrow> int \<times> sys" where
  "eloop_register_signal_reconfig ok handler user_data s =
     eloop_register_signal ok SIGHUP handler user_data s"

text \<open>The loop of \<open>eloop_handle_signal\<close>: the first row with the signal is counted.\<close>

fun bump_first :: "int \<Rightarrow> eloop_signal list \<Rightarrow> eloop_signal list" where
  "bump_first sig [] = []"
| "bump_first sig (r # rs) =
     (if sg_sig r = sig then r\<lparr>sg_signaled := sg_signaled r + 1\<rparr> # rs else r # bump_first sig rs)"

definition eloop_handle_signal :: "int \<Rightarrow> sys \<Rightarrow> sys" where
  "eloop_handle_signal sig s =
     (let s1 = (if (sig = SIGINT \<or> sig = SIGTERM) \<and> \<not> el_pending_terminate (sy_eloop s)
                then upd_el (\<lambda>e. e\<lparr>el_pending_terminate := True\<rparr>) (s\<lparr>sy_alarm := True\<rparr>) else s)
      in upd_el (\<lambda>e. e\<lparr>el_signaled := el_signaled e + 1, el_signals := bump_first sig (el_signals e)\<rparr>) s1)"

definition eloop_handle_alarm :: "int \<Rightarrow> sys \<Rightarrow> sys outcome" where
  "eloop_handle_alarm sig s = ExitProcess 1"

definition eloop_handle_callback_alarm :: "int \<Rightarrow> sys \<Rightarrow> sys outcome" where
  "eloop_handle_callback_alarm sig s = ExitProcess 2"

section \<open>The monitor of long callbacks\<close>

definition SetPendingMonitor :: "int \<Rightarrow> sys \<Rightarrow> sys" where
  "SetPendingMonitor ty s =
     (if sy_monitor s \<noteq> -1 \<or> el_pending_terminate (sy_eloop s) then s else s\<lparr>sy_monitor := ty\<rparr>)"

definition ClrPendingMonitor :: "int \<Rightarrow> sys \<Rightarrow> sys" where
  "ClrPendingMonitor ty s =
     (if sy_monitor s = -1 \<or> el_pending_terminate (sy_eloop s) then s else s\<lparr>sy_monitor := -1\<rparr>)"

section \<open>Lemmas\<close>

lemma bump_first_sigs [simp]: "map sg_sig (bump_first sig rs) = map sg_sig rs"
  by (induction rs) auto

lemma bump_first_length [simp]: "length (bump_first sig rs) = length rs"
  by (induction rs) auto

lemma bump_first_None: "sig \<notin> sg_sig ` set rs \<Longrightarrow> bump_first sig rs = rs"
  by (induction rs) auto

lemma bump_first_nth:
  assumes "i < length rs"
  shows "bump_first sig rs ! i =
     (if sg_sig (rs ! i) = sig \<and> (\<forall>j < i. sg_sig (rs ! j) \<noteq> sig)
      then (rs ! i)\<lparr>sg_signaled := sg_signaled (rs ! i) + 1\<rparr> else rs ! i)"
  using assms
proof (induction rs arbitrary: i)
  case Nil
  then show ?case by simp
next
  case (Cons r rs)
  show ?case
  proof (cases i)
    case 0
    then show ?thesis by simp
  next
    case (Suc k)
    with Cons.prems have k: "k < length rs" by simp
    have all: "(\<forall>j < Suc k. sg_sig ((r # rs) ! j) \<noteq> sig) \<longleftrightarrow>
               sg_sig r \<noteq> sig \<and> (\<forall>j < k. sg_sig (rs ! j) \<noteq> sig)"
      by (simp add: All_less_Suc2)
    from Suc Cons.IH [OF k] all show ?thesis by auto
  qed
qed

text \<open>The alarm is armed exactly while a termination signal is pending.\<close>

definition alarm_ok :: "sys \<Rightarrow> bool" where
  "alarm_ok s \<longleftrightarrow> sy_alarm s = el_pending_terminate (sy_eloop s)"

text \<open>
  The counters are non-negative, and \<open>signaled\<close> is set whenever some row has a pending
  signal, so the test \<open>eloop.signaled == 0\<close> at the head of the dispatch loses nothing.
\<close>

definition signals_ok :: "sys \<Rightarrow> bool" where
  "signals_ok s \<longleftrightarrow>
     0 \<le> el_signaled (sy_eloop s) \<and>
     (\<forall>r \<in> set (el_signals (sy_eloop s)). 0 \<le> sg_signaled r) \<and>
     set (map sg_sig (el_signals (sy_eloop s))) \<subseteq> set (sy_installed s)"

lemma bump_first_nonneg: "\<forall>r \<in> set rs. 0 \<le> sg_signaled r \<Longrightarrow> \<forall>r \<in> set (bump_first sig rs). 0 \<le> sg_signaled r"
  by (induction rs) auto

lemma eloop_handle_signal_simps [simp]:
  "el_timeout (sy_eloop (eloop_handle_signal sig s)) = el_timeout (sy_eloop s)"
  "el_readers (sy_eloop (eloop_handle_signal sig s)) = el_readers (sy_eloop s)"
  "el_writers (sy_eloop (eloop_handle_signal sig s)) = el_writers (sy_eloop s)"
  "el_exceptions (sy_eloop (eloop_handle_signal sig s)) = el_exceptions (sy_eloop s)"
  "el_max_sock (sy_eloop (eloop_handle_signal sig s)) = el_max_sock (sy_eloop s)"
  "el_timeout_currentWDT (sy_eloop (eloop_handle_signal sig s)) = el_timeout_currentWDT (sy_eloop s)"
  "el_signaled (sy_eloop (eloop_handle_signal sig s)) = el_signaled (sy_eloop s) + 1"
  "el_signals (sy_eloop (eloop_handle_signal sig s)) = bump_first sig (el_signals (sy_eloop s))"
  "el_terminate (sy_eloop (eloop_handle_signal sig s)) = el_terminate (sy_eloop s)"
  "el_user_data (sy_eloop (eloop_handle_signal sig s)) = el_user_data (sy_eloop s)"
  "el_tmp_terminate (sy_eloop (eloop_handle_signal sig s)) = el_tmp_terminate (sy_eloop s)"
  "el_pending_terminate (sy_eloop (eloop_handle_signal sig s)) =
     (el_pending_terminate (sy_eloop s) \<or> sig = SIGINT \<or> sig = SIGTERM)"
  "sy_heap (eloop_handle_signal sig s) = sy_heap s"
  "sy_bad_free (eloop_handle_signal sig s) = sy_bad_free s"
  "sy_wdt (eloop_handle_signal sig s) = sy_wdt s"
  "sy_installed (eloop_handle_signal sig s) = sy_installed s"
  "sy_threads (eloop_handle_signal sig s) = sy_threads s"
  "sy_tid (eloop_handle_signal sig s) = sy_tid s"
  "sy_trace (eloop_handle_signal sig s) = sy_trace s"
  "sy_monitor (eloop_handle_signal sig s) = sy_monitor s"
  by (auto simp: eloop_handle_signal_def Let_def)

lemma eloop_register_signal_simps [simp]:
  "el_timeout (sy_eloop (snd (eloop_register_signal ok sig h ud s))) = el_timeout (sy_eloop s)"
  "el_readers (sy_eloop (snd (eloop_register_signal ok sig h ud s))) = el_readers (sy_eloop s)"
  "el_writers (sy_eloop (snd (eloop_register_signal ok sig h ud s))) = el_writers (sy_eloop s)"
  "el_exceptions (sy_eloop (snd (eloop_register_signal ok sig h ud s))) = el_exceptions (sy_eloop s)"
  "el_max_sock (sy_eloop (snd (eloop_register_signal ok sig h ud s))) = el_max_sock (sy_eloop s)"
  "el_timeout_currentWDT (sy_eloop (snd (eloop_register_signal ok sig h ud s))) = el_timeout_currentWDT (sy_eloop s)"
  "el_signaled (sy_eloop (snd (eloop_register_signal ok sig h ud s))) = el_signaled (sy_eloop s)"
  "el_terminate (sy_eloop (snd (eloop_register_signal ok sig h ud s))) = el_terminate (sy_eloop s)"
  "el_user_data (sy_eloop (snd (eloop_register_signal ok sig h ud s))) = el_user_data (sy_eloop s)"
  "el_tmp_terminate (sy_eloop (snd (eloop_register_signal ok sig h ud s))) = el_tmp_terminate (sy_eloop s)"
  "el_pending_terminate (sy_eloop (snd (eloop_register_signal ok sig h ud s))) = el_pending_terminate (sy_eloop s)"
  "sy_heap (snd (eloop_register_signal ok sig h ud s)) = sy_heap s"
  "sy_alarm (snd (eloop_register_signal ok sig h ud s)) = sy_alarm s"
  "sy_bad_free (snd (eloop_register_signal ok sig h ud s)) = sy_bad_free s"
  "sy_wdt (snd (eloop_register_signal ok sig h ud s)) = sy_wdt s"
  "sy_threads (snd (eloop_register_signal ok sig h ud s)) = sy_threads s"
  "sy_tid (snd (eloop_register_signal ok sig h ud s)) = sy_tid s"
  "sy_trace (snd (eloop_register_signal ok sig h ud s)) = sy_trace s"
  "sy_monitor (snd (eloop_register_signal ok sig h ud s)) = sy_monitor s"
  by (simp_all add: eloop_register_signal_def Let_def)

lemma alarm_ok_signal: "alarm_ok s \<Longrightarrow> alarm_ok (eloop_handle_signal sig s)"
  by (auto simp: alarm_ok_def eloop_handle_signal_def Let_def)

lemma signals_ok_signal: "signals_ok s \<Longrightarrow> signals_ok (eloop_handle_signal sig s)"
  using bump_first_nonneg [of "el_signals (sy_eloop s)" sig] bump_first_sigs [of sig "el_signals (sy_eloop s)"]
  by (auto simp: signals_ok_def simp flip: set_map)

lemma signals_ok_register: "signals_ok s \<Longrightarrow> signals_ok (snd (eloop_register_signal ok sig h ud s))"
  by (auto simp: signals_ok_def eloop_register_signal_def Let_def)

lemma SetPendingMonitor_simps [simp]:
  "sy_eloop (SetPendingMonitor ty s) = sy_eloop s"
  "sy_heap (SetPendingMonitor ty s) = sy_heap s"
  "sy_bad_free (SetPendingMonitor ty s) = sy_bad_free s"
  "sy_wdt (SetPendingMonitor ty s) = sy_wdt s"
  "sy_alarm (SetPendingMonitor ty s) = sy_alarm s"
  "sy_installed (SetPendingMonitor ty s) = sy_installed s"
  "sy_threads (SetPendingMonitor ty s) = sy_threads s"
  "sy_tid (SetPendingMonitor ty s) = sy_tid s"
  "sy_trace (SetPendingMonitor ty s) = sy_trace s"
  by (simp_all add: SetPendingMonitor_def)

lemma ClrPendingMonitor_simps [simp]:
  "sy_eloop (ClrPendingMonitor ty s) = sy_eloop s"
  "sy_heap (ClrPendingMonitor ty s) = sy_heap s"
  "sy_bad_free (ClrPendingMonitor ty s) = sy_bad_free s"
  "sy_wdt (ClrPendingMonitor ty s) = sy_wdt s"
  "sy_alarm (ClrPendingMonitor ty s) = sy_alarm s"
  "sy_installed (ClrPendingMonitor ty s) = sy_installed s"
  "sy_threads (ClrPendingMonitor ty s) = sy_threads s"
  "sy_tid (ClrPendingMonitor ty s) = sy_tid s"
  "sy_trace (ClrPendingMonitor ty s) = sy_trace s"
  by (simp_all add: ClrPendingMonitor_def)

end
