(* ===== verification/Eloop_Api.thy ===== *)
theory Eloop_Api
  imports Eloop_Signal
begin

text \<open>
  The calls an application makes on the event loop, as values, so that a script of calls and
  the body of a handler are lists of them; the invariants every call keeps; the states
  reachable by calls.
\<close>

section \<open>Calls\<close>

text \<open>
  A call carries the results of the library functions it uses: whether \<open>os_realloc\<close> succeeds,
  the address \<open>os_malloc\<close> returns, the clock. \<open>ASignal\<close> is the asynchronous delivery of a
  signal while the calling code runs.
\<close>

datatype api_call =
    ARegisterSock bool int int ptr ptr ptr
  | AUnregisterSock int int
  | ARegisterTimeout ptr "nat \<Rightarrow> os_time" u32 u32 ptr ptr ptr bool
  | ACancelTimeout "nat \<Rightarrow> os_time" ptr ptr ptr bool
  | ARegisterSignal bool int ptr ptr
  | ATerminate
  | ATmpTerminate int
  | ASignal int

fun api_exec :: "api_call \<Rightarrow> sys \<Rightarrow> sys" where
  "api_exec (ARegisterSock ok sock ty h ed ud) s = snd (eloop_register_sock ok sock ty h ed ud s)"
| "api_exec (AUnregisterSock sock ty) s = eloop_unregister_sock sock ty s"
| "api_exec (ARegisterTimeout p clk secs usecs h ed ud wd) s =
     snd (eloop_register_timeout0 p clk secs usecs h ed ud wd s)"
| "api_exec (ACancelTimeout clk h ed ud wd) s = snd (eloop_cancel_timeout0 clk h ed ud wd s)"
| "api_exec (ARegisterSignal ok sig h ud) s = snd (eloop_register_signal ok sig h ud s)"
| "api_exec ATerminate s = eloop_terminate s"
| "api_exec (ATmpTerminate v) s = eloop_tmp_terminate v s"
| "api_exec (ASignal sig) s = eloop_handle_signal sig s"

text \<open>What the environment guarantees of a call: \<open>os_malloc\<close> never returns a live block.\<close>

fun api_ok :: "api_call \<Rightarrow> sys \<Rightarrow> bool" where
  "api_ok (ARegisterTimeout p clk secs usecs h ed ud wd) s = malloc_ok p s"
| "api_ok _ s = True"

fun script_ok :: "api_call list \<Rightarrow> sys \<Rightarrow> bool" where
  "script_ok [] s = True"
| "script_ok (c # cs) s = (api_ok c s \<and> script_ok cs (api_exec c s))"

lemma script_ok_nth:
  "script_ok cs s \<longleftrightarrow> (\<forall>k < length cs. api_ok (cs ! k) (fold api_exec (take k cs) s))"
proof (induction cs arbitrary: s)
  case Nil
  then show ?case by simp
next
  case (Cons c cs)
  have "(\<forall>k < length (c # cs). api_ok ((c # cs) ! k) (fold api_exec (take k (c # cs)) s)) \<longleftrightarrow>
        api_ok c s \<and> (\<forall>k < length cs. api_ok (cs ! k) (fold api_exec (take k cs) (api_exec c s)))"
    by (simp add: All_less_Suc2)
  with Cons.IH show ?case by simp
qed

section \<open>Invariants\<close>

lemma register_sock_cases:
  "snd (eloop_register_sock ok sock ty h ed ud s) =
     snd (eloop_sock_table_add_sock ok (eloop_get_sock_table ty) sock h ed ud s)"
  by (simp add: eloop_register_sock_def)

lemma add_sock_frame [simp]:
  "el_timeout (sy_eloop (snd (eloop_sock_table_add_sock ok t sock h ed ud s))) = el_timeout (sy_eloop s)"
  "el_timeout_currentWDT (sy_eloop (snd (eloop_sock_table_add_sock ok t sock h ed ud s))) =
     el_timeout_currentWDT (sy_eloop s)"
  "el_signals (sy_eloop (snd (eloop_sock_table_add_sock ok t sock h ed ud s))) = el_signals (sy_eloop s)"
  "el_signaled (sy_eloop (snd (eloop_sock_table_add_sock ok t sock h ed ud s))) = el_signaled (sy_eloop s)"
  "el_pending_terminate (sy_eloop (snd (eloop_sock_table_add_sock ok t sock h ed ud s))) =
     el_pending_terminate (sy_eloop s)"
  "sy_heap (snd (eloop_sock_table_add_sock ok t sock h ed ud s)) = sy_heap s"
  "sy_bad_free (snd (eloop_sock_table_add_sock ok t sock h ed ud s)) = sy_bad_free s"
  "sy_wdt (snd (eloop_sock_table_add_sock ok t sock h ed ud s)) = sy_wdt s"
  "sy_alarm (snd (eloop_sock_table_add_sock ok t sock h ed ud s)) = sy_alarm s"
  "sy_installed (snd (eloop_sock_table_add_sock ok t sock h ed ud s)) = sy_installed s"
  "sy_trace (snd (eloop_sock_table_add_sock ok t sock h ed ud s)) = sy_trace s"
  "sy_threads (snd (eloop_sock_table_add_sock ok t sock h ed ud s)) = sy_threads s"
  "sy_tid (snd (eloop_sock_table_add_sock ok t sock h ed ud s)) = sy_tid s"
  by (simp_all add: eloop_sock_table_add_sock_def Let_def split: option.split)

lemma unregister_frame [simp]:
  "el_timeout (sy_eloop (eloop_unregister_sock sock ty s)) = el_timeout (sy_eloop s)"
  "el_timeout_currentWDT (sy_eloop (eloop_unregister_sock sock ty s)) = el_timeout_currentWDT (sy_eloop s)"
  "el_signals (sy_eloop (eloop_unregister_sock sock ty s)) = el_signals (sy_eloop s)"
  "el_signaled (sy_eloop (eloop_unregister_sock sock ty s)) = el_signaled (sy_eloop s)"
  "el_pending_terminate (sy_eloop (eloop_unregister_sock sock ty s)) = el_pending_terminate (sy_eloop s)"
  "sy_heap (eloop_unregister_sock sock ty s) = sy_heap s"
  "sy_bad_free (eloop_unregister_sock sock ty s) = sy_bad_free s"
  "sy_wdt (eloop_unregister_sock sock ty s) = sy_wdt s"
  "sy_alarm (eloop_unregister_sock sock ty s) = sy_alarm s"
  "sy_installed (eloop_unregister_sock sock ty s) = sy_installed s"
  "sy_trace (eloop_unregister_sock sock ty s) = sy_trace s"
  "sy_threads (eloop_unregister_sock sock ty s) = sy_threads s"
  "sy_tid (eloop_unregister_sock sock ty s) = sy_tid s"
  by (simp_all add: eloop_unregister_sock_def eloop_recalc_max_sock_def eloop_sock_table_remove_sock_def
      split: option.split)

lemma terminate_frame [simp]:
  "sy_heap (eloop_terminate s) = sy_heap s" "sy_heap (eloop_tmp_terminate v s) = sy_heap s"
  "sy_bad_free (eloop_terminate s) = sy_bad_free s" "sy_bad_free (eloop_tmp_terminate v s) = sy_bad_free s"
  "sy_wdt (eloop_terminate s) = sy_wdt s" "sy_wdt (eloop_tmp_terminate v s) = sy_wdt s"
  "sy_alarm (eloop_terminate s) = sy_alarm s" "sy_alarm (eloop_tmp_terminate v s) = sy_alarm s"
  "sy_installed (eloop_terminate s) = sy_installed s" "sy_installed (eloop_tmp_terminate v s) = sy_installed s"
  "sy_trace (eloop_terminate s) = sy_trace s" "sy_trace (eloop_tmp_terminate v s) = sy_trace s"
  "sy_threads (eloop_terminate s) = sy_threads s" "sy_threads (eloop_tmp_terminate v s) = sy_threads s"
  "sy_tid (eloop_terminate s) = sy_tid s" "sy_tid (eloop_tmp_terminate v s) = sy_tid s"
  "sy_eloop (eloop_terminate s) = (sy_eloop s)\<lparr>el_terminate := True\<rparr>"
  "sy_eloop (eloop_tmp_terminate v s) = (sy_eloop s)\<lparr>el_tmp_terminate := v\<rparr>"
  by (simp_all add: eloop_terminate_def eloop_tmp_terminate_def)

lemma heap_inv_cong:
  "el_timeout (sy_eloop s') = el_timeout (sy_eloop s) \<Longrightarrow> sy_heap s' = sy_heap s \<Longrightarrow>
   sy_bad_free s' = sy_bad_free s \<Longrightarrow> heap_inv X s' = heap_inv X s"
  by (simp add: heap_inv_def)

lemma wdt_ok_cong:
  "el_timeout (sy_eloop s') = el_timeout (sy_eloop s) \<Longrightarrow> sy_wdt s' = sy_wdt s \<Longrightarrow>
   el_timeout_currentWDT (sy_eloop s') = el_timeout_currentWDT (sy_eloop s) \<Longrightarrow> wdt_ok s' = wdt_ok s"
  by (simp add: wdt_ok_def wdt_at_def)

lemma heap_inv_api: "heap_inv X s \<Longrightarrow> api_ok c s \<Longrightarrow> heap_inv X (api_exec c s)"
  by (cases c) (auto simp: register_sock_cases heap_inv_register heap_inv_cancel cong: heap_inv_cong)

lemma wdt_ok_api:
  assumes "heap_inv X s \<and> wdt_ok s" and "api_ok c s"
  shows "heap_inv X (api_exec c s) \<and> wdt_ok (api_exec c s)"
proof -
  have "wdt_ok (api_exec c s)"
    using assms
    by (cases c) (auto simp: register_sock_cases wdt_ok_register wdt_ok_cancel cong: wdt_ok_cong)
  with assms heap_inv_api show ?thesis by blast
qed

lemma max_sock_ok_frame:
  "el_readers (sy_eloop s') = el_readers (sy_eloop s) \<Longrightarrow> el_writers (sy_eloop s') = el_writers (sy_eloop s) \<Longrightarrow>
   el_exceptions (sy_eloop s') = el_exceptions (sy_eloop s) \<Longrightarrow>
   el_max_sock (sy_eloop s') = el_max_sock (sy_eloop s) \<Longrightarrow> max_sock_ok s' = max_sock_ok s"
  by (simp add: max_sock_ok_def all_socks_def)

lemma max_sock_ok_same: "same_but_wdt s s' \<Longrightarrow> max_sock_ok s' = max_sock_ok s"
  by (rule max_sock_ok_frame) (simp_all add: same_but_wdtD)

lemma max_sock_ok_api: "max_sock_ok s \<Longrightarrow> max_sock_ok (api_exec c s)"
proof (cases c)
  case (ARegisterTimeout p clk secs usecs h ed ud wd)
  then show "max_sock_ok s \<Longrightarrow> ?thesis" using max_sock_ok_same [OF same_but_wdt_register] by simp
next
  case (ACancelTimeout clk h ed ud wd)
  then show "max_sock_ok s \<Longrightarrow> ?thesis" using max_sock_ok_same [OF same_but_wdt_cancel] by simp
next
  case (ARegisterSock ok sock ty h ed ud)
  then show "max_sock_ok s \<Longrightarrow> ?thesis" by (simp add: register_sock_cases max_sock_ok_add)
next
  case (AUnregisterSock sock ty)
  then show "max_sock_ok s \<Longrightarrow> ?thesis" by (simp add: max_sock_ok_unregister)
qed (auto simp: max_sock_ok_def all_socks_def)

lemma alarm_ok_same: "same_but_wdt s s' \<Longrightarrow> alarm_ok s' = alarm_ok s"
  by (simp add: alarm_ok_def same_but_wdtD)

lemma alarm_ok_api: "alarm_ok s \<Longrightarrow> alarm_ok (api_exec c s)"
proof (cases c)
  case (ARegisterTimeout p clk secs usecs h ed ud wd)
  then show "alarm_ok s \<Longrightarrow> ?thesis" using alarm_ok_same [OF same_but_wdt_register] by simp
next
  case (ACancelTimeout clk h ed ud wd)
  then show "alarm_ok s \<Longrightarrow> ?thesis" using alarm_ok_same [OF same_but_wdt_cancel] by simp
next
  case (ASignal sig)
  then show "alarm_ok s \<Longrightarrow> ?thesis" using alarm_ok_signal by simp
qed (auto simp: register_sock_cases alarm_ok_def)

lemma signals_ok_same: "same_but_wdt s s' \<Longrightarrow> signals_ok s' = signals_ok s"
  by (simp add: signals_ok_def same_but_wdtD)

lemma signals_ok_api: "signals_ok s \<Longrightarrow> signals_ok (api_exec c s)"
proof (cases c)
  case (ARegisterTimeout p clk secs usecs h ed ud wd)
  then show "signals_ok s \<Longrightarrow> ?thesis" using signals_ok_same [OF same_but_wdt_register] by simp
next
  case (ACancelTimeout clk h ed ud wd)
  then show "signals_ok s \<Longrightarrow> ?thesis" using signals_ok_same [OF same_but_wdt_cancel] by simp
next
  case (ARegisterSignal ok sig h ud)
  then show "signals_ok s \<Longrightarrow> ?thesis" using signals_ok_register by simp
next
  case (ASignal sig)
  then show "signals_ok s \<Longrightarrow> ?thesis" using signals_ok_signal by simp
qed (auto simp: register_sock_cases signals_ok_def)

lemma api_trace [simp]: "sy_trace (api_exec c s) = sy_trace s"
  using same_but_wdtD(16) [OF same_but_wdt_register] same_but_wdtD(16) [OF same_but_wdt_cancel]
  by (cases c) (auto simp: register_sock_cases)

definition sorted_ok :: "sys \<Rightarrow> bool" where
  "sorted_ok s \<longleftrightarrow> timeouts_sorted (el_timeout (sy_eloop s))"

lemma sorted_ok_api: "sorted_ok s \<Longrightarrow> sorted_ok (api_exec c s)"
  by (cases c)
    (auto simp: sorted_ok_def register_sock_cases cancel_timeout0_result timeouts_sorted_filter
      eloop_register_timeout0_def Let_def timeouts_sorted_insert)

text \<open>Every call of \<open>pselect\<close> was given a bound above every descriptor in its sets.\<close>

fun select_ok :: "trace_event \<Rightarrow> bool" where
  "select_ok (Called cb) = True"
| "select_ok (Select n r w e tv) = (\<forall>fd \<in> set (r @ w @ e). fd < n)"

definition selects_ok :: "sys \<Rightarrow> bool" where
  "selects_ok s \<longleftrightarrow> (\<forall>ev \<in> set (sy_trace s). select_ok ev)"

text \<open>The invariants a run keeps, \<open>X\<close> the blocks the run loop holds.\<close>

definition run_inv :: "ptr multiset \<Rightarrow> sys \<Rightarrow> bool" where
  "run_inv X s \<longleftrightarrow> heap_inv X s \<and> max_sock_ok s \<and> alarm_ok s \<and> signals_ok s \<and> selects_ok s"

interpretation run_steps: step_invariant api_exec api_ok "run_inv X"
  by unfold_locales
    (auto simp: run_inv_def heap_inv_api max_sock_ok_api alarm_ok_api signals_ok_api selects_ok_def)

interpretation wdt_steps: step_invariant api_exec api_ok "\<lambda>s. heap_inv {#} s \<and> wdt_ok s"
  by unfold_locales (rule wdt_ok_api)

interpretation sorted_steps: step_invariant api_exec api_ok sorted_ok
  by unfold_locales (rule sorted_ok_api)

lemma run_inv_script: "run_inv X s \<Longrightarrow> script_ok cs s \<Longrightarrow> run_inv X (fold api_exec cs s)"
  by (rule run_steps.fold_keeps) (simp_all add: script_ok_nth)

lemma sorted_ok_script: "sorted_ok s \<Longrightarrow> script_ok cs s \<Longrightarrow> sorted_ok (fold api_exec cs s)"
  by (rule sorted_steps.fold_keeps) (simp_all add: script_ok_nth)

section \<open>Frames\<close>

lemma api_threads [simp]: "sy_threads (api_exec c s) = sy_threads s"
  using same_but_wdtD(15) [OF same_but_wdt_register] same_but_wdtD(15) [OF same_but_wdt_cancel]
  by (cases c) (auto simp: register_sock_cases)

lemma api_tid [simp]: "sy_tid (api_exec c s) = sy_tid s"
  using same_but_wdtD(14) [OF same_but_wdt_register] same_but_wdtD(14) [OF same_but_wdt_cancel]
  by (cases c) (auto simp: register_sock_cases)

lemma script_frame [simp]:
  "sy_trace (fold api_exec cs s) = sy_trace s"
  "sy_threads (fold api_exec cs s) = sy_threads s"
  "sy_tid (fold api_exec cs s) = sy_tid s"
  by (induction cs arbitrary: s) simp_all

text \<open>A call that leaves \<open>changed\<close> clear has not touched the table.\<close>

lemma get_table_same: "same_but_wdt s s' \<Longrightarrow> get_table ty (sy_eloop s') = get_table ty (sy_eloop s)"
  by (cases ty) (simp_all add: same_but_wdtD)

lemma get_table_misc [simp]:
  "get_table ty (e\<lparr>el_terminate := b\<rparr>) = get_table ty e"
  "get_table ty (e\<lparr>el_tmp_terminate := v\<rparr>) = get_table ty e"
  "get_table ty (e\<lparr>el_signals := sg\<rparr>) = get_table ty e"
  "get_table ty (e\<lparr>el_signaled := n\<rparr>) = get_table ty e"
  "get_table ty (e\<lparr>el_pending_terminate := p\<rparr>) = get_table ty e"
  "get_table ty (e\<lparr>el_timeout := ts\<rparr>) = get_table ty e"
  by (cases ty; simp)+

lemma get_table_signal [simp]:
  "get_table ty (sy_eloop (eloop_handle_signal sig s)) = get_table ty (sy_eloop s)"
  "get_table ty (sy_eloop (snd (eloop_register_signal ok sig h ud s))) = get_table ty (sy_eloop s)"
  by (cases ty; simp)+

lemma unchanged_api:
  assumes "\<not> st_changed (get_table ty (sy_eloop (api_exec c s)))"
  shows "get_table ty (sy_eloop (api_exec c s)) = get_table ty (sy_eloop s)"
proof (cases c)
  case (ARegisterTimeout p clk secs usecs h ed ud wd)
  then show ?thesis using get_table_same [OF same_but_wdt_register] by simp
next
  case (ACancelTimeout clk h ed ud wd)
  then show ?thesis using get_table_same [OF same_but_wdt_cancel] by simp
next
  case (ARegisterSock ok sock ty' h ed ud)
  with assms show ?thesis
    by (auto simp: register_sock_cases eloop_sock_table_add_sock_def Let_def
        split: option.splits if_splits)
next
  case (AUnregisterSock sock ty')
  with assms show ?thesis
    by (auto simp: eloop_unregister_sock_def eloop_sock_table_remove_sock_def
        split: option.splits if_splits)
qed simp_all

lemma unchanged_script:
  "\<not> st_changed (get_table ty (sy_eloop (fold api_exec cs s))) \<Longrightarrow>
   get_table ty (sy_eloop (fold api_exec cs s)) = get_table ty (sy_eloop s)"
proof (induction cs rule: rev_induct)
  case Nil
  then show ?case by simp
next
  case (snoc c cs)
  then show ?case using unchanged_api by (metis comp_apply fold.simps fold_append id_apply)
qed

section \<open>Reachable states\<close>

text \<open>
  The states an application reaches by calls after \<open>eloop_init\<close>, outside the run loop.
\<close>

inductive reached :: "int \<Rightarrow> ptr \<Rightarrow> sys \<Rightarrow> bool" for tid :: int and user_data :: ptr where
  reached_init: "reached tid user_data (snd (eloop_init user_data (boot tid)))"
| reached_call: "reached tid user_data s \<Longrightarrow> api_ok c s \<Longrightarrow> reached tid user_data (api_exec c s)"

inductive_cases reached_elim: "reached tid user_data s"

lemma init_inv:
  "run_inv {#} (snd (eloop_init ud (boot tid)))" "wdt_ok (snd (eloop_init ud (boot tid)))"
  "sorted_ok (snd (eloop_init ud (boot tid)))"
  by (simp_all add: run_inv_def heap_inv_def max_sock_ok_def all_socks_def alarm_ok_def signals_ok_def
      selects_ok_def wdt_ok_def wdt_at_def wdt_id_def sorted_ok_def timeouts_sorted_def eloop_init_def boot_def
      zero_eloop_def)

lemma reached_inv:
  "reached tid ud s \<Longrightarrow> run_inv {#} s \<and> wdt_ok s \<and> sorted_ok s"
proof (induction rule: reached.induct)
  case reached_init
  show ?case using init_inv by blast
next
  case (reached_call s c)
  then show ?case
    using run_steps.step_keeps wdt_steps.step_keeps sorted_ok_api by (metis run_inv_def)
qed

end
