(* ===== verification/Eloop_Run.thy ===== *)
theory Eloop_Run
  imports Eloop_Api
begin

text \<open>
  The run loop of eloop/eloop.c: the callback wrappers with their exception context, the
  dispatch of pending signals, of one due timeout and of ready sockets, \<open>eloop_run\<close> and
  \<open>eloop_destroy\<close>. A handler is application code: the parameter \<open>sem\<close> gives, for a callback
  and the state it starts in, the calls it makes on the event loop and the exception it throws
  at the end, if any. What an iteration takes from outside (clocks, tick counters, the result of
  \<open>pselect\<close>, the descriptors it reports, the signals that arrive meanwhile) is a record
  \<open>loop_env\<close>; a run consumes a list of them.
\<close>

section \<open>Calling a handler\<close>

type_synonym handlers = "callback \<Rightarrow> sys \<Rightarrow> api_call list \<times> cexception option"

definition note_trace :: "trace_event \<Rightarrow> sys \<Rightarrow> sys" where
  "note_trace ev s = s\<lparr>sy_trace := sy_trace s @ [ev]\<rparr>"

text \<open>
  The shape of the four \<open>call_eloop_*_handler\<close> functions. \<open>FIND_THREAD_EXCEPT_CONTEXT\<close> leaves
  the context null when the thread has none, and \<open>Try\<close> dereferences it. The Catch clause sets
  \<open>terminate\<close> and leaves the process with status -99.
\<close>

definition protected_call :: "handlers \<Rightarrow> callback \<Rightarrow> int option \<Rightarrow> sys \<Rightarrow> sys outcome" where
  "protected_call sem cb mon s =
     (case findstate (sy_tid s) (sy_threads s) of
        None \<Rightarrow> Crash
      | Some _ \<Rightarrow>
          (let s1 = (case mon of None \<Rightarrow> s | Some ty \<Rightarrow> SetPendingMonitor ty s);
               s2 = note_trace (Called cb) s1;
               (calls, exc) = sem cb s2;
               s3 = fold api_exec calls s2
           in case exc of
                Some e \<Rightarrow> ExitProcess (-99)
              | None \<Rightarrow> Done (case mon of None \<Rightarrow> s3 | Some ty \<Rightarrow> ClrPendingMonitor ty s3)))"

definition call_eloop_sock_handler :: "handlers \<Rightarrow> ptr \<Rightarrow> int \<Rightarrow> ptr \<Rightarrow> ptr \<Rightarrow> sys \<Rightarrow> sys outcome" where
  "call_eloop_sock_handler sem h sock ctx sock_ctx s =
     protected_call sem (SockCb h sock ctx sock_ctx) (Some 1) s"

definition call_eloop_signal_handler :: "handlers \<Rightarrow> ptr \<Rightarrow> int \<Rightarrow> ptr \<Rightarrow> ptr \<Rightarrow> sys \<Rightarrow> sys outcome" where
  "call_eloop_signal_handler sem h sig ctx signal_ctx s =
     protected_call sem (SignalCb h sig ctx signal_ctx)
       (if sig \<noteq> SIGINT \<and> sig \<noteq> SIGTERM then Some 4 else None) s"

definition call_eloop_timeout_handler :: "handlers \<Rightarrow> ptr \<Rightarrow> ptr \<Rightarrow> ptr \<Rightarrow> sys \<Rightarrow> sys outcome" where
  "call_eloop_timeout_handler sem h ed ctx s = protected_call sem (TimeoutCb h ed ctx) (Some 2) s"

definition call_eloop_event_handler :: "handlers \<Rightarrow> ptr \<Rightarrow> ptr \<Rightarrow> ptr \<Rightarrow> sys \<Rightarrow> sys outcome" where
  "call_eloop_event_handler sem h ed ctx s = protected_call sem (EventCb h ed ctx) (Some 3) s"

section \<open>Dispatch\<close>

text \<open>
  The loop of \<open>eloop_sock_table_dispatch\<close> from row \<open>i\<close>; \<open>fds\<close> are the descriptors \<open>pselect\<close>
  left in the set. The first argument bounds the number of rounds.
\<close>

fun dispatch_from :: "nat \<Rightarrow> handlers \<Rightarrow> table_id \<Rightarrow> int list \<Rightarrow> nat \<Rightarrow> sys \<Rightarrow> sys outcome" where
  "dispatch_from 0 sem ty fds i s = OutOfFuel"
| "dispatch_from (Suc n) sem ty fds i s =
     (if i < length (rows ty s) then
        (let r = rows ty s ! i
         in if so_sock r \<in> set fds then
              obind (call_eloop_sock_handler sem (so_handler r) (so_sock r) (so_eloop_data r)
                       (so_user_data r) s)
                (\<lambda>s'. if st_changed (get_table ty (sy_eloop s')) then Done s'
                      else dispatch_from n sem ty fds (Suc i) s')
            else dispatch_from n sem ty fds (Suc i) s)
      else Done s)"

definition eloop_sock_table_dispatch :: "handlers \<Rightarrow> table_id \<Rightarrow> int list \<Rightarrow> sys \<Rightarrow> sys outcome" where
  "eloop_sock_table_dispatch sem ty fds s =
     (if st_table (get_table ty (sy_eloop s)) = None then Done s
      else dispatch_from (Suc (length (rows ty s))) sem ty fds 0
             (upd_el (\<lambda>e. put_table ty ((get_table ty e)\<lparr>st_changed := False\<rparr>) e) s))"

text \<open>
  The loop of \<open>eloop_process_pending_signals\<close> from row \<open>i\<close>. A handler may add rows, so the
  number of rounds is bounded by an argument.
\<close>

fun signals_from :: "nat \<Rightarrow> handlers \<Rightarrow> nat \<Rightarrow> sys \<Rightarrow> sys outcome" where
  "signals_from 0 sem i s = OutOfFuel"
| "signals_from (Suc n) sem i s =
     (if i < length (el_signals (sy_eloop s)) then
        (let r = el_signals (sy_eloop s) ! i
         in if sg_signaled r \<noteq> 0 then
              obind (call_eloop_signal_handler sem (sg_handler r) (sg_sig r)
                       (el_user_data (sy_eloop s)) (sg_user_data r)
                       (upd_el (\<lambda>e. e\<lparr>el_signals := (el_signals e)[i := r\<lparr>sg_signaled := 0\<rparr>]\<rparr>) s))
                (\<lambda>s'. signals_from n sem (Suc i) s')
            else signals_from n sem (Suc i) s)
      else Done s)"

text \<open>The counter and the pending termination are acknowledged before the loop.\<close>

definition ack_signals :: "sys \<Rightarrow> sys" where
  "ack_signals s =
     (let s1 = upd_el (\<lambda>e. e\<lparr>el_signaled := 0\<rparr>) s
      in if el_pending_terminate (sy_eloop s1)
         then upd_el (\<lambda>e. e\<lparr>el_pending_terminate := False\<rparr>) (s1\<lparr>sy_alarm := False\<rparr>) else s1)"

definition eloop_process_pending_signals :: "nat \<Rightarrow> handlers \<Rightarrow> sys \<Rightarrow> sys outcome" where
  "eloop_process_pending_signals fuel sem s =
     (if el_signaled (sy_eloop s) = 0 then Done s else signals_from fuel sem 0 (ack_signals s))"

text \<open>The timeout block of the loop: at most the head of the list, popped before it runs.\<close>

definition fire_timeout :: "handlers \<Rightarrow> os_time \<Rightarrow> sys \<Rightarrow> sys outcome" where
  "fire_timeout sem now s =
     (case el_timeout (sy_eloop s) of
        [] \<Rightarrow> Done s
      | t # ts \<Rightarrow>
          if \<not> os_time_before now (to_time t) then
            obind (call_eloop_timeout_handler sem (to_handler t) (to_eloop_data t) (to_user_data t)
                     (upd_el (\<lambda>e. e\<lparr>el_timeout := ts\<rparr>) s))
              (\<lambda>s'. Done (heap_free (to_id t) s'))
          else Done s)"

section \<open>The loop\<close>

record loop_env =
  ev_t1 :: int
  ev_time1 :: os_time
  ev_now :: os_time
  ev_sigs :: "int list"
  ev_res :: int
  ev_errno :: int
  ev_rfds :: "int list"
  ev_wfds :: "int list"
  ev_efds :: "int list"
  ev_t2 :: int
  ev_time2 :: os_time
  ev_fuel :: nat
  ev_now2 :: os_time

definition EINTR :: int where "EINTR = 4"

text \<open>The timeout given to \<open>pselect\<close>, \<open>None\<close> for the null pointer.\<close>

definition select_timeout :: "os_time \<Rightarrow> sys \<Rightarrow> os_time option" where
  "select_timeout now s =
     (case el_timeout (sy_eloop s) of
        [] \<Rightarrow> None
      | t # _ \<Rightarrow> Some (if os_time_before now (to_time t) then os_time_sub (to_time t) now else tm 0 0))"

definition select_event :: "os_time \<Rightarrow> sys \<Rightarrow> trace_event" where
  "select_event now s =
     Select (el_max_sock (sy_eloop s) + 1)
       (eloop_sock_table_set_fds (el_readers (sy_eloop s)))
       (eloop_sock_table_set_fds (el_writers (sy_eloop s)))
       (eloop_sock_table_set_fds (el_exceptions (sy_eloop s)))
       (select_timeout now s)"

text \<open>\<open>Quit\<close> is \<open>goto out\<close>, \<open>Again\<close> the next evaluation of the loop condition.\<close>

datatype 's step_result = Quit 's | Again 's

definition before_select :: "loop_env \<Rightarrow> int \<Rightarrow> os_time \<Rightarrow> sys \<Rightarrow> sys" where
  "before_select env t0 time0 s =
     (let s1 = eloop_timeChangeAuto (ev_t1 env) t0 (ev_time1 env) time0 s
      in note_trace (select_event (ev_now env) s1) s1)"

definition after_select :: "loop_env \<Rightarrow> sys \<Rightarrow> sys" where
  "after_select env s =
     eloop_timeChangeAuto (ev_t2 env) (ev_t1 env) (ev_time2 env) (ev_time1 env)
       (fold eloop_handle_signal (ev_sigs env) s)"

definition dispatch_ready :: "handlers \<Rightarrow> loop_env \<Rightarrow> sys \<Rightarrow> sys outcome" where
  "dispatch_ready sem env s =
     obind (eloop_sock_table_dispatch sem Readers (ev_rfds env) s) (\<lambda>s1.
     obind (eloop_sock_table_dispatch sem Writers (ev_wfds env) s1)
           (eloop_sock_table_dispatch sem Exceptions (ev_efds env)))"

definition eloop_iteration ::
    "handlers \<Rightarrow> loop_env \<Rightarrow> int \<Rightarrow> os_time \<Rightarrow> sys \<Rightarrow> (sys step_result) outcome" where
  "eloop_iteration sem env t0 time0 s =
     (let s1 = after_select env (before_select env t0 time0 s)
      in if ev_res env < 0 \<and> ev_errno env \<noteq> EINTR \<and> ev_errno env \<noteq> 0 then Done (Quit s1)
         else obind (eloop_process_pending_signals (ev_fuel env) sem s1) (\<lambda>s2.
              obind (fire_timeout sem (ev_now2 env) s2) (\<lambda>s3.
                if ev_res env \<le> 0 then Done (Again s3)
                else obind (dispatch_ready sem env s3) (\<lambda>s4. Done (Again s4)))))"

definition eloop_active :: "sys \<Rightarrow> bool" where
  "eloop_active s \<longleftrightarrow>
     el_tmp_terminate (sy_eloop s) = 0 \<and> \<not> el_terminate (sy_eloop s) \<and>
     (el_timeout (sy_eloop s) \<noteq> [] \<or> rows Readers s \<noteq> [] \<or> rows Writers s \<noteq> [] \<or> rows Exceptions s \<noteq> [])"

fun eloop_loop :: "handlers \<Rightarrow> loop_env list \<Rightarrow> int \<Rightarrow> os_time \<Rightarrow> sys \<Rightarrow> sys outcome" where
  "eloop_loop sem [] t0 time0 s = (if eloop_active s then OutOfFuel else Done s)"
| "eloop_loop sem (env # envs) t0 time0 s =
     (if eloop_active s then
        obind (eloop_iteration sem env t0 time0 s)
          (\<lambda>r. case r of Quit s' \<Rightarrow> Done s'
                        | Again s' \<Rightarrow> eloop_loop sem envs (ev_t2 env) (ev_time2 env) s')
      else Done s)"

text \<open>
  \<open>eloop_run\<close>: \<open>fds_ok\<close> tells whether the three \<open>os_malloc\<close> calls for the descriptor sets succeed;
  \<open>t0\<close> and \<open>time0\<close> are the first readings of \<open>times()\<close> and of the clock.
\<close>

definition eloop_run :: "handlers \<Rightarrow> bool \<Rightarrow> loop_env list \<Rightarrow> int \<Rightarrow> os_time \<Rightarrow> sys \<Rightarrow> sys outcome" where
  "eloop_run sem fds_ok envs t0 time0 s =
     (let s1 = s\<lparr>sy_threads := snd (new_thread_except_context (sy_tid s) (sy_threads s))\<rparr>
      in obind (if fds_ok then eloop_loop sem envs t0 time0 s1 else Done s1)
           (\<lambda>s2. Done (s2\<lparr>sy_threads := freestate (sy_tid s2) (sy_threads s2)\<rparr>)))"

text \<open>\<open>eloop_destroy\<close> frees the nodes and the tables and leaves the pointers to them.\<close>

definition eloop_destroy :: "sys \<Rightarrow> sys" where
  "eloop_destroy s = fold heap_free (map to_id (el_timeout (sy_eloop s))) s"

section \<open>Lemmas: calls of handlers\<close>

lemma note_trace_simps [simp]:
  "sy_eloop (note_trace ev s) = sy_eloop s" "sy_heap (note_trace ev s) = sy_heap s"
  "sy_bad_free (note_trace ev s) = sy_bad_free s" "sy_wdt (note_trace ev s) = sy_wdt s"
  "sy_alarm (note_trace ev s) = sy_alarm s" "sy_installed (note_trace ev s) = sy_installed s"
  "sy_threads (note_trace ev s) = sy_threads s" "sy_tid (note_trace ev s) = sy_tid s"
  "sy_trace (note_trace ev s) = sy_trace s @ [ev]"
  by (simp_all add: note_trace_def)

text \<open>
  The state a handler's calls start in, and the state after a callback that returns.
\<close>

definition entered :: "callback \<Rightarrow> int option \<Rightarrow> sys \<Rightarrow> sys" where
  "entered cb mon s = note_trace (Called cb) (case mon of None \<Rightarrow> s | Some ty \<Rightarrow> SetPendingMonitor ty s)"

lemma entered_simps [simp]:
  "sy_eloop (entered cb mon s) = sy_eloop s" "sy_heap (entered cb mon s) = sy_heap s"
  "sy_bad_free (entered cb mon s) = sy_bad_free s" "sy_alarm (entered cb mon s) = sy_alarm s"
  "sy_wdt (entered cb mon s) = sy_wdt s" "sy_installed (entered cb mon s) = sy_installed s"
  "sy_threads (entered cb mon s) = sy_threads s" "sy_tid (entered cb mon s) = sy_tid s"
  "sy_trace (entered cb mon s) = sy_trace s @ [Called cb]"
  by (simp_all add: entered_def split: option.split)

definition left :: "int option \<Rightarrow> sys \<Rightarrow> sys" where
  "left mon s = (case mon of None \<Rightarrow> s | Some ty \<Rightarrow> ClrPendingMonitor ty s)"

lemma left_simps [simp]:
  "sy_eloop (left mon s) = sy_eloop s" "sy_heap (left mon s) = sy_heap s"
  "sy_bad_free (left mon s) = sy_bad_free s" "sy_alarm (left mon s) = sy_alarm s"
  "sy_wdt (left mon s) = sy_wdt s" "sy_installed (left mon s) = sy_installed s"
  "sy_threads (left mon s) = sy_threads s" "sy_tid (left mon s) = sy_tid s"
  "sy_trace (left mon s) = sy_trace s"
  by (simp_all add: left_def split: option.split)

lemma protected_call_eq:
  "protected_call sem cb mon s =
     (if findstate (sy_tid s) (sy_threads s) = None then Crash
      else if snd (sem cb (entered cb mon s)) \<noteq> None then ExitProcess (-99)
      else Done (left mon (fold api_exec (fst (sem cb (entered cb mon s))) (entered cb mon s))))"
  by (auto simp: protected_call_def entered_def left_def Let_def split_def split: option.split)

lemma protected_call_Done:
  "protected_call sem cb mon s = Done s' \<Longrightarrow>
   s' = left mon (fold api_exec (fst (sem cb (entered cb mon s))) (entered cb mon s))"
  by (simp add: protected_call_eq split: if_splits)

lemma protected_call_threads:
  assumes "findstate (sy_tid s) (sy_threads s) \<noteq> None"
  shows "protected_call sem cb mon s \<noteq> Crash"
    and "protected_call sem cb mon s \<noteq> OutOfFuel"
  using assms by (simp_all add: protected_call_eq)

lemmas call_defs = call_eloop_sock_handler_def call_eloop_signal_handler_def
  call_eloop_timeout_handler_def call_eloop_event_handler_def

text \<open>A handler respects the environment when every call it makes does.\<close>

definition sem_ok :: "handlers \<Rightarrow> bool" where
  "sem_ok sem \<longleftrightarrow> (\<forall>cb s. script_ok (fst (sem cb s)) s)"

end
