(* ===== verification/Eloop_Invariant.thy ===== *)
theory Eloop_Invariant
  imports Eloop_Run
begin

text \<open>
  What a property of the state must satisfy to survive \<open>eloop_run\<close>, as an interface with one law
  per step of the loop, and its instances: the memory, descriptor, alarm and signal invariants;
  the presence of the thread's exception context, so no callback crashes; the order of the
  timeouts, when the clock does not jump.
\<close>

section \<open>The interface\<close>

definition clear_changed :: "table_id \<Rightarrow> sys \<Rightarrow> sys" where
  "clear_changed ty s = upd_el (\<lambda>e. put_table ty ((get_table ty e)\<lparr>st_changed := False\<rparr>) e) s"

definition clear_signal :: "nat \<Rightarrow> sys \<Rightarrow> sys" where
  "clear_signal i s =
     upd_el (\<lambda>e. e\<lparr>el_signals :=
       (el_signals e)[i := (el_signals (sy_eloop s) ! i)\<lparr>sg_signaled := 0\<rparr>]\<rparr>) s"

fun env_chain :: "(loop_env \<Rightarrow> int \<Rightarrow> os_time \<Rightarrow> bool) \<Rightarrow> int \<Rightarrow> os_time \<Rightarrow> loop_env list \<Rightarrow> bool" where
  "env_chain P t0 time0 [] = True"
| "env_chain P t0 time0 (e # es) = (P e t0 time0 \<and> env_chain P (ev_t2 e) (ev_time2 e) es)"

fun result_state :: "'s step_result \<Rightarrow> 's" where
  "result_state (Quit s) = s"
| "result_state (Again s) = s"

locale loop_invariant =
  fixes good :: "handlers \<Rightarrow> bool"
    and env_good :: "loop_env \<Rightarrow> int \<Rightarrow> os_time \<Rightarrow> bool"
    and crash_ok :: bool
    and invar :: "ptr multiset \<Rightarrow> sys \<Rightarrow> bool"
  assumes call_keeps:
      "good sem \<Longrightarrow> invar X s \<Longrightarrow> outcome_sat crash_ok (invar X) (protected_call sem cb mon s)"
    and changed_keeps: "invar X s \<Longrightarrow> invar X (clear_changed ty s)"
    and signal_keeps: "invar X s \<Longrightarrow> i < length (el_signals (sy_eloop s)) \<Longrightarrow> invar X (clear_signal i s)"
    and ack_keeps: "invar X s \<Longrightarrow> invar X (ack_signals s)"
    and pop_keeps: "invar X s \<Longrightarrow> el_timeout (sy_eloop s) = t # ts \<Longrightarrow>
      invar (add_mset (to_id t) X) (upd_el (\<lambda>e. e\<lparr>el_timeout := ts\<rparr>) s)"
    and free_keeps: "invar (add_mset p X) s \<Longrightarrow> invar X (heap_free p s)"
    and select_keeps: "env_good env t0 time0 \<Longrightarrow> invar X s \<Longrightarrow>
      invar X (after_select env (before_select env t0 time0 s))"
begin

lemma dispatch_from_keeps:
  assumes "good sem"
  shows "invar X s \<Longrightarrow> outcome_sat crash_ok (invar X) (dispatch_from n sem ty fds i s)"
proof (induction n arbitrary: i s)
  case 0
  then show ?case by simp
next
  case (Suc n)
  have "outcome_sat crash_ok (invar X) (call_eloop_sock_handler sem h sock ed ud s)" for h sock ed ud
    unfolding call_defs using assms Suc.prems by (rule call_keeps)
  with Suc show ?case by (auto simp: Let_def intro!: outcome_sat_obind [where P = "invar X"])
qed

lemma dispatch_keeps:
  "good sem \<Longrightarrow> invar X s \<Longrightarrow> outcome_sat crash_ok (invar X) (eloop_sock_table_dispatch sem ty fds s)"
  using changed_keeps
  by (simp add: eloop_sock_table_dispatch_def dispatch_from_keeps clear_changed_def del: dispatch_from.simps)

lemma signals_from_keeps:
  assumes "good sem"
  shows "invar X s \<Longrightarrow> outcome_sat crash_ok (invar X) (signals_from n sem i s)"
proof (induction n arbitrary: i s)
  case 0
  then show ?case by simp
next
  case (Suc n)
  show ?case
  proof (cases "i < length (el_signals (sy_eloop s)) \<and> sg_signaled (el_signals (sy_eloop s) ! i) \<noteq> 0")
    case True
    then have "invar X (clear_signal i s)" using Suc.prems signal_keeps by blast
    with assms have "outcome_sat crash_ok (invar X)
        (call_eloop_signal_handler sem h sig ed ud (clear_signal i s))" for h sig ed ud
      unfolding call_defs by (rule call_keeps)
    with True Suc show ?thesis
      by (auto simp: Let_def clear_signal_def intro!: outcome_sat_obind [where P = "invar X"])
  next
    case False
    with Suc show ?thesis by (auto simp: Let_def)
  qed
qed

lemma process_pending_keeps:
  "good sem \<Longrightarrow> invar X s \<Longrightarrow> outcome_sat crash_ok (invar X) (eloop_process_pending_signals fuel sem s)"
  by (simp add: eloop_process_pending_signals_def signals_from_keeps ack_keeps)

lemma fire_timeout_keeps:
  assumes "good sem" and "invar X s"
  shows "outcome_sat crash_ok (invar X) (fire_timeout sem now s)"
proof (cases "el_timeout (sy_eloop s)")
  case Nil
  with assms show ?thesis by (simp add: fire_timeout_def)
next
  case (Cons t ts)
  let ?s1 = "upd_el (\<lambda>e. e\<lparr>el_timeout := ts\<rparr>) s"
  have "outcome_sat crash_ok (invar (add_mset (to_id t) X)) (call_eloop_timeout_handler sem h ed ud ?s1)" for h ed ud
    unfolding call_defs using assms(1) pop_keeps [OF assms(2) Cons] by (rule call_keeps)
  then have "outcome_sat crash_ok (invar X)
      (obind (call_eloop_timeout_handler sem h ed ud ?s1) (\<lambda>s'. Done (heap_free (to_id t) s')))" for h ed ud
    by (rule outcome_sat_obind) (simp add: free_keeps)
  with assms(2) show ?thesis by (simp add: fire_timeout_def Cons)
qed

lemma dispatch_ready_keeps:
  assumes "good sem" and "invar X s"
  shows "outcome_sat crash_ok (invar X) (dispatch_ready sem env s)"
  unfolding dispatch_ready_def
  using assms dispatch_keeps by (intro outcome_sat_obind [where P = "invar X"]) blast+

lemma iteration_keeps:
  assumes "good sem" and "env_good env t0 time0" and "invar X s"
  shows "outcome_sat crash_ok (\<lambda>r. invar X (result_state r)) (eloop_iteration sem env t0 time0 s)"
proof -
  have S: "invar X (after_select env (before_select env t0 time0 s))" using assms(2,3) by (rule select_keeps)
  have "outcome_sat crash_ok (\<lambda>r. invar X (result_state r))
     (obind (eloop_process_pending_signals (ev_fuel env) sem (after_select env (before_select env t0 time0 s))) (\<lambda>s2.
        obind (fire_timeout sem (ev_now2 env) s2) (\<lambda>s3.
          if ev_res env \<le> 0 then Done (Again s3)
          else obind (dispatch_ready sem env s3) (\<lambda>s4. Done (Again s4)))))"
    using assms(1)
    by (auto intro!: outcome_sat_obind [OF process_pending_keeps [OF assms(1) S]]
        outcome_sat_obind [OF fire_timeout_keeps] outcome_sat_obind [OF dispatch_ready_keeps])
  with S show ?thesis by (simp add: eloop_iteration_def Let_def)
qed

lemma loop_keeps:
  assumes "good sem"
  shows "env_chain env_good t0 time0 envs \<Longrightarrow> invar X s \<Longrightarrow>
    outcome_sat crash_ok (invar X) (eloop_loop sem envs t0 time0 s)"
proof (induction envs arbitrary: t0 time0 s)
  case Nil
  then show ?case by simp
next
  case (Cons env envs)
  have "outcome_sat crash_ok (invar X) (case r of Quit s' \<Rightarrow> Done s'
          | Again s' \<Rightarrow> eloop_loop sem envs (ev_t2 env) (ev_time2 env) s')"
    if "invar X (result_state r)" for r
    using that Cons by (cases r) simp_all
  then have "outcome_sat crash_ok (invar X) (obind (eloop_iteration sem env t0 time0 s)
      (\<lambda>r. case r of Quit s' \<Rightarrow> Done s'
                    | Again s' \<Rightarrow> eloop_loop sem envs (ev_t2 env) (ev_time2 env) s'))"
    using Cons.prems by (auto intro!: outcome_sat_obind [OF iteration_keeps [OF assms]])
  with Cons.prems show ?case by simp
qed

end

section \<open>Memory, descriptors, alarm and signals\<close>

lemma run_inv_cong:
  "sy_eloop s' = sy_eloop s \<Longrightarrow> sy_heap s' = sy_heap s \<Longrightarrow> sy_bad_free s' = sy_bad_free s \<Longrightarrow>
   sy_alarm s' = sy_alarm s \<Longrightarrow> sy_installed s' = sy_installed s \<Longrightarrow>
   selects_ok s' = selects_ok s \<Longrightarrow> run_inv X s' = run_inv X s"
  by (simp add: run_inv_def heap_inv_def max_sock_ok_def all_socks_def alarm_ok_def signals_ok_def)

lemmas run_inv_unfold = run_inv_def heap_inv_def max_sock_ok_def all_socks_def alarm_ok_def
  signals_ok_def selects_ok_def

lemma protected_call_inv:
  assumes "sem_ok sem" and "run_inv X s"
  shows "outcome_sat True (run_inv X) (protected_call sem cb mon s)"
proof (cases "protected_call sem cb mon s")
  case (Done s')
  let ?e = "entered cb mon s"
  have "run_inv X ?e" using assms(2) by (subst run_inv_cong [of _ s]) (simp_all add: selects_ok_def)
  then have "run_inv X (fold api_exec (fst (sem cb ?e)) ?e)"
    using assms(1) by (intro run_inv_script) (simp_all add: sem_ok_def)
  then have "run_inv X s'"
    unfolding protected_call_Done [OF Done] by (subst run_inv_cong) (simp_all add: selects_ok_def)
  with Done show ?thesis by simp
qed simp_all

lemma run_inv_changed: "run_inv X s \<Longrightarrow> run_inv X (clear_changed ty s)"
  by (cases ty) (simp_all add: run_inv_unfold clear_changed_def)

lemma run_inv_clear_signal:
  assumes "run_inv X s" and "i < length (el_signals (sy_eloop s))"
  shows "run_inv X (clear_signal i s)"
proof -
  let ?l = "(el_signals (sy_eloop s))[i := (el_signals (sy_eloop s) ! i)\<lparr>sg_signaled := 0\<rparr>]"
  have "map sg_sig ?l = map sg_sig (el_signals (sy_eloop s))"
    using assms(2) by (simp add: map_update) (metis length_map list_update_id nth_map)
  then have "sg_sig ` set ?l = sg_sig ` set (el_signals (sy_eloop s))" by (metis set_map)
  moreover have "\<forall>r \<in> set ?l. 0 \<le> sg_signaled r"
    using assms set_update_subset_insert [of "el_signals (sy_eloop s)" i] by (fastforce simp: run_inv_def signals_ok_def)
  ultimately show ?thesis using assms(1) by (simp add: run_inv_unfold clear_signal_def)
qed

lemma run_inv_ack: "run_inv X s \<Longrightarrow> run_inv X (ack_signals s)"
  by (auto simp: run_inv_unfold ack_signals_def Let_def)

lemma run_inv_pop:
  "run_inv X s \<Longrightarrow> el_timeout (sy_eloop s) = t # ts \<Longrightarrow>
   run_inv (add_mset (to_id t) X) (upd_el (\<lambda>e. e\<lparr>el_timeout := ts\<rparr>) s)"
  by (simp add: run_inv_unfold)

lemma run_inv_free:
  assumes "run_inv (add_mset p X) s"
  shows "run_inv X (heap_free p s)"
proof -
  have m: "add_mset p (mset (map to_id (el_timeout (sy_eloop s))) + X) = mset (sy_heap s)"
    using assms by (simp add: run_inv_def heap_inv_def)
  then have mem: "p \<in> set (sy_heap s)" by (metis set_mset_mset union_single_eq_member add_mset_add_single union_commute)
  with assms have nn: "p \<noteq> NULL" by (auto simp: run_inv_def heap_inv_def)
  from m have "mset (map to_id (el_timeout (sy_eloop s))) + X = mset (remove1 p (sy_heap s))"
    by (metis add_mset_remove_trivial mset_remove1)
  moreover have "NULL \<notin> set (remove1 p (sy_heap s))"
    using assms by (auto simp: run_inv_def heap_inv_def dest: notin_set_remove1)
  ultimately show ?thesis
    using assms by (simp add: heap_free_live [OF nn mem] run_inv_unfold)
qed

lemma selects_ok_same: "same_but_wdt s s' \<Longrightarrow> selects_ok s' = selects_ok s"
  by (simp add: selects_ok_def same_but_wdtD)

lemma run_inv_timeChange: "run_inv X (eloop_timeChange0 newt cur s) = run_inv X s"
  using max_sock_ok_same [OF same_but_wdt_timeChange] alarm_ok_same [OF same_but_wdt_timeChange]
    signals_ok_same [OF same_but_wdt_timeChange] selects_ok_same [OF same_but_wdt_timeChange]
  by (simp add: run_inv_def heap_inv_timeChange)

lemma run_inv_signals: "run_inv X s \<Longrightarrow> run_inv X (fold eloop_handle_signal sigs s)"
proof (induction sigs arbitrary: s)
  case Nil
  then show ?case by simp
next
  case (Cons sig sigs)
  have "run_inv X (api_exec (ASignal sig) s)" using Cons.prems by (rule run_steps.step_keeps) simp
  with Cons.IH show ?case by simp
qed

lemma select_event_ok: "max_sock_ok s \<Longrightarrow> select_ok (select_event now s)"
  by (fastforce simp: select_event_def set_fds_rows max_sock_ok_def all_socks_def)

lemma run_inv_select: "run_inv X s \<Longrightarrow> run_inv X (note_trace (select_event now s) s)"
  using select_event_ok by (simp add: run_inv_unfold select_event_ok)

lemma run_inv_around_select:
  "run_inv X s \<Longrightarrow> run_inv X (after_select env (before_select env t0 time0 s))"
  by (simp add: before_select_def after_select_def eloop_timeChangeAuto_def Let_def run_inv_timeChange
      run_inv_signals run_inv_select)

interpretation mem: loop_invariant sem_ok "\<lambda>_ _ _. True" True run_inv
  by unfold_locales
    (simp_all add: protected_call_inv run_inv_changed run_inv_clear_signal run_inv_ack run_inv_pop
      run_inv_free run_inv_around_select)

lemma env_chain_True [simp]: "env_chain (\<lambda>_ _ _. True) t0 time0 envs"
  by (induction envs arbitrary: t0 time0) simp_all

lemma eloop_run_inv:
  assumes "sem_ok sem" and "run_inv {#} s"
  shows "outcome_sat True (run_inv {#}) (eloop_run sem ok envs t0 time0 s)"
proof -
  let ?s1 = "s\<lparr>sy_threads := snd (new_thread_except_context (sy_tid s) (sy_threads s))\<rparr>"
  have "run_inv {#} ?s1" using assms(2) by (subst run_inv_cong [of _ s]) (simp_all add: selects_ok_def)
  then have "outcome_sat True (run_inv {#}) (if ok then eloop_loop sem envs t0 time0 ?s1 else Done ?s1)"
    using mem.loop_keeps [OF assms(1)] by simp
  then show ?thesis
    unfolding eloop_run_def Let_def
    by (rule outcome_sat_obind) (simp, subst run_inv_cong, simp_all add: selects_ok_def)
qed

section \<open>The exception context\<close>

definition has_context :: "ptr multiset \<Rightarrow> sys \<Rightarrow> bool" where
  "has_context X s \<longleftrightarrow> findstate (sy_tid s) (sy_threads s) \<noteq> None"

lemma has_context_call:
  "has_context X s \<Longrightarrow> outcome_sat False (has_context X) (protected_call sem cb mon s)"
  by (simp add: protected_call_eq has_context_def)

lemma signals_threads [simp]:
  "sy_threads (fold eloop_handle_signal sigs s) = sy_threads s"
  "sy_tid (fold eloop_handle_signal sigs s) = sy_tid s"
  by (induction sigs arbitrary: s) simp_all

lemma has_context_select:
  "has_context X s \<Longrightarrow> has_context X (after_select env (before_select env t0 time0 s))"
  by (simp add: has_context_def before_select_def after_select_def eloop_timeChangeAuto_def Let_def
      same_but_wdtD [OF same_but_wdt_timeChange])

interpretation ctx: loop_invariant "\<lambda>_. True" "\<lambda>_ _ _. True" False has_context
proof unfold_locales
  show "has_context X (ack_signals s)" if "has_context X s" for X s
    using that by (simp add: has_context_def ack_signals_def Let_def)
qed (simp_all add: has_context_call has_context_select, simp_all add: has_context_def clear_changed_def
    clear_signal_def)

section \<open>The order of the timeouts\<close>

text \<open>
  An iteration is calm when neither time check around \<open>pselect\<close> sees a jump of more than
  0.9 seconds, the threshold of \<open>eloop_timeUpdate\<close>.
\<close>

definition no_jump :: "os_time \<Rightarrow> os_time \<Rightarrow> bool" where
  "no_jump newt cur \<longleftrightarrow>
     normal_time newt \<and> normal_time cur \<and> \<bar>us_of newt - us_of cur\<bar> \<le> 900000"

definition calm :: "loop_env \<Rightarrow> int \<Rightarrow> os_time \<Rightarrow> bool" where
  "calm env t0 time0 \<longleftrightarrow>
     no_jump (ev_time1 env) (expected_time (ev_t1 env) t0 time0) \<and>
     no_jump (ev_time2 env) (expected_time (ev_t2 env) (ev_t1 env) (ev_time1 env))"

lemma small_time:
  assumes "normal_time d" and "0 \<le> us_of d" and "us_of d \<le> 900000"
  shows "sec d \<le> 0 \<and> usec d \<le> 900000"
proof -
  note D = assms [unfolded us_of_def normal_time_def]
  have "sec d \<le> 0" and "0 \<le> sec d" using D by linarith+
  then have "sec d = 0" by simp
  with D show ?thesis by simp
qed

lemma no_jump_timeChange:
  assumes "no_jump newt cur"
  shows "eloop_timeChange0 newt cur s = s"
proof -
  have N: "normal_time newt" "normal_time cur" "\<bar>us_of newt - us_of cur\<bar> \<le> 900000"
    using assms by (simp_all add: no_jump_def)
  have A: "sec (SubTime newt cur) \<le> 0 \<and> usec (SubTime newt cur) \<le> 900000" if "0 \<le> us_of newt - us_of cur"
    using that N by (intro small_time) (simp_all add: SubTime_normal)
  have B: "sec (SubTime cur newt) \<le> 0 \<and> usec (SubTime cur newt) \<le> 900000" if "us_of newt - us_of cur \<le> 0"
    using that N by (intro small_time) (simp_all add: SubTime_normal)
  show ?thesis
    using A B by (auto simp: eloop_timeChange0_def eloop_timeUpdate_def Let_def CmpTime_sgn [OF N(1,2)] sgn_if)
qed

lemma signals_timeouts [simp]:
  "el_timeout (sy_eloop (fold eloop_handle_signal sigs s)) = el_timeout (sy_eloop s)"
  by (induction sigs arbitrary: s) simp_all

lemma calm_select:
  "calm env t0 time0 \<Longrightarrow> el_timeout (sy_eloop (after_select env (before_select env t0 time0 s))) = el_timeout (sy_eloop s)"
  by (simp add: calm_def after_select_def before_select_def eloop_timeChangeAuto_def no_jump_timeChange)

definition sorted_any :: "ptr multiset \<Rightarrow> sys \<Rightarrow> bool" where
  "sorted_any X s \<longleftrightarrow> sorted_ok s"

lemma sorted_any_eq: "sorted_any X = sorted_ok"
  by (simp add: sorted_any_def fun_eq_iff)

lemma sorted_call:
  assumes "sem_ok sem" and "sorted_ok s"
  shows "outcome_sat True sorted_ok (protected_call sem cb mon s)"
proof (cases "protected_call sem cb mon s")
  case (Done s')
  let ?e = "entered cb mon s"
  have "sorted_ok (fold api_exec (fst (sem cb ?e)) ?e)"
    using assms by (intro sorted_ok_script) (simp_all add: sem_ok_def sorted_ok_def)
  with Done show ?thesis unfolding protected_call_Done [OF Done] by (simp add: sorted_ok_def)
qed simp_all

interpretation order: loop_invariant sem_ok calm True sorted_any
proof unfold_locales
  show "outcome_sat True (sorted_any X) (protected_call sem cb mon s)"
    if "sem_ok sem" "sorted_any X s" for sem X s cb mon
    using that sorted_call by (simp add: sorted_any_eq)
  show "sorted_any X (clear_changed ty s)" if "sorted_any X s" for X ty s
    using that by (simp add: sorted_any_def sorted_ok_def clear_changed_def)
  show "sorted_any X (clear_signal i s)" if "sorted_any X s" for X i s
    using that by (simp add: sorted_any_def sorted_ok_def clear_signal_def)
  show "sorted_any X (ack_signals s)" if "sorted_any X s" for X s
    using that by (simp add: sorted_any_def sorted_ok_def ack_signals_def Let_def)
  show "sorted_any (add_mset (to_id t) X) (upd_el (\<lambda>e. e\<lparr>el_timeout := ts\<rparr>) s)"
    if "sorted_any X s" "el_timeout (sy_eloop s) = t # ts" for X s t ts
    using that by (simp add: sorted_any_def sorted_ok_def timeouts_sorted_tl)
  show "sorted_any X (heap_free p s)" if "sorted_any (add_mset p X) s" for X s p
    using that by (simp add: sorted_any_def sorted_ok_def)
  show "sorted_any X (after_select env (before_select env t0 time0 s))"
    if "calm env t0 time0" "sorted_any X s" for env t0 time0 X s
    using that by (simp add: sorted_any_def sorted_ok_def calm_select)
qed

section \<open>Destruction\<close>

text \<open>Freeing every node of the list empties the heap.\<close>

lemma free_all:
  "mset ids = mset (sy_heap s) \<Longrightarrow> NULL \<notin> set (sy_heap s) \<Longrightarrow> \<not> sy_bad_free s \<Longrightarrow>
   sy_heap (fold heap_free ids s) = [] \<and> \<not> sy_bad_free (fold heap_free ids s)"
proof (induction ids arbitrary: s)
  case Nil
  then show ?case by simp
next
  case (Cons p ids)
  have mem: "p \<in> set (sy_heap s)" using Cons.prems(1) by (metis list.set_intros(1) set_mset_mset)
  with Cons.prems(2) have "p \<noteq> NULL" by auto
  then have f: "heap_free p s = s\<lparr>sy_heap := remove1 p (sy_heap s)\<rparr>" using mem by (rule heap_free_live)
  have "mset ids = mset (remove1 p (sy_heap s))"
    using Cons.prems(1) by (metis add_mset_remove_trivial mset.simps(2) mset_remove1)
  moreover have "NULL \<notin> set (remove1 p (sy_heap s))" using Cons.prems(2) by (auto dest: notin_set_remove1)
  ultimately show ?case using Cons.IH [of "heap_free p s"] Cons.prems(3) by (simp add: f)
qed

lemma destroy_heap:
  "heap_inv {#} s \<Longrightarrow> sy_heap (eloop_destroy s) = [] \<and> \<not> sy_bad_free (eloop_destroy s)"
  by (simp add: heap_inv_def eloop_destroy_def free_all)

end
