(* ===== verification/Eloop_Dispatch.thy ===== *)
theory Eloop_Dispatch
  imports Eloop_Invariant
begin

text \<open>
  Which callbacks the dispatch code of eloop/eloop.c makes, in which order, and that its loops end:
  the trace of \<open>eloop_sock_table_dispatch\<close>, of \<open>eloop_process_pending_signals\<close> and of the
  timeout block.
\<close>

section \<open>Sockets\<close>

definition sock_call :: "eloop_sock \<Rightarrow> trace_event" where
  "sock_call r = Called (SockCb (so_handler r) (so_sock r) (so_eloop_data r) (so_user_data r))"

definition ready_rows :: "int list \<Rightarrow> eloop_sock list \<Rightarrow> eloop_sock list" where
  "ready_rows fds rs = filter (\<lambda>r. so_sock r \<in> set fds) rs"

lemma call_Done_facts:
  assumes "protected_call sem cb mon s = Done s'"
  shows "sy_trace s' = sy_trace s @ [Called cb]"
    and "\<not> st_changed (get_table ty (sy_eloop s')) \<Longrightarrow> get_table ty (sy_eloop s') = get_table ty (sy_eloop s)"
  using unchanged_script [of ty "fst (sem cb (entered cb mon s))" "entered cb mon s"]
  by (simp_all add: protected_call_Done [OF assms])

lemma dispatch_from_trace:
  "dispatch_from n sem ty fds i s = Done s' \<Longrightarrow> \<not> st_changed (get_table ty (sy_eloop s)) \<Longrightarrow>
   \<exists>k. sy_trace s' = sy_trace s @ map sock_call (take k (ready_rows fds (drop i (rows ty s)))) \<and>
       (st_changed (get_table ty (sy_eloop s')) \<or> k = length (ready_rows fds (drop i (rows ty s))))"
proof (induction n arbitrary: i s)
  case 0
  then show ?case by simp
next
  case (Suc n)
  show ?case
  proof (cases "i < length (rows ty s)")
    case False
    with Suc.prems show ?thesis by (simp add: ready_rows_def)
  next
    case True
    let ?r = "rows ty s ! i"
    have drop: "drop i (rows ty s) = ?r # drop (Suc i) (rows ty s)" using True by (simp add: Cons_nth_drop_Suc)
    show ?thesis
    proof (cases "so_sock ?r \<in> set fds")
      case False
      with True Suc show ?thesis unfolding drop by (simp add: ready_rows_def Let_def)
    next
      case ready: True
      let ?cb = "SockCb (so_handler ?r) (so_sock ?r) (so_eloop_data ?r) (so_user_data ?r)"
      have R: "ready_rows fds (drop i (rows ty s)) = ?r # ready_rows fds (drop (Suc i) (rows ty s))"
        unfolding drop using ready by (simp add: ready_rows_def)
      from Suc.prems(1) True ready obtain s1 where
        call: "protected_call sem ?cb (Some 1) s = Done s1" and
        cont: "(if st_changed (get_table ty (sy_eloop s1)) then Done s1
                else dispatch_from n sem ty fds (Suc i) s1) = Done s'"
        by (auto simp: Let_def call_defs outcome_simps)
      note tr = call_Done_facts(1) [OF call] and tab = call_Done_facts(2) [OF call, of ty]
      show ?thesis
      proof (cases "st_changed (get_table ty (sy_eloop s1))")
        case True
        with cont tr R show ?thesis by (intro exI [of _ 1]) (simp add: sock_call_def)
      next
        case False
        with cont Suc.IH [of "Suc i" s1] tab obtain k where
          k: "sy_trace s' = sy_trace s1 @ map sock_call (take k (ready_rows fds (drop (Suc i) (rows ty s))))"
          "st_changed (get_table ty (sy_eloop s')) \<or> k = length (ready_rows fds (drop (Suc i) (rows ty s)))"
          by auto
        then show ?thesis using tr R by (intro exI [of _ "Suc k"]) (auto simp: sock_call_def)
      qed
    qed
  qed
qed

lemma clear_changed_simps [simp]:
  "rows ty' (clear_changed ty s) = rows ty' s"
  "sy_trace (clear_changed ty s) = sy_trace s"
  "\<not> st_changed (get_table ty (sy_eloop (clear_changed ty s)))"
  by (simp_all add: clear_changed_def)

lemma dispatch_trace:
  assumes "eloop_sock_table_dispatch sem ty fds s = Done s'"
  shows "\<exists>k. sy_trace s' = sy_trace s @ map sock_call (take k (ready_rows fds (rows ty s))) \<and>
             (st_changed (get_table ty (sy_eloop s')) \<or> k = length (ready_rows fds (rows ty s)))"
proof (cases "st_table (get_table ty (sy_eloop s)) = None")
  case True
  with assms show ?thesis by (simp add: eloop_sock_table_dispatch_def ready_rows_def st_rows_def)
next
  case False
  with assms have "dispatch_from (Suc (length (rows ty s))) sem ty fds 0 (clear_changed ty s) = Done s'"
    by (simp add: eloop_sock_table_dispatch_def clear_changed_def)
  from dispatch_from_trace [OF this] show ?thesis by simp
qed

text \<open>The number of rounds given to the loop is enough.\<close>

lemma dispatch_from_fuel:
  "length (rows ty s) - i < n \<Longrightarrow> dispatch_from n sem ty fds i s \<noteq> OutOfFuel"
proof (induction n arbitrary: i s)
  case 0
  then show ?case by simp
next
  case (Suc n)
  show ?case
  proof (cases "i < length (rows ty s)")
    case False
    then show ?thesis by simp
  next
    case True
    have less: "length (rows ty s) - Suc i < n" using True Suc.prems by simp
    have step: "(if st_changed (get_table ty (sy_eloop s')) then Done s'
                 else dispatch_from n sem ty fds (Suc i) s') \<noteq> OutOfFuel"
      if "protected_call sem cb mon s = Done s'" for cb mon s'
      using Suc.IH [of s' "Suc i"] call_Done_facts(2) [OF that, of ty] less by auto
    have "protected_call sem cb mon s \<noteq> OutOfFuel" for cb mon by (simp add: protected_call_eq)
    with True less Suc.IH [of s "Suc i"] step show ?thesis
      by (auto simp: Let_def call_defs outcome_simps split: if_splits)
  qed
qed

lemma dispatch_fuel: "eloop_sock_table_dispatch sem ty fds s \<noteq> OutOfFuel"
  using dispatch_from_fuel [of ty "clear_changed ty s" 0 "Suc (length (rows ty s))" sem fds]
  by (simp add: eloop_sock_table_dispatch_def clear_changed_def del: dispatch_from.simps)

section \<open>Signals\<close>

text \<open>
  Handlers that neither register signals nor run while one arrives: the table is theirs to
  read only.
\<close>

fun signal_free :: "api_call \<Rightarrow> bool" where
  "signal_free (ARegisterSignal ok sig h ud) = False"
| "signal_free (ASignal sig) = False"
| "signal_free _ = True"

definition sem_signal_free :: "handlers \<Rightarrow> bool" where
  "sem_signal_free sem \<longleftrightarrow> (\<forall>cb s. list_all signal_free (fst (sem cb s)))"

lemma signal_free_api:
  "signal_free c \<Longrightarrow> el_signals (sy_eloop (api_exec c s)) = el_signals (sy_eloop s) \<and>
     el_signaled (sy_eloop (api_exec c s)) = el_signaled (sy_eloop s)"
  using same_but_wdtD(5,6) [OF same_but_wdt_register] same_but_wdtD(5,6) [OF same_but_wdt_cancel]
  by (cases c) (auto simp: register_sock_cases)

lemma api_user_data [simp]:
  "el_user_data (sy_eloop (api_exec c s)) = el_user_data (sy_eloop s)"
  using same_but_wdtD(7) [OF same_but_wdt_register] same_but_wdtD(7) [OF same_but_wdt_cancel]
  by (cases c) (auto simp: register_sock_cases eloop_sock_table_add_sock_def Let_def
      eloop_unregister_sock_def eloop_recalc_max_sock_def eloop_sock_table_remove_sock_def
      split: option.split)

lemma script_user_data [simp]:
  "el_user_data (sy_eloop (fold api_exec cs s)) = el_user_data (sy_eloop s)"
  by (induction cs arbitrary: s) simp_all

lemma signal_free_script:
  "list_all signal_free cs \<Longrightarrow>
   el_signals (sy_eloop (fold api_exec cs s)) = el_signals (sy_eloop s) \<and>
   el_signaled (sy_eloop (fold api_exec cs s)) = el_signaled (sy_eloop s)"
  by (induction cs arbitrary: s) (auto simp: signal_free_api)

text \<open>The table never shrinks, and grows only by registration.\<close>

fun registers_signal :: "api_call \<Rightarrow> bool" where
  "registers_signal (ARegisterSignal ok sig h ud) = True"
| "registers_signal _ = False"

lemma length_signals_api:
  "\<not> registers_signal c \<Longrightarrow> length (el_signals (sy_eloop (api_exec c s))) = length (el_signals (sy_eloop s))"
  using same_but_wdtD(5) [OF same_but_wdt_register] same_but_wdtD(5) [OF same_but_wdt_cancel]
  by (cases c) (auto simp: register_sock_cases)

lemma length_signals_script:
  "list_all (\<lambda>c. \<not> registers_signal c) cs \<Longrightarrow>
   length (el_signals (sy_eloop (fold api_exec cs s))) = length (el_signals (sy_eloop s))"
  by (induction cs arbitrary: s) (auto simp: length_signals_api)

lemma signals_from_fuel:
  assumes "\<forall>cb s. list_all (\<lambda>c. \<not> registers_signal c) (fst (sem cb s))"
  shows "length (el_signals (sy_eloop s)) - i < n \<Longrightarrow> signals_from n sem i s \<noteq> OutOfFuel"
proof (induction n arbitrary: i s)
  case 0
  then show ?case by simp
next
  case (Suc n)
  show ?case
  proof (cases "i < length (el_signals (sy_eloop s))")
    case False
    then show ?thesis by simp
  next
    case True
    let ?s1 = "clear_signal i s"
    have less: "length (el_signals (sy_eloop s)) - Suc i < n" using True Suc.prems by simp
    have len: "length (el_signals (sy_eloop s')) = length (el_signals (sy_eloop s))"
      if "protected_call sem cb mon ?s1 = Done s'" for cb mon s'
      using length_signals_script [of "fst (sem cb (entered cb mon ?s1))"] assms
      by (simp add: protected_call_Done [OF that] clear_signal_def)
    have "protected_call sem cb mon ?s1 \<noteq> OutOfFuel" for cb mon by (simp add: protected_call_eq)
    with True less Suc.IH [of _ "Suc i"] len show ?thesis
      by (auto simp: Let_def call_defs outcome_simps clear_signal_def)
  qed
qed

definition sig_call :: "ptr \<Rightarrow> eloop_signal \<Rightarrow> trace_event" where
  "sig_call ctx r = Called (SignalCb (sg_handler r) (sg_sig r) ctx (sg_user_data r))"

definition pending_rows :: "eloop_signal list \<Rightarrow> eloop_signal list" where
  "pending_rows rs = filter (\<lambda>r. sg_signaled r \<noteq> 0) rs"

definition acked :: "eloop_signal list \<Rightarrow> eloop_signal list" where
  "acked rs = map (\<lambda>r. r\<lparr>sg_signaled := 0\<rparr>) rs"

lemma signals_from_trace:
  assumes "sem_signal_free sem"
  shows "signals_from n sem i s = Done s' \<Longrightarrow>
    sy_trace s' = sy_trace s @ map (sig_call (el_user_data (sy_eloop s)))
                                 (pending_rows (drop i (el_signals (sy_eloop s)))) \<and>
    el_signals (sy_eloop s') = take i (el_signals (sy_eloop s)) @ acked (drop i (el_signals (sy_eloop s)))"
proof (induction n arbitrary: i s)
  case 0
  then show ?case by simp
next
  case (Suc n)
  let ?l = "el_signals (sy_eloop s)"
  show ?case
  proof (cases "i < length ?l")
    case False
    with Suc.prems show ?thesis by (simp add: pending_rows_def acked_def)
  next
    case True
    let ?r = "?l ! i"
    have drop: "drop i ?l = ?r # drop (Suc i) ?l" using True by (simp add: Cons_nth_drop_Suc)
    have take: "take (Suc i) ?l = take i ?l @ [?r]" using True by (simp add: take_Suc_conv_app_nth)
    show ?thesis
    proof (cases "sg_signaled ?r = 0")
      case z: True
      then have "?r\<lparr>sg_signaled := 0\<rparr> = ?r" by simp
      with z True Suc.IH [of "Suc i" s] Suc.prems show ?thesis
        unfolding drop by (simp add: take pending_rows_def acked_def Let_def)
    next
      case False
      let ?s1 = "clear_signal i s"
      let ?cb = "SignalCb (sg_handler ?r) (sg_sig ?r) (el_user_data (sy_eloop s)) (sg_user_data ?r)"
      let ?mon = "if sg_sig ?r \<noteq> SIGINT \<and> sg_sig ?r \<noteq> SIGTERM then Some 4 else None"
      from Suc.prems True False obtain s2 where
        call: "protected_call sem ?cb ?mon ?s1 = Done s2" and cont: "signals_from n sem (Suc i) s2 = Done s'"
        by (auto simp: Let_def call_defs outcome_simps clear_signal_def)
      have sf: "list_all signal_free (fst (sem ?cb (entered ?cb ?mon ?s1)))"
        using assms by (simp add: sem_signal_free_def)
      have l2: "el_signals (sy_eloop s2) = ?l[i := ?r\<lparr>sg_signaled := 0\<rparr>]"
        using signal_free_script [OF sf] by (simp add: protected_call_Done [OF call] clear_signal_def)
      have u2: "el_user_data (sy_eloop s2) = el_user_data (sy_eloop s)"
        by (simp add: protected_call_Done [OF call] clear_signal_def)
      have t2: "sy_trace s2 = sy_trace s @ [Called ?cb]"
        using call_Done_facts(1) [OF call] by (simp add: clear_signal_def)
      have tk: "take (Suc i) (el_signals (sy_eloop s2)) = take i ?l @ [?r\<lparr>sg_signaled := 0\<rparr>]"
        unfolding l2 using True by (simp add: take_Suc_conv_app_nth)
      have dr: "drop (Suc i) (el_signals (sy_eloop s2)) = drop (Suc i) ?l" unfolding l2 by simp
      from Suc.IH [OF cont] show ?thesis
        unfolding drop tk dr u2 t2 using False by (simp add: pending_rows_def acked_def sig_call_def)
    qed
  qed
qed

lemma ack_signals_simps [simp]:
  "el_signals (sy_eloop (ack_signals s)) = el_signals (sy_eloop s)"
  "el_user_data (sy_eloop (ack_signals s)) = el_user_data (sy_eloop s)"
  "sy_trace (ack_signals s) = sy_trace s"
  "el_signaled (sy_eloop (ack_signals s)) = 0"
  "el_pending_terminate (sy_eloop (ack_signals s)) = False"
  by (simp_all add: ack_signals_def Let_def)

section \<open>Timeouts\<close>

definition timeout_call :: "eloop_timeout \<Rightarrow> trace_event" where
  "timeout_call t = Called (TimeoutCb (to_handler t) (to_eloop_data t) (to_user_data t))"

lemma fire_timeout_trace:
  assumes "fire_timeout sem now s = Done s'"
  shows "sy_trace s' = sy_trace s @
    (case el_timeout (sy_eloop s) of
       [] \<Rightarrow> []
     | t # ts \<Rightarrow> if os_time_before now (to_time t) then [] else [timeout_call t])"
proof (cases "el_timeout (sy_eloop s)")
  case Nil
  with assms show ?thesis by (simp add: fire_timeout_def)
next
  case (Cons t ts)
  show ?thesis
  proof (cases "os_time_before now (to_time t)")
    case True
    with assms Cons show ?thesis by (simp add: fire_timeout_def)
  next
    case False
    with assms Cons obtain s1 where
      "protected_call sem (TimeoutCb (to_handler t) (to_eloop_data t) (to_user_data t)) (Some 2)
         (upd_el (\<lambda>e. e\<lparr>el_timeout := ts\<rparr>) s) = Done s1" and "s' = heap_free (to_id t) s1"
      by (auto simp: fire_timeout_def call_defs outcome_simps)
    with False Cons call_Done_facts(1) show ?thesis by (fastforce simp: timeout_call_def)
  qed
qed

section \<open>One iteration\<close>

fun timeout_event :: "trace_event \<Rightarrow> bool" where
  "timeout_event (Called (TimeoutCb h ed ud)) = True"
| "timeout_event _ = False"

definition timeouts_run :: "sys \<Rightarrow> nat" where
  "timeouts_run s = length (filter timeout_event (sy_trace s))"

lemma sock_call_event [simp]: "filter timeout_event (map sock_call rs) = []"
  by (induction rs) (simp_all add: sock_call_def)

lemma dispatch_timeouts_run:
  "eloop_sock_table_dispatch sem ty fds s = Done s' \<Longrightarrow> timeouts_run s' = timeouts_run s"
  using dispatch_trace by (fastforce simp: timeouts_run_def)

lemma fire_timeouts_run: "fire_timeout sem now s = Done s' \<Longrightarrow> timeouts_run s' \<le> Suc (timeouts_run s)"
  by (auto simp: timeouts_run_def fire_timeout_trace split: list.split)

lemma signals_from_timeouts_run: "signals_from n sem i s = Done s' \<Longrightarrow> timeouts_run s' = timeouts_run s"
proof (induction n arbitrary: i s)
  case 0
  then show ?case by simp
next
  case (Suc n)
  have "timeouts_run s2 = timeouts_run s1" if "protected_call sem (SignalCb h sg c u) mon s1 = Done s2"
    for h sg c u mon s1 s2
    using call_Done_facts(1) [OF that] by (simp add: timeouts_run_def)
  moreover have "timeouts_run (upd_el f s) = timeouts_run s" for f by (simp add: timeouts_run_def)
  ultimately show ?case
    using Suc by (auto simp: Let_def call_defs outcome_simps split: if_splits)
qed

lemma process_pending_timeouts_run:
  "eloop_process_pending_signals fuel sem s = Done s' \<Longrightarrow> timeouts_run s' = timeouts_run s"
  using signals_from_timeouts_run [of fuel sem 0 "ack_signals s" s']
  by (auto simp: eloop_process_pending_signals_def timeouts_run_def split: if_splits)

lemma signals_trace [simp]: "sy_trace (fold eloop_handle_signal sigs s) = sy_trace s"
  by (induction sigs arbitrary: s) simp_all

lemma around_select_trace:
  "sy_trace (after_select env (before_select env t0 time0 s)) =
     sy_trace s @ [select_event (ev_now env) (eloop_timeChangeAuto (ev_t1 env) t0 (ev_time1 env) time0 s)]"
  by (simp add: after_select_def before_select_def eloop_timeChangeAuto_def Let_def
      same_but_wdtD(16) [OF same_but_wdt_timeChange])

lemma iteration_timeouts_run:
  assumes "eloop_iteration sem env t0 time0 s = Done r"
  shows "timeouts_run (result_state r) \<le> Suc (timeouts_run s)"
proof -
  let ?s1 = "after_select env (before_select env t0 time0 s)"
  have 1: "timeouts_run ?s1 = timeouts_run s"
    by (simp add: timeouts_run_def around_select_trace select_event_def)
  show ?thesis
  proof (cases "ev_res env < 0 \<and> ev_errno env \<noteq> EINTR \<and> ev_errno env \<noteq> 0")
    case True
    with assms have "r = Quit ?s1" by (simp add: eloop_iteration_def Let_def)
    with 1 show ?thesis by simp
  next
    case False
    with assms obtain s2 s3 where
      p: "eloop_process_pending_signals (ev_fuel env) sem ?s1 = Done s2" and
      f: "fire_timeout sem (ev_now2 env) s2 = Done s3" and
      d: "(if ev_res env \<le> 0 then Done (Again s3)
           else obind (dispatch_ready sem env s3) (\<lambda>s4. Done (Again s4))) = Done r"
      unfolding eloop_iteration_def Let_def if_not_P [OF False] outcome_simps by blast
    from d have "timeouts_run (result_state r) = timeouts_run s3"
      by (auto simp: dispatch_ready_def outcome_simps dest!: dispatch_timeouts_run split: if_splits)
    with 1 process_pending_timeouts_run [OF p] fire_timeouts_run [OF f] show ?thesis by simp
  qed
qed

end
