(* ===== verification/Eloop_Properties.thy ===== *)
theory Eloop_Properties
  imports Eloop_Dispatch
begin

text \<open>
  The properties of the event loop of eloop/eloop.c, each resting on the lemmas of the component
  theories, with the concrete runs that show their hypotheses can hold.
\<close>

section \<open>A concrete application\<close>

definition idle :: handlers where
  "idle cb s = ([], None)"

text \<open>One timeout of 1 s and one readable socket; a round in which both are due.\<close>

definition demo_calls :: "api_call list" where
  "demo_calls = [ARegisterTimeout 4096 (\<lambda>_. tm 2000000000 0) 1 0 7 8 9 False,
                 ARegisterSock True 5 0 70 80 90]"

definition demo_state :: sys where
  "demo_state = fold api_exec demo_calls (snd (eloop_init 1 (boot 77)))"

definition demo_env :: loop_env where
  "demo_env = \<lparr>ev_t1 = 110, ev_time1 = tm 2000000000 100000, ev_now = tm 2000000000 100000,
     ev_sigs = [], ev_res = 1, ev_errno = 0, ev_rfds = [5], ev_wfds = [], ev_efds = [],
     ev_t2 = 220, ev_time2 = tm 2000000001 200000, ev_fuel = 1, ev_now2 = tm 2000000001 200000\<rparr>"

text \<open>A handler that removes its socket, so that the loop ends.\<close>

definition one_shot :: handlers where
  "one_shot cb s = (case cb of SockCb h sock ed ud \<Rightarrow> ([AUnregisterSock sock 0], None) | _ \<Rightarrow> ([], None))"

lemma reached_script:
  "reached tid ud s \<Longrightarrow> script_ok cs s \<Longrightarrow> reached tid ud (fold api_exec cs s)"
  by (induction cs arbitrary: s) (auto intro: reached_call)

lemma demo_reached: "reached 77 1 demo_state"
  unfolding demo_state_def
  by (rule reached_script [OF reached_init])
    (simp add: demo_calls_def malloc_ok_def eloop_init_def boot_def)

lemma sem_ok_one_shot: "sem_ok one_shot"
  by (simp add: sem_ok_def one_shot_def split: callback.split)

lemma reached_threads: "reached tid ud s \<Longrightarrow> sy_threads s = init_except_table \<and> sy_tid s = tid"
  by (induction rule: reached.induct) (simp_all add: eloop_init_def boot_def)

lemma demo_run:
  "map_outcome sy_trace (eloop_run one_shot True [demo_env] 100 (tm 2000000000 0) demo_state) =
     Done [Select 6 [5] [] [] (Some (tm 0 900000)), Called (TimeoutCb 7 8 9), Called (SockCb 70 5 80 90)]"
  by code_simp

lemma demo_outcome:
  obtains s' where "eloop_run one_shot True [demo_env] 100 (tm 2000000000 0) demo_state = Done s'"
    and "sy_trace s' =
      [Select 6 [5] [] [] (Some (tm 0 900000)), Called (TimeoutCb 7 8 9), Called (SockCb 70 5 80 90)]"
  using demo_run by (cases "eloop_run one_shot True [demo_env] 100 (tm 2000000000 0) demo_state") auto

section \<open>Runs\<close>

text \<open>C1. Memory safety of a whole run: an application reaches a state by calls after
  \<open>eloop_init\<close>, runs the loop with handlers that make any calls, and the loop returns; then
  \<open>eloop_destroy\<close> frees every timeout block still live, and no block was ever freed that was
  not live.\<close>

theorem eloop_run_then_destroy_frees_all:
  assumes "reached tid ud s" and "sem_ok sem" and "eloop_run sem fds_ok envs t0 time0 s = Done s'"
  shows "sy_heap (eloop_destroy s') = [] \<and> \<not> sy_bad_free (eloop_destroy s')"
proof -
  have "run_inv {#} s" using reached_inv [OF assms(1)] by blast
  with outcome_satD [OF eloop_run_inv [OF assms(2)] assms(3)] have "heap_inv {#} s'"
    by (simp add: run_inv_def)
  then show ?thesis by (rule destroy_heap)
qed

theorem eloop_run_then_destroy_frees_all_witness:
  "\<exists>s'. eloop_run one_shot True [demo_env] 100 (tm 2000000000 0) demo_state = Done s' \<and>
        sy_heap (eloop_destroy s') = [] \<and> \<not> sy_bad_free (eloop_destroy s')"
proof (rule demo_outcome)
  fix s'
  assume "eloop_run one_shot True [demo_env] 100 (tm 2000000000 0) demo_state = Done s'"
  with eloop_run_then_destroy_frees_all [OF demo_reached sem_ok_one_shot this] show ?thesis by blast
qed

text \<open>C8. In a run from a reachable state every \<open>pselect\<close> is given a bound above every
  descriptor in its three sets, and afterwards \<open>max_sock\<close> still bounds the registered descriptors.\<close>

theorem eloop_run_select_bound:
  assumes "reached tid ud s" and "sem_ok sem" and "eloop_run sem fds_ok envs t0 time0 s = Done s'"
  shows "(\<forall>n r w e tv. Select n r w e tv \<in> set (sy_trace s') \<longrightarrow> (\<forall>fd \<in> set (r @ w @ e). fd < n)) \<and>
         (\<forall>fd \<in> all_socks s'. fd \<le> el_max_sock (sy_eloop s'))"
proof -
  have "run_inv {#} s" using reached_inv [OF assms(1)] by blast
  with outcome_satD [OF eloop_run_inv [OF assms(2)] assms(3)] have "selects_ok s'" "max_sock_ok s'"
    by (simp_all add: run_inv_def)
  then show ?thesis by (fastforce simp: selects_ok_def max_sock_ok_def)
qed

theorem eloop_run_select_bound_witness:
  "\<exists>s'. eloop_run one_shot True [demo_env] 100 (tm 2000000000 0) demo_state = Done s' \<and>
        Select 6 [5] [] [] (Some (tm 0 900000)) \<in> set (sy_trace s') \<and> (\<forall>fd \<in> set [5]. fd < (6 :: int))"
proof (rule demo_outcome)
  fix s'
  assume run: "eloop_run one_shot True [demo_env] 100 (tm 2000000000 0) demo_state = Done s'"
    and tr: "sy_trace s' =
      [Select 6 [5] [] [] (Some (tm 0 900000)), Called (TimeoutCb 7 8 9), Called (SockCb 70 5 80 90)]"
  have "Select 6 [5] [] [] (Some (tm 0 900000)) \<in> set (sy_trace s')" using tr by simp
  with eloop_run_select_bound [OF demo_reached sem_ok_one_shot run] run show ?thesis by fastforce
qed

text \<open>C10. A callback made by a run from a reachable state always finds the exception context of
  its thread: \<open>eloop_run\<close> never dereferences a null context.\<close>

theorem eloop_run_finds_exception_context:
  assumes "reached tid ud s"
  shows "eloop_run sem fds_ok envs t0 time0 s \<noteq> Crash"
proof -
  let ?s1 = "s\<lparr>sy_threads := snd (new_thread_except_context (sy_tid s) (sy_threads s))\<rparr>"
  have "\<exists>t \<in> set (sy_threads s). ts_pid t = 0"
    using reached_threads [OF assms] by (simp add: init_except_table_def MAX_THREAD_def zero_state_def)
  then have "has_context {#} ?s1"
    using new_thread_find [of "sy_threads s" "sy_tid s"] by (auto simp: has_context_def)
  then have "outcome_sat False (has_context {#}) (eloop_loop sem envs t0 time0 ?s1)"
    by (rule ctx.loop_keeps [OF TrueI env_chain_True])
  then have "eloop_loop sem envs t0 time0 ?s1 \<noteq> Crash" by auto
  then show ?thesis by (auto simp: eloop_run_def Let_def outcome_simps)
qed

theorem eloop_run_finds_exception_context_witness:
  "eloop_run one_shot True [demo_env] 100 (tm 2000000000 0) demo_state \<noteq> Crash"
  by (rule eloop_run_finds_exception_context [OF demo_reached])

text \<open>After a run that started in a reachable state the alarm that would kill the process is
  armed exactly when a termination signal is still pending, the counters of signals are
  non-negative, and every registered signal has the handler of the event loop installed.\<close>

lemma eloop_run_signal_state:
  assumes "reached tid ud s" and "sem_ok sem" and "eloop_run sem fds_ok envs t0 time0 s = Done s'"
  shows "(sy_alarm s' \<longleftrightarrow> el_pending_terminate (sy_eloop s')) \<and>
         (\<forall>r \<in> set (el_signals (sy_eloop s')). 0 \<le> sg_signaled r \<and> sg_sig r \<in> set (sy_installed s'))"
proof -
  have "run_inv {#} s" using reached_inv [OF assms(1)] by blast
  with outcome_satD [OF eloop_run_inv [OF assms(2)] assms(3)] have "alarm_ok s'" "signals_ok s'"
    by (simp_all add: run_inv_def)
  then show ?thesis by (auto simp: alarm_ok_def signals_ok_def)
qed

lemma eloop_run_signal_state_witness:
  "\<exists>s'. eloop_run one_shot True [demo_env] 100 (tm 2000000000 0) demo_state = Done s' \<and>
        (sy_alarm s' \<longleftrightarrow> el_pending_terminate (sy_eloop s'))"
proof (rule demo_outcome)
  fix s'
  assume "eloop_run one_shot True [demo_env] 100 (tm 2000000000 0) demo_state = Done s'"
  with eloop_run_signal_state [OF demo_reached sem_ok_one_shot this] show ?thesis by blast
qed


definition calm_env :: loop_env where
  "calm_env = \<lparr>ev_t1 = 110, ev_time1 = tm 2000000000 100000, ev_now = tm 2000000000 100000,
     ev_sigs = [], ev_res = -1, ev_errno = 9, ev_rfds = [], ev_wfds = [], ev_efds = [],
     ev_t2 = 220, ev_time2 = tm 2000000001 200000, ev_fuel = 1, ev_now2 = tm 2000000001 200000\<rparr>"


section \<open>Iterations\<close>

text \<open>C7. The timeout block of an iteration on a list sorted by deadline: when some timeout is due
  it runs the one at the head, whose deadline is the earliest of all and has passed; when none is
  due it does nothing.\<close>

theorem fire_timeout_runs_earliest_due:
  assumes "timeouts_sorted (el_timeout (sy_eloop s))" and "fire_timeout sem now s = Done s'"
  shows "if \<exists>u \<in> set (el_timeout (sy_eloop s)). \<not> os_time_before now (to_time u)
         then \<exists>t ts. el_timeout (sy_eloop s) = t # ts \<and> \<not> os_time_before now (to_time t) \<and>
                (\<forall>u \<in> set ts. \<not> os_time_before (to_time u) (to_time t)) \<and>
                sy_trace s' = sy_trace s @ [timeout_call t]
         else s' = s"
proof (cases "el_timeout (sy_eloop s)")
  case Nil
  with assms(2) show ?thesis by (simp add: fire_timeout_def)
next
  case (Cons t ts)
  have least: "\<forall>u \<in> set ts. \<not> os_time_before (to_time u) (to_time t)"
    using assms(1) Cons by (simp add: timeouts_sorted_def)
  show ?thesis
  proof (cases "os_time_before now (to_time t)")
    case True
    have "os_time_before now (to_time u)" if "u \<in> set (t # ts)" for u
      using that True least os_time_before_weak by (metis set_ConsD)
    moreover have "s' = s" using assms(2) Cons True by (simp add: fire_timeout_def)
    ultimately show ?thesis using Cons by auto
  next
    case False
    with least fire_timeout_trace [OF assms(2)] Cons show ?thesis by auto
  qed
qed

theorem fire_timeout_runs_earliest_due_witness:
  "\<exists>s'. fire_timeout idle (tm 2000000001 0) (demo_state\<lparr>sy_threads := [zero_state\<lparr>ts_pid := 77\<rparr>]\<rparr>) = Done s' \<and>
        sy_trace s' = [Called (TimeoutCb 7 8 9)]"
proof -
  let ?s = "demo_state\<lparr>sy_threads := [zero_state\<lparr>ts_pid := 77\<rparr>]\<rparr>"
  have srt: "timeouts_sorted (el_timeout (sy_eloop ?s))" by code_simp
  have "map_outcome (\<lambda>s. length (sy_trace s)) (fire_timeout idle (tm 2000000001 0) ?s) = Done 1" by code_simp
  then obtain s' where run: "fire_timeout idle (tm 2000000001 0) ?s = Done s'"
    by (cases "fire_timeout idle (tm 2000000001 0) ?s") auto
  have "\<exists>u \<in> set (el_timeout (sy_eloop ?s)). \<not> os_time_before (tm 2000000001 0) (to_time u)" by code_simp
  with fire_timeout_runs_earliest_due [OF srt run] obtain t ts where
    t: "el_timeout (sy_eloop ?s) = t # ts" "sy_trace s' = sy_trace ?s @ [timeout_call t]" by auto
  have "map timeout_call (el_timeout (sy_eloop ?s)) = [Called (TimeoutCb 7 8 9)]" by code_simp
  moreover have "sy_trace ?s = []" by code_simp
  ultimately show ?thesis using run t by auto
qed

text \<open>One iteration of the loop runs at most one timeout handler, whatever the socket and
  signal handlers it also runs do.\<close>

lemma iteration_runs_at_most_one_timeout:
  assumes "eloop_iteration sem env t0 time0 s = Done r"
  shows "length (filter timeout_event (sy_trace (result_state r))) \<le>
         length (filter timeout_event (sy_trace s)) + 1"
  using iteration_timeouts_run [OF assms] by (simp add: timeouts_run_def)

lemma iteration_runs_at_most_one_timeout_witness:
  "\<exists>r. eloop_iteration one_shot calm_env 100 (tm 2000000000 0) demo_state = Done r \<and>
       length (filter timeout_event (sy_trace (result_state r))) \<le> 1"
proof -
  have "map_outcome (\<lambda>r. length (sy_trace (result_state r)))
      (eloop_iteration one_shot calm_env 100 (tm 2000000000 0) demo_state) = Done 1" by code_simp
  then obtain r where run: "eloop_iteration one_shot calm_env 100 (tm 2000000000 0) demo_state = Done r"
    by (cases "eloop_iteration one_shot calm_env 100 (tm 2000000000 0) demo_state") auto
  have "sy_trace demo_state = []" by code_simp
  with iteration_runs_at_most_one_timeout [OF run] run show ?thesis by auto
qed





text \<open>C11. The timeout given to \<open>pselect\<close> on a list sorted by deadline: none when there is no
  timeout, and otherwise a normalised time of exactly as many microseconds as are left until the
  earliest deadline, zero when it has passed.\<close>

theorem select_waits_for_earliest_deadline:
  assumes "normal_time now" and "\<forall>t \<in> set (el_timeout (sy_eloop s)). normal_time (to_time t)"
    and "timeouts_sorted (el_timeout (sy_eloop s))"
  shows "case select_timeout now s of
     None \<Rightarrow> el_timeout (sy_eloop s) = []
   | Some tv \<Rightarrow> normal_time tv \<and>
       (\<exists>t \<in> set (el_timeout (sy_eloop s)). us_of tv = max 0 (us_of (to_time t) - us_of now)) \<and>
       (\<forall>t \<in> set (el_timeout (sy_eloop s)). us_of tv \<le> max 0 (us_of (to_time t) - us_of now))"
proof (cases "el_timeout (sy_eloop s)")
  case Nil
  then show ?thesis by (simp add: select_timeout_def)
next
  case (Cons t ts)
  let ?tv = "if os_time_before now (to_time t) then os_time_sub (to_time t) now else tm 0 0"
  have nt: "normal_time (to_time t)" using assms(2) Cons by simp
  have tv: "us_of ?tv = max 0 (us_of (to_time t) - us_of now)"
    using os_time_before_us [OF assms(1) nt] by (simp add: max_def) (simp add: us_of_def)
  have norm: "normal_time ?tv"
    using os_time_sub_normal [OF nt assms(1)] by (simp add: normal_time_def)
  have "us_of (to_time t) \<le> us_of (to_time u)" if "u \<in> set (t # ts)" for u
  proof -
    have "\<not> os_time_before (to_time u) (to_time t)"
      using that assms(3) Cons timeouts_sorted_head by metis
    moreover have "normal_time (to_time u)" using that assms(2) Cons by auto
    ultimately show ?thesis using os_time_before_us [OF _ nt] by simp
  qed
  then have all: "us_of ?tv \<le> max 0 (us_of (to_time u) - us_of now)" if "u \<in> set (t # ts)" for u
    unfolding tv using that by (meson diff_right_mono max.mono order_refl)
  show ?thesis
    using tv norm all by (auto simp: select_timeout_def Cons)
qed

theorem select_waits_for_earliest_deadline_witness:
  "select_timeout (tm 2000000000 100000) demo_state = Some (tm 0 900000) \<and>
   us_of (tm 0 900000) \<le> max 0 (us_of (tm 2000000001 0) - us_of (tm 2000000000 100000))"
proof -
  have n: "normal_time (tm 2000000000 100000)" by code_simp
  have ns: "\<forall>t \<in> set (el_timeout (sy_eloop demo_state)). normal_time (to_time t)" by code_simp
  have srt: "timeouts_sorted (el_timeout (sy_eloop demo_state))" by code_simp
  have tv: "select_timeout (tm 2000000000 100000) demo_state = Some (tm 0 900000)" by code_simp
  have "map to_time (el_timeout (sy_eloop demo_state)) = [tm 2000000001 0]" by code_simp
  then obtain t where "t \<in> set (el_timeout (sy_eloop demo_state))" "to_time t = tm 2000000001 0" by auto
  with select_waits_for_earliest_deadline [OF n ns srt] tv show ?thesis by fastforce
qed

end
