(* ===== verification/Eloop_Laws.thy ===== *)
theory Eloop_Laws
  imports Eloop_Dispatch
begin

text \<open>
  The functional behaviour of the operations of eloop/eloop.c, one call at a time: timeouts,
  the hardware watchdog, sockets, signals, and the shift of deadlines when the clock jumps.
\<close>

section \<open>Timeouts\<close>

definition two_timeouts :: sys where
  "two_timeouts = fold api_exec
     [ARegisterTimeout 64 (\<lambda>_. tm 2000000000 0) 5 0 7 8 9 True,
      ARegisterTimeout 128 (\<lambda>_. tm 2000000000 0) 1 0 7 88 9 True] (snd (eloop_init 1 (boot 77)))"

text \<open>C4. Registering a timeout on a list sorted by deadline returns 0 and links a node whose
  deadline is the clock plus the delay, to the microsecond, normalised however large the
  delay's microseconds are; it lands behind every node that is not later and in front of every
  later one, and no other node moves or changes.\<close>

theorem register_timeout_inserts_deadline:
  assumes "p \<noteq> NULL" and "p \<notin> to_id ` set (el_timeout (sy_eloop s))"
    and "timeouts_sorted (el_timeout (sy_eloop s))" and "0 \<le> usec (clk 0)"
  shows "let (ret, s') = eloop_register_timeout0 p clk secs usecs h ed ud wd s;
             t = new_timeout p (clk 0) secs usecs h ed ud wd;
             ts = el_timeout (sy_eloop s)
         in ret = 0 \<and> to_id t = p \<and> to_handler t = h \<and> to_eloop_data t = ed \<and> to_user_data t = ud \<and>
            normal_time (to_time t) \<and>
            us_of (to_time t) = us_of (clk 0) + uint secs * 1000000 + uint usecs \<and>
            el_timeout (sy_eloop s') =
              filter (\<lambda>u. \<not> os_time_before (to_time t) (to_time u)) ts @ t #
              filter (\<lambda>u. os_time_before (to_time t) (to_time u)) ts"
proof -
  let ?t = "new_timeout p (clk 0) secs usecs h ed ud wd"
  let ?ts = "el_timeout (sy_eloop s)"
  let ?raw = "tm (sec (clk 0) + uint secs) (usec (clk 0) + uint usecs)"
  have "0 \<le> usec ?raw" using assms(4) by simp
  from carry_usec_result [OF this] have c: "to_time ?t =
      tm (sec (clk 0) + uint secs + (usec (clk 0) + uint usecs) div 1000000)
         ((usec (clk 0) + uint usecs) mod 1000000)"
    by (simp add: new_timeout_def)
  have norm: "normal_time (to_time ?t)" unfolding c by (simp add: normal_time_def)
  have us: "us_of (to_time ?t) = us_of (clk 0) + uint secs * 1000000 + uint usecs"
    unfolding c using div_mult_mod_eq [of "usec (clk 0) + uint usecs" 1000000]
    by (simp add: us_of_def algebra_simps)
  have mark: "wd \<Longrightarrow> mark_wdt p (insert_timeout ?t ?ts) = insert_timeout ?t ?ts"
    using assms(2) by (intro mark_wdt_id) (auto simp: tq.ins_set)
  have "fst (eloop_register_timeout0 p clk secs usecs h ed ud wd s) = 0"
    and "el_timeout (sy_eloop (snd (eloop_register_timeout0 p clk secs usecs h ed ud wd s))) =
      insert_timeout ?t ?ts"
    using assms(1) mark by (cases wd; simp add: eloop_register_timeout0_def Let_def)+
  with norm us tq.ins_position [of ?ts ?t] assms(3) show ?thesis
    by (simp add: Let_def split_def timeouts_sorted_def)
qed

theorem register_timeout_inserts_deadline_witness:
  "us_of (to_time (new_timeout 192 (tm 2000000000 999999) 2 3000001 7 8 9 False)) =
     us_of (tm 2000000000 999999) + 5000001"
proof -
  have a: "(192 :: ptr) \<noteq> NULL" by simp
  have b: "192 \<notin> to_id ` set (el_timeout (sy_eloop two_timeouts))" by code_simp
  have c: "timeouts_sorted (el_timeout (sy_eloop two_timeouts))" by code_simp
  have d: "0 \<le> usec ((\<lambda>_ :: nat. tm 2000000000 999999) 0)" by simp
  from register_timeout_inserts_deadline [OF a b c d, of 2 3000001 7 8 9 False] show ?thesis
    by (simp add: Let_def split_def)
qed

text \<open>C5. Cancelling returns how many nodes have the handler and match both data pointers
  (\<open>ELOOP_ALL_CTX\<close> matches any); exactly those are unlinked and freed, and the others keep their
  order.\<close>

theorem cancel_timeout_removes_matches:
  assumes "heap_inv X s"
  shows "let (n, s') = eloop_cancel_timeout0 clk h ed ud wd s;
             ts = el_timeout (sy_eloop s);
             hit = (\<lambda>t. to_handler t = h \<and> (ed = ELOOP_ALL_CTX \<or> to_eloop_data t = ed) \<and>
                        (ud = ELOOP_ALL_CTX \<or> to_user_data t = ud))
         in n = int (length (filter hit ts)) \<and>
            el_timeout (sy_eloop s') = filter (\<lambda>t. \<not> hit t) ts \<and>
            mset (sy_heap s) = mset (sy_heap s') + mset (map to_id (filter hit ts)) \<and>
            \<not> sy_bad_free s'"
proof -
  let ?ts = "el_timeout (sy_eloop s)"
  let ?s' = "snd (eloop_cancel_timeout0 clk h ed ud wd s)"
  let ?m = "timeout_matches h ed ud"
  have I: "heap_inv X ?s'" using assms by (rule heap_inv_cancel)
  have parts: "mset (map to_id ?ts) =
      mset (map to_id (filter ?m ?ts)) + mset (map to_id (filter (\<lambda>t. \<not> ?m t) ?ts))"
    by (rule mset_map_filter_split)
  have before: "mset (map to_id ?ts) + X = mset (sy_heap s)" using assms by (simp add: heap_inv_def)
  have after: "mset (map to_id (filter (\<lambda>t. \<not> ?m t) ?ts)) + X = mset (sy_heap ?s')"
    using I unfolding heap_inv_def cancel_timeout0_result by blast
  have "mset (sy_heap s) = mset (sy_heap ?s') + mset (map to_id (filter ?m ?ts))"
    unfolding before [symmetric] after [symmetric] parts by (simp only: ac_simps)
  moreover have "\<not> sy_bad_free ?s'" using I by (simp add: heap_inv_def)
  ultimately have "mset (sy_heap s) = mset (sy_heap ?s') + mset (map to_id (filter ?m ?ts))"
    "\<not> sy_bad_free ?s'" by blast+
  moreover have "(\<lambda>t. to_handler t = h \<and> (ed = ELOOP_ALL_CTX \<or> to_eloop_data t = ed) \<and>
      (ud = ELOOP_ALL_CTX \<or> to_user_data t = ud)) = ?m"
    by (auto simp: timeout_matches_def)
  ultimately show ?thesis by (simp only: Let_def split_def cancel_timeout0_result fst_conv snd_conv) simp
qed

theorem cancel_timeout_removes_matches_witness:
  "fst (eloop_cancel_timeout0 (\<lambda>_. tm 2000000000 0) 7 ELOOP_ALL_CTX 9 True two_timeouts) = 2"
proof -
  have h: "heap_inv {#} two_timeouts" by (simp add: two_timeouts_def heap_inv_def) code_simp
  have n: "length (filter (\<lambda>t. to_handler t = 7 \<and> (ELOOP_ALL_CTX = ELOOP_ALL_CTX \<or> to_eloop_data t = ELOOP_ALL_CTX) \<and>
      (9 = ELOOP_ALL_CTX \<or> to_user_data t = 9)) (el_timeout (sy_eloop two_timeouts))) = 2" by code_simp
  from cancel_timeout_removes_matches [OF h, of "\<lambda>_. tm 2000000000 0" 7 ELOOP_ALL_CTX 9 True] n
  show ?thesis by (simp add: Let_def split_def)
qed

section \<open>The hardware watchdog\<close>

lemma first_wdt_least:
  "timeouts_sorted ts \<Longrightarrow> first_wdt ts = Some t \<Longrightarrow> u \<in> set ts \<Longrightarrow> to_bIsWDTimeout u \<Longrightarrow>
   \<not> os_time_before (to_time u) (to_time t)"
  by (induction ts) (auto simp: timeouts_sorted_def split: if_splits)

text \<open>C6. In every state an application reaches by calls, \<open>timeout_currentWDT\<close> is null exactly
  when no watchdog timeout is registered, and otherwise the watchdog timeout of earliest deadline;
  the calls to the watchdog hardware obey its protocol (start when stopped, restart and stop when
  running) and leave it running exactly when a watchdog timeout is registered.\<close>

theorem watchdog_follows_first_timeout:
  assumes "reached tid ud s"
  shows "case first_wdt (el_timeout (sy_eloop s)) of
     None \<Rightarrow> el_timeout_currentWDT (sy_eloop s) = NULL \<and> wdt_run False (sy_wdt s) = Some False
   | Some t \<Rightarrow> el_timeout_currentWDT (sy_eloop s) = to_id t \<and> wdt_run False (sy_wdt s) = Some True \<and>
       (\<forall>u \<in> set (el_timeout (sy_eloop s)). to_bIsWDTimeout u \<longrightarrow>
          \<not> os_time_before (to_time u) (to_time t))"
proof (cases "first_wdt (el_timeout (sy_eloop s))")
  case None
  with reached_inv [OF assms] show ?thesis by (simp add: wdt_ok_def wdt_at_def wdt_id_def)
next
  case (Some t)
  have "to_id t \<noteq> NULL"
    using first_wdt_Some [OF Some] heap_inv_distinct(2) [of "{#}" s] reached_inv [OF assms]
    by (auto simp: run_inv_def)
  with Some reached_inv [OF assms] first_wdt_least [OF _ Some] show ?thesis
    by (simp add: wdt_ok_def wdt_at_def wdt_id_def sorted_ok_def)
qed

theorem watchdog_follows_first_timeout_witness:
  "el_timeout_currentWDT (sy_eloop two_timeouts) = 128 \<and> wdt_run False (sy_wdt two_timeouts) = Some True"
proof -
  have r: "reached 77 1 two_timeouts"
  proof -
    let ?s0 = "snd (eloop_init 1 (boot 77))"
    let ?c1 = "ARegisterTimeout 64 (\<lambda>_. tm 2000000000 0) 5 0 7 8 9 True"
    let ?c2 = "ARegisterTimeout 128 (\<lambda>_. tm 2000000000 0) 1 0 7 88 9 True"
    have ok: "api_ok ?c1 ?s0" "api_ok ?c2 (api_exec ?c1 ?s0)" by code_simp+
    have "reached 77 1 (api_exec ?c1 ?s0)" by (rule reached_call [OF reached_init ok(1)])
    then have "reached 77 1 (api_exec ?c2 (api_exec ?c1 ?s0))" using ok(2) by (rule reached_call)
    then show ?thesis by (simp add: two_timeouts_def)
  qed
  have f: "map_option to_id (first_wdt (el_timeout (sy_eloop two_timeouts))) = Some 128" by code_simp
  from watchdog_follows_first_timeout [OF r] f show ?thesis by (auto split: option.splits)
qed

text \<open>What the run loop does when the current watchdog timeout itself fires: it pops and frees
  the node without \<open>OnUnregisterWDT\<close>, so, if the handler makes no calls, \<open>timeout_currentWDT\<close> keeps
  the address of a freed block and the hardware watchdog is neither stopped nor moved to the next
  watchdog timeout.\<close>

lemma fired_watchdog_leaves_dangling_current:
  assumes "heap_inv {#} s" and "wdt_ok s" and "el_timeout (sy_eloop s) = t # ts" and "to_bIsWDTimeout t"
    and "fst (sem (TimeoutCb (to_handler t) (to_eloop_data t) (to_user_data t))
           (entered (TimeoutCb (to_handler t) (to_eloop_data t) (to_user_data t)) (Some 2)
             (upd_el (\<lambda>e. e\<lparr>el_timeout := ts\<rparr>) s))) = []"
    and "\<not> os_time_before now (to_time t)" and "fire_timeout sem now s = Done s'"
  shows "el_timeout_currentWDT (sy_eloop s') = to_id t \<and> to_id t \<notin> set (sy_heap s') \<and>
         to_id t \<noteq> NULL \<and> sy_wdt s' = sy_wdt s"
proof -
  let ?s1 = "upd_el (\<lambda>e. e\<lparr>el_timeout := ts\<rparr>) s"
  let ?cb = "TimeoutCb (to_handler t) (to_eloop_data t) (to_user_data t)"
  have live: "to_id t \<in> set (sy_heap s)" "to_id t \<noteq> NULL"
    using heap_inv_distinct [OF assms(1)] assms(3) by auto
  have cur: "el_timeout_currentWDT (sy_eloop s) = to_id t"
    using assms(2,3,4) by (simp add: wdt_ok_def wdt_at_def wdt_id_def)
  from assms(3,6,7) obtain s2 where call: "protected_call sem ?cb (Some 2) ?s1 = Done s2"
    and s': "s' = heap_free (to_id t) s2"
    by (auto simp: fire_timeout_def call_defs outcome_simps)
  have s2: "s2 = left (Some 2) (entered ?cb (Some 2) ?s1)"
    using protected_call_Done [OF call] assms(5) by simp
  have "to_id t \<notin> set (remove1 (to_id t) (sy_heap s))"
    using assms(1) by (simp add: heap_inv_def)
  with live cur show ?thesis by (simp add: s' s2 heap_free_def)
qed

definition no_calls :: handlers where
  "no_calls cb s = ([], None)"

lemma fired_watchdog_leaves_dangling_current_witness:
  "\<exists>s'. fire_timeout no_calls (tm 2000000002 0) (two_timeouts\<lparr>sy_threads := [zero_state\<lparr>ts_pid := 77\<rparr>]\<rparr>) = Done s' \<and>
        el_timeout_currentWDT (sy_eloop s') = 128 \<and> 128 \<notin> set (sy_heap s')"
proof -
  let ?s = "two_timeouts\<lparr>sy_threads := [zero_state\<lparr>ts_pid := 77\<rparr>]\<rparr>"
  have h: "heap_inv {#} ?s" by (simp add: two_timeouts_def heap_inv_def) code_simp
  have w: "wdt_ok ?s" by code_simp
  have "map to_id (el_timeout (sy_eloop ?s)) = [128, 64] \<and>
        map to_bIsWDTimeout (el_timeout (sy_eloop ?s)) = [True, True] \<and>
        map to_time (el_timeout (sy_eloop ?s)) = [tm 2000000001 0, tm 2000000005 0]" by code_simp
  then obtain t u where l: "el_timeout (sy_eloop ?s) = [t, u]" and t: "to_id t = 128" "to_bIsWDTimeout t"
    "to_time t = tm 2000000001 0" by auto
  have d: "\<not> os_time_before (tm 2000000002 0) (to_time t)" unfolding t by (simp add: os_time_before_def)
  have "map_outcome (\<lambda>s. length (sy_trace s)) (fire_timeout no_calls (tm 2000000002 0) ?s) = Done 1" by code_simp
  then obtain s' where run: "fire_timeout no_calls (tm 2000000002 0) ?s = Done s'"
    by (cases "fire_timeout no_calls (tm 2000000002 0) ?s") auto
  have n: "fst (no_calls cb st) = []" for cb st by (simp add: no_calls_def)
  from fired_watchdog_leaves_dangling_current [OF h w l t(2) n d run] t(1) run show ?thesis by auto
qed

section \<open>Sockets\<close>

text \<open>Registration and removal of a socket. Registering in a valid table appends one row to it,
  raises \<open>max_sock\<close> if needed and returns 0; a bad event type or a failing \<open>realloc\<close> returns -1 and
  changes nothing. Removing drops the first row with the socket from that table only, and leaves
  \<open>max_sock\<close> exactly the greatest registered descriptor, -1 when there is none.\<close>

lemma sock_registration_and_removal:
  "(case eloop_get_sock_table n of
      Some ty \<Rightarrow>
        (if ok then
           fst (eloop_register_sock ok sock n h ed ud s) = 0 \<and>
           rows ty' (snd (eloop_register_sock ok sock n h ed ud s)) =
             (if ty' = ty then rows ty s @ [\<lparr>so_sock = sock, so_eloop_data = ed, so_user_data = ud, so_handler = h\<rparr>]
              else rows ty' s) \<and>
           el_max_sock (sy_eloop (snd (eloop_register_sock ok sock n h ed ud s))) =
             max sock (el_max_sock (sy_eloop s))
         else eloop_register_sock ok sock n h ed ud s = (-1, s)) \<and>
        rows ty' (eloop_unregister_sock sock n s) = (if ty' = ty then drop_first sock (rows ty s) else rows ty' s)
    | None \<Rightarrow> eloop_register_sock ok sock n h ed ud s = (-1, s) \<and>
              rows ty' (eloop_unregister_sock sock n s) = rows ty' s) \<and>
   el_max_sock (sy_eloop (eloop_unregister_sock sock n s)) =
     Max (insert (-1) (all_socks (eloop_unregister_sock sock n s)))"
proof -
  have "el_max_sock (sy_eloop (eloop_unregister_sock sock n s)) =
      Max (insert (-1) (all_socks (eloop_unregister_sock sock n s)))"
    by (simp add: eloop_unregister_sock_def recalc_max)
  moreover have "eloop_get_sock_table n = Some ty \<Longrightarrow>
      rows ty' (eloop_unregister_sock sock n s) = (if ty' = ty then drop_first sock (rows ty s) else rows ty' s)" for ty
    by (simp add: eloop_unregister_sock_def rows_remove)
  moreover have "eloop_get_sock_table n = None \<Longrightarrow> rows ty' (eloop_unregister_sock sock n s) = rows ty' s"
    by (simp add: eloop_unregister_sock_def eloop_sock_table_remove_sock_def)
  moreover have "eloop_get_sock_table n = Some ty \<Longrightarrow> ok \<Longrightarrow>
      rows ty' (snd (eloop_register_sock ok sock n h ed ud s)) =
        (if ty' = ty then rows ty s @ [\<lparr>so_sock = sock, so_eloop_data = ed, so_user_data = ud, so_handler = h\<rparr>]
         else rows ty' s)" for ty
    using rows_add [of ty' ty sock h ed ud s] by (simp add: eloop_register_sock_def)
  ultimately show ?thesis
    by (auto simp: eloop_register_sock_def eloop_sock_table_add_sock_def Let_def split: option.split)
qed

section \<open>Signals\<close>

text \<open>A signal counts once in \<open>signaled\<close> and once in the first row registered for it, in no other
  row; \<open>SIGINT\<close> and \<open>SIGTERM\<close> make termination pending, and the alarm is armed at the first of them
  only.\<close>

lemma signal_counted_in_first_row:
  assumes "i < length (el_signals (sy_eloop s))"
  shows "el_signaled (sy_eloop (eloop_handle_signal sig s)) = el_signaled (sy_eloop s) + 1 \<and>
    el_signals (sy_eloop (eloop_handle_signal sig s)) ! i =
      (if sg_sig (el_signals (sy_eloop s) ! i) = sig \<and> (\<forall>j < i. sg_sig (el_signals (sy_eloop s) ! j) \<noteq> sig)
       then (el_signals (sy_eloop s) ! i)\<lparr>sg_signaled := sg_signaled (el_signals (sy_eloop s) ! i) + 1\<rparr>
       else el_signals (sy_eloop s) ! i) \<and>
    el_pending_terminate (sy_eloop (eloop_handle_signal sig s)) =
      (el_pending_terminate (sy_eloop s) \<or> sig = SIGINT \<or> sig = SIGTERM) \<and>
    sy_alarm (eloop_handle_signal sig s) =
      (sy_alarm s \<or> ((sig = SIGINT \<or> sig = SIGTERM) \<and> \<not> el_pending_terminate (sy_eloop s)))"
  using bump_first_nth [OF assms, of sig] by (auto simp: eloop_handle_signal_def Let_def)

definition two_signals :: sys where
  "two_signals = fold api_exec [ARegisterSignal True 15 1 2, ARegisterSignal True 15 3 4]
     (snd (eloop_init 1 (boot 77)))"


section \<open>Time changes\<close>



lemma expected_time_us:
  "us_of (expected_time t1 t0 prev) =
     us_of prev + (clockdiff_of t1 t0 div 100) * 1000000 + clockdiff_of t1 t0 mod 100 * 1000000 div 100"
  by (simp add: expected_time_def Let_def us_of_def)

text \<open>The clock that \<open>eloop_timeChangeAuto\<close> expects. When the tick counter has advanced it is the
  previous reading plus 10 ms per tick. When it has not (two readings within one tick), the 32-bit
  wrap-around \<open>0xFFFFFFFF-t0+t1+1\<close> is computed in 64 bits and the expected clock is
  42949672.96 s ahead.\<close>

lemma expected_clock_after_ticks:
  assumes "t1 > t0"
  shows "us_of (expected_time t1 t0 prev) = us_of prev + (t1 - t0) * 10000 \<and>
         us_of (expected_time t0 t0 prev) = us_of prev + 42949672960000"
proof -
  have e: "(x mod 100) * 1000000 div 100 = (x mod 100) * 10000" for x :: int by simp
  have m: "(x div 100) * 1000000 + (x mod 100) * 10000 = x * 10000" for x :: int
  proof -
    have "x * 10000 = (x div 100 * 100 + x mod 100) * 10000" by (simp only: div_mult_mod_eq)
    also have "\<dots> = (x div 100) * 1000000 + (x mod 100) * 10000" by (simp only: distrib_right mult.assoc)
    finally show ?thesis by simp
  qed
  have "us_of (expected_time t1 t0 prev) = us_of prev + (t1 - t0) * 10000"
    using assms m [of "t1 - t0"] by (simp only: expected_time_us clockdiff_of_def if_True e)
  moreover have "us_of (expected_time t0 t0 prev) = us_of prev + 42949672960000"
    by (simp add: expected_time_us clockdiff_of_def)
  ultimately show ?thesis by simp
qed


text \<open>The consequence for the run loop: when the clock and the tick counter both stand still
  between two checks, \<open>eloop_timeChangeAuto\<close> moves every deadline (all of them later than 2001)
  42949672.96 s into the past, so all timeouts are due at once.\<close>

lemma timeChangeAuto_same_tick_expires_all:
  assumes "normal_time prev" and "\<forall>t \<in> set (el_timeout (sy_eloop s)). sec (to_time t) > 1000000000"
  shows "map (\<lambda>t. us_of (to_time t)) (el_timeout (sy_eloop (eloop_timeChangeAuto tick tick prev prev s))) =
         map (\<lambda>t. us_of (to_time t) - 42949672960000) (el_timeout (sy_eloop s))"
proof -
  have cd: "clockdiff_of tick tick = 4294967296" by (simp add: clockdiff_of_def)
  have ex: "expected_time tick tick prev =
      (if usec prev + 960000 > 1000000 then tm (sec prev + 42949673) (usec prev - 40000)
       else tm (sec prev + 42949672) (usec prev + 960000))"
    using assms(1) by (simp add: expected_time_def cd Let_def normal_time_def)
  let ?e = "expected_time tick tick prev"
  have us: "us_of ?e - us_of prev = 42949672960000"
    using expected_clock_after_ticks [of tick "tick + 1" prev] by simp
  have sg: "CmpTime prev ?e = -1" using assms(1) by (auto simp: ex CmpTime_def normal_time_def)
  have big: "\<not> sec (SubTime ?e prev) \<le> 0" using assms(1) by (auto simp: ex SubTime_def normal_time_def Let_def)
  have "eloop_timeChangeAuto tick tick prev prev s =
      upd_el (\<lambda>e. e\<lparr>el_timeout := update_walk (-1) (SubTime ?e prev) False (el_timeout e)\<rparr>) s"
    using sg big by (simp add: eloop_timeChangeAuto_def eloop_timeChange0_def eloop_timeUpdate_def Let_def)
  then have "el_timeout (sy_eloop (eloop_timeChangeAuto tick tick prev prev s)) =
      map (\<lambda>t. t\<lparr>to_time := shift_time (-1) (SubTime ?e prev) (to_time t)\<rparr>) (el_timeout (sy_eloop s))"
    using update_walk_modern [OF assms(2)] by simp
  with us show ?thesis by (simp add: shift_time_us)
qed

lemma timeChangeAuto_same_tick_expires_all_witness:
  "map (\<lambda>t. us_of (to_time t)) (el_timeout (sy_eloop (eloop_timeChangeAuto 100 100 (tm 2000000000 0) (tm 2000000000 0) two_timeouts))) =
     [1957050328040000, 1957050332040000]"
proof -
  have n: "normal_time (tm 2000000000 0)" by code_simp
  have m: "\<forall>t \<in> set (el_timeout (sy_eloop two_timeouts)). sec (to_time t) > 1000000000" by code_simp
  have "map (\<lambda>t. us_of (to_time t) - 42949672960000) (el_timeout (sy_eloop two_timeouts)) =
      [1957050328040000, 1957050332040000]" by code_simp
  with timeChangeAuto_same_tick_expires_all [OF n m, of 100] show ?thesis by simp
qed

section \<open>Time left and time elapsed\<close>

text \<open>\<open>GetTimeLeft\<close>, which sets the period of the hardware watchdog: the exact difference,
  normalised, when the deadline is not past; zero when it passed in an earlier second; but for a
  deadline that passed within the current second, minus one second plus the remainder, a
  negative time.\<close>

lemma GetTimeLeft_values:
  assumes "normal_time cur" and "normal_time dst" and "0 < sec dst"
  shows "(\<not> os_time_before dst cur \<longrightarrow>
            normal_time (GetTimeLeft cur dst) \<and> us_of (GetTimeLeft cur dst) = us_of dst - us_of cur) \<and>
         (sec dst < sec cur \<longrightarrow> GetTimeLeft cur dst = tm 0 0) \<and>
         (sec dst = sec cur \<and> usec dst < usec cur \<longrightarrow>
            GetTimeLeft cur dst = tm (-1) (1000000 + usec dst - usec cur))"
  using assms by (auto simp: GetTimeLeft_def os_time_before_def normal_time_def us_of_def)

lemma GetTimeLeft_values_witness:
  "GetTimeLeft (tm 2000000000 500000) (tm 2000000000 400000) = tm (-1) 900000"
  using GetTimeLeft_values [of "tm 2000000000 500000" "tm 2000000000 400000"] by (simp add: normal_time_def)

end
