(* ===== verification/Dns_Codec.thy ===== *)
theory Dns_Codec
  imports Prelude
begin

text \<open>
  The wire format of eloop/dns.c: the message header, dotted names as length-prefixed labels with
  compression pointers, questions and answers. A message is the list of its bytes; reading behind
  its end is \<open>Crash\<close>. \<open>__decode_dotted\<close> follows compression pointers without a bound, so its
  number of rounds is an argument.
\<close>

section \<open>Reading a message\<close>

definition rd :: "u8 list \<Rightarrow> nat \<Rightarrow> u8 outcome" where
  "rd data i = (if i < length data then Done (data ! i) else Crash)"

definition rd_block :: "u8 list \<Rightarrow> nat \<Rightarrow> nat \<Rightarrow> u8 list outcome" where
  "rd_block data i n = (if i + n \<le> length data then Done (take n (drop i data)) else Crash)"

section \<open>The header\<close>

record resolv_header =
  rh_id :: int
  rh_qr :: int
  rh_opcode :: int
  rh_aa :: int
  rh_tc :: int
  rh_rd :: int
  rh_ra :: int
  rh_rcode :: int
  rh_qdcount :: int
  rh_ancount :: int
  rh_nscount :: int
  rh_arcount :: int

definition HFIXEDSZ :: int where "HFIXEDSZ = 12"
definition RRFIXEDSZ :: int where "RRFIXEDSZ = 10"

definition hi8 :: "int \<Rightarrow> u8" where
  "hi8 x = word_of_int (drop_bit 8 (x AND 0xff00))"

definition lo8 :: "int \<Rightarrow> u8" where
  "lo8 x = word_of_int (x AND 0x00ff)"

definition flag8 :: "int \<Rightarrow> u8 \<Rightarrow> u8" where
  "flag8 x m = (if x \<noteq> 0 then m else 0)"

text \<open>The result and the bytes written to \<open>dest\<close>.\<close>

definition encode_header :: "resolv_header \<Rightarrow> int \<Rightarrow> int \<times> u8 list" where
  "encode_header h maxlen =
     (if maxlen < HFIXEDSZ then (-1, [])
      else (HFIXEDSZ,
        [hi8 (rh_id h), lo8 (rh_id h),
         flag8 (rh_qr h) 0x80 OR push_bit 3 (word_of_int (rh_opcode h AND 0x0f)) OR
           flag8 (rh_aa h) 0x04 OR flag8 (rh_tc h) 0x02 OR flag8 (rh_rd h) 0x01,
         flag8 (rh_ra h) 0x80 OR word_of_int (rh_rcode h AND 0x0f),
         hi8 (rh_qdcount h), lo8 (rh_qdcount h), hi8 (rh_ancount h), lo8 (rh_ancount h),
         hi8 (rh_nscount h), lo8 (rh_nscount h), hi8 (rh_arcount h), lo8 (rh_arcount h)]))"

definition be16 :: "u8 \<Rightarrow> u8 \<Rightarrow> int" where
  "be16 a b = push_bit 8 (uint a) OR uint b"

definition bit_of :: "u8 \<Rightarrow> u8 \<Rightarrow> int" where
  "bit_of b m = (if b AND m \<noteq> 0 then 1 else 0)"

definition decode_header_bytes :: "u8 list \<Rightarrow> resolv_header" where
  "decode_header_bytes d =
     \<lparr>rh_id = be16 (d ! 0) (d ! 1),
      rh_qr = bit_of (d ! 2) 0x80,
      rh_opcode = uint (drop_bit 3 (d ! 2) AND 0x0f),
      rh_aa = bit_of (d ! 2) 0x04, rh_tc = bit_of (d ! 2) 0x02, rh_rd = bit_of (d ! 2) 0x01,
      rh_ra = bit_of (d ! 3) 0x80,
      rh_rcode = uint (d ! 3 AND 0x0f),
      rh_qdcount = be16 (d ! 4) (d ! 5), rh_ancount = be16 (d ! 6) (d ! 7),
      rh_nscount = be16 (d ! 8) (d ! 9), rh_arcount = be16 (d ! 10) (d ! 11)\<rparr>"

definition decode_header :: "u8 list \<Rightarrow> (int \<times> resolv_header) outcome" where
  "decode_header data =
     (if length data < 12 then Crash else Done (HFIXEDSZ, decode_header_bytes data))"

section \<open>Dotted names\<close>

definition byte_of :: "char \<Rightarrow> u8" where
  "byte_of c = of_char c"

definition char_of_byte :: "u8 \<Rightarrow> char" where
  "char_of_byte b = char_of (unat b)"

definition DOT :: char where "DOT = CHR ''.''"

text \<open>
  \<open>__encode_dotted\<close>: the result and the bytes written, \<open>acc\<close> those already in \<open>dest\<close>. A length is
  stored in one byte whatever it is.
\<close>

function encode_dotted_from :: "string \<Rightarrow> int \<Rightarrow> u8 list \<Rightarrow> int \<times> u8 list" where
  "encode_dotted_from s maxlen acc =
     (if s = [] then
        (if maxlen < 1 then (-1, acc) else (int (length acc) + 1, acc @ [0]))
      else
        (let seg = takeWhile (\<lambda>c. c \<noteq> DOT) s;
             rest = dropWhile (\<lambda>c. c \<noteq> DOT) s;
             acc' = acc @ word_of_nat (length seg) # map byte_of seg
         in if int (length seg) \<ge> maxlen - int (length acc) - 1 then (-1, acc)
            else (case rest of
                    [] \<Rightarrow> (if maxlen < 1 then (-1, acc') else (int (length acc') + 1, acc' @ [0]))
                  | _ # s' \<Rightarrow> encode_dotted_from s' maxlen acc')))"
  by pat_completeness auto
termination
proof (relation "measure (\<lambda>(s, _, _). length s)", goal_cases)
  case 1
  then show ?case by simp
next
  case (2 s maxlen acc seg rest acc' c s')
  then have "length (c # s') \<le> length s" by (metis length_dropWhile_le)
  then show ?case by simp
qed

declare encode_dotted_from.simps [simp del]

text \<open>A null \<open>dotted\<close> is the empty name.\<close>

definition encode_dotted :: "string option \<Rightarrow> int \<Rightarrow> int \<times> u8 list" where
  "encode_dotted dotted maxlen =
     (case dotted of None \<Rightarrow> encode_dotted_from [] maxlen [] | Some s \<Rightarrow> encode_dotted_from s maxlen [])"

text \<open>
  The loop of \<open>__decode_dotted\<close>: \<open>measure\<close> and \<open>total\<close> as in the code, \<open>dest\<close> the bytes written so far.
\<close>

fun decode_dotted_from ::
    "nat \<Rightarrow> u8 list \<Rightarrow> nat \<Rightarrow> int \<Rightarrow> bool \<Rightarrow> int \<Rightarrow> u8 list \<Rightarrow> (int \<times> u8 list) outcome" where
  "decode_dotted_from 0 data offset maxlen meas tot dest = OutOfFuel"
| "decode_dotted_from (Suc n) data offset maxlen meas tot dest =
     obind (rd data offset) (\<lambda>l.
       if l = 0 then Done (if meas then tot + 1 else tot, dest)
       else
         (let total1 = (if meas then tot + 1 else tot)
          in if l AND 0xc0 = 0xc0 then
               obind (rd data (offset + 1)) (\<lambda>b.
                 decode_dotted_from n data (nat (push_bit 8 (uint (l AND 0x3f)) OR uint b)) maxlen False
                   (if meas then total1 + 1 else total1) dest)
             else if int (length dest) + uint l + 1 \<ge> maxlen then Done (-1, dest)
             else
               obind (rd_block data (offset + 1) (unat l)) (\<lambda>lab.
               obind (rd data (offset + 1 + unat l)) (\<lambda>nx.
                 decode_dotted_from n data (offset + 1 + unat l) maxlen meas
                   (if meas then total1 + uint l else total1)
                   (dest @ lab @ [if nx \<noteq> 0 then byte_of DOT else 0])))))"

text \<open>A null \<open>data\<close> is \<open>None\<close>.\<close>

definition decode_dotted :: "nat \<Rightarrow> u8 list option \<Rightarrow> nat \<Rightarrow> int \<Rightarrow> (int \<times> u8 list) outcome" where
  "decode_dotted fuel data offset maxlen =
     (case data of None \<Rightarrow> Done (-1, []) | Some d \<Rightarrow> decode_dotted_from fuel d offset maxlen True 0 [])"

text \<open>\<open>__length_dotted\<close> stops at the first pointer and always moves forward.\<close>

function length_dotted_from :: "u8 list \<Rightarrow> nat \<Rightarrow> nat outcome" where
  "length_dotted_from data offset =
     (if offset < length data then
        (let l = data ! offset
         in if l = 0 then Done (offset + 1)
            else if l AND 0xc0 = 0xc0 then Done (offset + 2)
            else length_dotted_from data (offset + 1 + unat l))
      else Crash)"
  by pat_completeness auto
termination
  by (relation "measure (\<lambda>(d, i). length d - i)") auto

declare length_dotted_from.simps [simp del]

definition length_dotted :: "u8 list option \<Rightarrow> nat \<Rightarrow> int outcome" where
  "length_dotted data offset =
     (case data of
        None \<Rightarrow> Done (-1)
      | Some d \<Rightarrow> obind (length_dotted_from d offset) (\<lambda>e. Done (int e - int offset)))"

section \<open>Questions and answers\<close>

record resolv_question =
  rq_dotted :: "string option"
  rq_qtype :: int
  rq_qclass :: int

definition encode_question :: "resolv_question \<Rightarrow> int \<Rightarrow> int \<times> u8 list" where
  "encode_question q maxlen =
     (let (i, bs) = encode_dotted (rq_dotted q) maxlen
      in if i < 0 then (i, bs)
         else if maxlen - i < 4 then (-1, bs)
         else (i + 4, bs @ [hi8 (rq_qtype q), lo8 (rq_qtype q), hi8 (rq_qclass q), lo8 (rq_qclass q)]))"

definition length_question :: "u8 list \<Rightarrow> nat \<Rightarrow> int outcome" where
  "length_question message offset =
     obind (length_dotted (Some message) offset) (\<lambda>i. Done (if i < 0 then i else i + 4))"

text \<open>
  \<open>struct resolv_answer\<close>: \<open>dotted\<close> is the block \<open>strdup\<close> made, with an identity of its own;
  \<open>buf\<close> is the caller's buffer (\<open>None\<close> for a null pointer), of \<open>buflen\<close> bytes.
\<close>

record resolv_answer =
  ra_dotted :: string
  ra_block :: nat
  ra_atype :: int
  ra_aclass :: int
  ra_ttl :: int
  ra_rdlength :: int
  ra_rdata :: nat
  ra_rdoffset :: int
  ra_buf :: "u8 list option"
  ra_buflen :: nat
  ra_add_count :: nat

text \<open>The C string in a buffer of which only a prefix was written; without a terminator reading it
  runs into uninitialised bytes.\<close>

definition c_string :: "u8 list \<Rightarrow> string outcome" where
  "c_string bs = (if 0 \<in> set bs then Done (map char_of_byte (takeWhile (\<lambda>b. b \<noteq> 0) bs)) else Crash)"

definition be32s :: "u8 \<Rightarrow> u8 \<Rightarrow> u8 \<Rightarrow> u8 \<Rightarrow> int" where
  "be32s a b c d =
     sint (push_bit 24 (ucast a) OR push_bit 16 (ucast b) OR push_bit 8 (ucast c) OR ucast d :: u32)"

definition decode_answer ::
    "nat \<Rightarrow> nat \<Rightarrow> u8 list \<Rightarrow> nat \<Rightarrow> (int \<times> resolv_answer option) outcome" where
  "decode_answer fuel block message offset =
     obind (decode_dotted fuel (Some message) offset 256) (\<lambda>(i, temp).
       if i < 0 then Done (i, None)
       else
         obind (c_string temp) (\<lambda>name.
         obind (rd_block message (offset + nat i) 10) (\<lambda>m.
           let rdlength = be16 (m ! 8) (m ! 9)
           in Done (i + RRFIXEDSZ + rdlength,
                Some \<lparr>ra_dotted = name, ra_block = block,
                      ra_atype = be16 (m ! 0) (m ! 1), ra_aclass = be16 (m ! 2) (m ! 3),
                      ra_ttl = be32s (m ! 4) (m ! 5) (m ! 6) (m ! 7), ra_rdlength = rdlength,
                      ra_rdata = offset + nat i + 10, ra_rdoffset = int offset + i + RRFIXEDSZ,
                      ra_buf = None, ra_buflen = 0, ra_add_count = 0\<rparr>))))"

section \<open>Header round trip\<close>

definition header_in_range :: "resolv_header \<Rightarrow> bool" where
  "header_in_range h \<longleftrightarrow>
     (\<forall>x \<in> {rh_id h, rh_qdcount h, rh_ancount h, rh_nscount h, rh_arcount h}. 0 \<le> x \<and> x < 65536) \<and>
     (\<forall>x \<in> {rh_qr h, rh_aa h, rh_tc h, rh_rd h, rh_ra h}. x = 0 \<or> x = 1) \<and>
     (\<forall>x \<in> {rh_opcode h, rh_rcode h}. 0 \<le> x \<and> x < 16)"

lemma be16_bytes:
  assumes "0 \<le> x" and "x < 65536"
  shows "be16 (hi8 x) (lo8 x) = x"
proof -
  have lt: "n < 16" if "bit x n" for n
  proof -
    have "x = take_bit 16 x" using assms by (simp add: take_bit_int_eq_self)
    then show ?thesis using that by (metis bit_take_bit_iff)
  qed
  have c: "bit (0xff00 :: int) n \<longleftrightarrow> 8 \<le> n \<and> n < 16" for n
  proof -
    have "(0xff00 :: int) = push_bit 8 (mask 8)" by (simp add: mask_eq_exp_minus_1 push_bit_eq_mult)
    then show ?thesis by (simp only: bit_push_bit_iff bit_mask_iff) auto
  qed
  have d: "bit (0x00ff :: int) n \<longleftrightarrow> n < 8" for n
  proof -
    have "(0x00ff :: int) = mask 8" by (simp add: mask_eq_exp_minus_1)
    then show ?thesis by (simp only: bit_mask_iff) auto
  qed
  show ?thesis
    by (rule bit_eqI, auto simp: be16_def hi8_def lo8_def bit_or_iff bit_push_bit_iff bit_and_iff
        bit_drop_bit_eq c d uint_word_of_int_eq bit_take_bit_iff, (frule lt, simp)+)
qed

lemma bit_push_one: "k < 8 \<Longrightarrow> bit (push_bit k (1 :: u8)) n \<longleftrightarrow> n = k"
  by (simp add: bit_exp_iff) auto

lemma single_bits:
  "(0x80 :: u8) = push_bit 7 1" "(0x04 :: u8) = push_bit 2 1"
  "(0x02 :: u8) = push_bit 1 1" "(0x01 :: u8) = push_bit 0 1"
  by (simp_all add: push_bit_eq_mult)

lemma bit_single [simp]:
  "bit (0x80 :: u8) n \<longleftrightarrow> n = 7" "bit (0x04 :: u8) n \<longleftrightarrow> n = 2"
  "bit (0x02 :: u8) n \<longleftrightarrow> n = 1" "bit (0x01 :: u8) n \<longleftrightarrow> n = 0"
  by (subst single_bits, rule bit_push_one, simp)+

lemma bit_single_int [simp]:
  "bit (128 :: int) n \<longleftrightarrow> n = 7" "bit (4 :: int) n \<longleftrightarrow> n = 2" "bit (2 :: int) n \<longleftrightarrow> n = 1"
proof -
  have "(128 :: int) = 2 ^ 7" "(4 :: int) = 2 ^ 2" "(2 :: int) = 2 ^ 1" by simp_all
  then show "bit (128 :: int) n \<longleftrightarrow> n = 7" "bit (4 :: int) n \<longleftrightarrow> n = 2" "bit (2 :: int) n \<longleftrightarrow> n = 1"
    by (metis bit_exp_iff possible_bit_int)+
qed

lemma and_single:
  fixes b m :: u8
  assumes "\<And>n. bit m n \<longleftrightarrow> n = k"
  shows "b AND m \<noteq> 0 \<longleftrightarrow> bit b k"
proof -
  have "bit (b AND m) n \<longleftrightarrow> n = k \<and> bit b k" for n using assms by (auto simp: bit_and_iff)
  then show ?thesis by (metis bit_0_eq bit_eqI bot_apply bot_bool_def)
qed

lemma bit_of_bit:
  "bit_of b 0x80 = of_bool (bit b 7)" "bit_of b 0x04 = of_bool (bit b 2)"
  "bit_of b 0x02 = of_bool (bit b 1)" "bit_of b 0x01 = of_bool (bit b 0)"
  using and_single [OF bit_single(1), of b] and_single [OF bit_single(2), of b]
    and_single [OF bit_single(3), of b] and_single [OF bit_single(4), of b]
  by (simp_all only: bit_of_def if_True if_False of_bool_def)

lemma bit_15: "bit (15 :: int) n \<longleftrightarrow> n < 4" "bit (15 :: u8) n \<longleftrightarrow> n < 4"
proof -
  have "(15 :: int) = mask 4" "(15 :: u8) = mask 4" by (simp_all add: mask_eq_exp_minus_1)
  then show "bit (15 :: int) n \<longleftrightarrow> n < 4" "bit (15 :: u8) n \<longleftrightarrow> n < 4"
    by (simp_all only: bit_mask_iff) auto
qed

lemma bit_nibble: "bit (word_of_int (x AND 15) :: u8) n \<longleftrightarrow> n < 4 \<and> bit x n"
  by (auto simp: bit_word_of_int_iff bit_and_iff bit_15)

lemma bit_flag8 [simp]: "bit (flag8 x m) n \<longleftrightarrow> x \<noteq> 0 \<and> bit m n"
  by (simp add: flag8_def)

lemma nibble_bit:
  assumes "0 \<le> x" and "x < 16" and "bit (x :: int) n"
  shows "n < 4"
proof -
  have "x = take_bit 4 x" using assms(1,2) by (simp add: take_bit_int_eq_self)
  then show ?thesis using assms(3) by (metis bit_take_bit_iff)
qed

text \<open>C14. A header whose fields are in range survives encoding and decoding: \<open>__decode_header\<close> of the
  twelve bytes \<open>__encode_header\<close> writes gives the header back, whatever follows them in the packet;
  a buffer below twelve bytes is refused.\<close>

theorem header_roundtrip:
  assumes "header_in_range h"
  shows "(12 \<le> maxlen \<longrightarrow>
            (case encode_header h maxlen of (n, bs) \<Rightarrow>
               n = 12 \<and> length bs = 12 \<and> decode_header (bs @ rest) = Done (12, h))) \<and>
         (maxlen < 12 \<longrightarrow> encode_header h maxlen = (-1, []))"
proof -
  note R = assms [unfolded header_in_range_def]
  let ?b2 = "flag8 (rh_qr h) 0x80 OR push_bit 3 (word_of_int (rh_opcode h AND 0x0f)) OR
           flag8 (rh_aa h) 0x04 OR flag8 (rh_tc h) 0x02 OR flag8 (rh_rd h) 0x01"
  let ?b3 = "flag8 (rh_ra h) 0x80 OR word_of_int (rh_rcode h AND 0x0f)"
  have fl: "of_bool (x \<noteq> 0) = x" if "x = 0 \<or> x = 1" for x :: int using that by auto
  have flags: "bit_of ?b2 0x80 = rh_qr h" "bit_of ?b2 0x04 = rh_aa h" "bit_of ?b2 0x02 = rh_tc h"
    "bit_of ?b2 0x01 = rh_rd h" "bit_of ?b3 0x80 = rh_ra h"
    using R by (simp_all add: bit_of_bit bit_or_iff bit_push_bit_iff bit_nibble fl)
  have field: "uint (drop_bit k w AND 0x0f) = x"
    if "\<And>n. n < 4 \<Longrightarrow> bit (w :: u8) (k + n) \<longleftrightarrow> bit x n" "0 \<le> x" "x < 16" for k w x
  proof (rule bit_eqI)
    fix n
    have "bit (uint (drop_bit k w AND 0x0f)) n \<longleftrightarrow> n < 4 \<and> bit w (k + n)"
      by (simp only: bit_uint_iff bit_and_iff bit_15 bit_drop_bit_eq comp_apply) auto
    then show "bit (uint (drop_bit k w AND 0x0f)) n \<longleftrightarrow> bit x n"
      using that(1) [of n] nibble_bit [OF that(2,3), of n] by blast
  qed
  have op: "uint (drop_bit 3 ?b2 AND 0x0f) = rh_opcode h"
    by (rule field) (use R in \<open>auto simp: bit_or_iff bit_push_bit_iff bit_nibble\<close>)
  have rc: "uint (?b3 AND 0x0f) = rh_rcode h"
    using field [where k = 0 and w = ?b3 and x = "rh_rcode h"] R by (simp add: bit_or_iff bit_nibble)
  have w: "be16 (hi8 x) (lo8 x) = x"
    if "x \<in> {rh_id h, rh_qdcount h, rh_ancount h, rh_nscount h, rh_arcount h}" for x
    using R that be16_bytes by blast
  show ?thesis
    using flags op rc w
    by (simp add: encode_header_def HFIXEDSZ_def decode_header_def decode_header_bytes_def)
qed

theorem header_roundtrip_witness:
  "decode_header (snd (encode_header \<lparr>rh_id = 0xBEEF, rh_qr = 1, rh_opcode = 5, rh_aa = 0, rh_tc = 1, rh_rd = 1,
      rh_ra = 0, rh_rcode = 3, rh_qdcount = 1, rh_ancount = 300, rh_nscount = 0, rh_arcount = 65535\<rparr> 512) @ [7, 7]) =
   Done (12, \<lparr>rh_id = 0xBEEF, rh_qr = 1, rh_opcode = 5, rh_aa = 0, rh_tc = 1, rh_rd = 1,
      rh_ra = 0, rh_rcode = 3, rh_qdcount = 1, rh_ancount = 300, rh_nscount = 0, rh_arcount = 65535\<rparr>)"
  using header_roundtrip [of "\<lparr>rh_id = 0xBEEF, rh_qr = 1, rh_opcode = 5, rh_aa = 0, rh_tc = 1, rh_rd = 1,
      rh_ra = 0, rh_rcode = 3, rh_qdcount = 1, rh_ancount = 300, rh_nscount = 0, rh_arcount = 65535\<rparr>" 512 "[7, 7]"]
  by (simp add: header_in_range_def split_def)

end
