(* ===== verification/Dns_Names.thy ===== *)
theory Dns_Names
  imports Dns_Codec
begin

text \<open>
  Names on the wire: the abstract form (a list of labels), the laws of a prefix-free codec as an
  interface, its instance for dotted names of eloop/dns.c, and what the decoder does with
  pointer loops and with the root name.
\<close>

section \<open>The interface of a codec\<close>

text \<open>
  A decoder that reads an encoded value at an offset of a larger message gives the value and the
  number of bytes it occupies; then a value can be read back wherever it was written, and encodings
  that start a common message are equal.
\<close>

locale prefix_codec =
  fixes valid :: "'a \<Rightarrow> bool"
    and enc :: "'a \<Rightarrow> 'b list"
    and dec :: "'b list \<Rightarrow> nat \<Rightarrow> ('a \<times> nat) option"
  assumes dec_enc: "valid x \<Longrightarrow> dec (pre @ enc x @ suf) (length pre) = Some (x, length (enc x))"
begin

lemma enc_prefix_free:
  assumes "valid x" and "valid y" and "enc x @ s = enc y @ t"
  shows "x = y \<and> s = t"
proof -
  from dec_enc [OF assms(1), of "[]" s] dec_enc [OF assms(2), of "[]" t] assms(3)
  have "x = y" by simp
  with assms(3) show ?thesis by simp
qed

lemma enc_inj: "valid x \<Longrightarrow> valid y \<Longrightarrow> enc x = enc y \<Longrightarrow> x = y"
  using enc_prefix_free [of x y "[]" "[]"] by simp

lemma dec_two:
  assumes "valid x" and "valid y"
  shows "dec (enc x @ enc y @ suf) 0 = Some (x, length (enc x)) \<and>
         dec (enc x @ enc y @ suf) (length (enc x)) = Some (y, length (enc y))"
  using dec_enc [OF assms(1), of "[]" "enc y @ suf"] dec_enc [OF assms(2), of "enc x" suf] by simp

end

section \<open>Names as labels\<close>

fun join_dots :: "string list \<Rightarrow> string" where
  "join_dots [] = []"
| "join_dots [l] = l"
| "join_dots (l # ls) = l @ DOT # join_dots ls"

definition label_ok :: "string \<Rightarrow> bool" where
  "label_ok l \<longleftrightarrow> l \<noteq> [] \<and> length l \<le> 63 \<and> DOT \<notin> set l \<and> CHR 0x00 \<notin> set l"

definition name_ok :: "string list \<Rightarrow> bool" where
  "name_ok ls \<longleftrightarrow> ls \<noteq> [] \<and> (\<forall>l \<in> set ls. label_ok l)"

definition wire :: "string list \<Rightarrow> u8 list" where
  "wire ls = concat (map (\<lambda>l. word_of_nat (length l) # map byte_of l) ls)"

lemma wire_simps [simp]:
  "wire [] = []" "wire (l # ls) = word_of_nat (length l) # map byte_of l @ wire ls"
  by (simp_all add: wire_def)

lemma takeWhile_label:
  "DOT \<notin> set l \<Longrightarrow> takeWhile (\<lambda>c. c \<noteq> DOT) (l @ DOT # r) = l \<and> dropWhile (\<lambda>c. c \<noteq> DOT) (l @ DOT # r) = DOT # r"
  by (induction l) auto

lemma takeWhile_last:
  "DOT \<notin> set l \<Longrightarrow> takeWhile (\<lambda>c. c \<noteq> DOT) l = l \<and> dropWhile (\<lambda>c. c \<noteq> DOT) l = []"
  by (induction l) auto

lemma encode_dotted_from_wire:
  "\<forall>l \<in> set ls. label_ok l \<Longrightarrow> int (length acc) + int (length (wire ls)) < maxlen \<Longrightarrow>
   encode_dotted_from (join_dots ls) maxlen acc =
     (int (length acc) + int (length (wire ls)) + 1, acc @ wire ls @ [0])"
proof (induction ls arbitrary: acc rule: join_dots.induct)
  case 1
  then show ?case by (subst encode_dotted_from.simps) simp
next
  case (2 l)
  then have l: "l \<noteq> []" "DOT \<notin> set l" by (simp_all add: label_ok_def)
  note T = conjunct1 [OF takeWhile_last [OF l(2)]] conjunct2 [OF takeWhile_last [OF l(2)]]
  from 2 l(1) show ?case by (subst encode_dotted_from.simps) (simp add: Let_def T)
next
  case (3 l k ls)
  let ?acc = "acc @ word_of_nat (length l) # map byte_of l"
  from 3 have l: "l \<noteq> []" "DOT \<notin> set l" by (simp_all add: label_ok_def)
  have "encode_dotted_from (join_dots (k # ls)) maxlen ?acc =
      (int (length ?acc) + int (length (wire (k # ls))) + 1, ?acc @ wire (k # ls) @ [0])"
    using 3 by (intro "3.IH") simp_all
  moreover have "\<not> int (length l) \<ge> maxlen - int (length acc) - 1" using "3.prems"(2) by simp
  ultimately show ?case
    using takeWhile_label [OF l(2), of "join_dots (k # ls)"]
    by (subst encode_dotted_from.simps) (simp add: Let_def l(1))
qed

lemma unat_label: "length l \<le> 63 \<Longrightarrow> unat (word_of_nat (length l) :: u8) = length l"
  by (simp add: unat_of_nat take_bit_nat_eq_self)

lemma uint_label: "length l \<le> 63 \<Longrightarrow> uint (word_of_nat (length l) :: u8) = int (length l)"
  using unat_label [of l] by (simp flip: uint_nat) (simp add: uint_nat)

lemma label_not_pointer:
  assumes "unat (w :: u8) \<le> 63"
  shows "w AND 0xc0 \<noteq> 0xc0"
proof -
  have "w < 64" using assms by (simp add: word_less_nat_alt)
  then have "w AND mask 6 = w" by (simp add: less_mask_eq)
  then have "w AND 0xc0 = w AND (mask 6 AND 0xc0)" by (metis and.assoc)
  also have "(mask 6 AND 0xc0 :: u8) = 0" by (simp add: mask_eq_exp_minus_1)
  finally show ?thesis by simp
qed

lemma label_nonzero: "label_ok l \<Longrightarrow> (word_of_nat (length l) :: u8) \<noteq> 0"
  using unat_label [of l] by (auto simp: label_ok_def)

lemma drop_next: "drop i data = x # xs \<Longrightarrow> drop (Suc i) data = xs"
  by (simp add: drop_Suc flip: tl_drop)

lemma drop_block: "drop i data = xs @ ys \<Longrightarrow> drop (i + length xs) data = ys"
  by (metis add.commute append_eq_conv_conj drop_drop)

lemma rd_drop: "drop i data = x # xs \<Longrightarrow> rd data i = Done x"
proof -
  assume d: "drop i data = x # xs"
  then have "i < length data" by (metis drop_eq_Nil leI list.distinct(1))
  with d show ?thesis by (simp add: rd_def Cons_nth_drop_Suc [symmetric])
qed

lemma rd_block_drop:
  assumes d: "drop i data = xs @ ys" and "ys \<noteq> []"
  shows "rd_block data i (length xs) = Done xs"
proof -
  have "length data - i = length xs + length ys" using d by (metis length_append length_drop)
  moreover have "length ys \<noteq> 0" using assms(2) by simp
  ultimately have "i + length xs \<le> length data" by linarith
  with d show ?thesis by (simp add: rd_block_def)
qed

section \<open>Decoding what was encoded\<close>

definition name_bytes :: "string list \<Rightarrow> u8 list" where
  "name_bytes ls = (if ls = [] then [] else map byte_of (join_dots ls) @ [0])"

lemma decode_dotted_from_wire:
  "\<forall>l \<in> set ls. label_ok l \<Longrightarrow> drop off data = wire ls @ 0 # suf \<Longrightarrow>
   int (length dest) + int (length (wire ls)) < maxlen \<Longrightarrow> length ls < fuel \<Longrightarrow>
   decode_dotted_from fuel data off maxlen meas t dest =
     Done (if meas then t + int (length (wire ls)) + 1 else t, dest @ name_bytes ls)"
proof (induction ls arbitrary: off fuel t dest)
  case Nil
  then obtain n where "fuel = Suc n" using gr0_conv_Suc by auto
  moreover have "rd data off = Done 0" using Nil.prems(2) by (intro rd_drop) simp
  ultimately show ?case by (simp add: name_bytes_def)
next
  case (Cons l ls)
  from Cons.prems(4) obtain n where fuel: "fuel = Suc n" and n: "length ls < n" by (cases fuel) auto
  let ?w = "word_of_nat (length l) :: u8"
  let ?rest = "wire ls @ 0 # suf"
  have l: "label_ok l" and len: "length l \<le> 63" using Cons.prems(1) by (simp_all add: label_ok_def)
  have uw: "unat ?w = length l" and iw: "uint ?w = int (length l)"
    using unat_label [OF len] uint_label [OF len] by simp_all
  have d0: "drop off data = ?w # (map byte_of l @ ?rest)" using Cons.prems(2) by simp
  then have d1: "drop (off + 1) data = map byte_of l @ ?rest" using drop_next by simp
  then have d2: "drop (off + 1 + length l) data = ?rest" using drop_block by fastforce
  have r0: "rd data off = Done ?w" using d0 by (rule rd_drop)
  have r1: "rd_block data (off + 1) (length l) = Done (map byte_of l)"
    using rd_block_drop [OF d1] by simp
  have np: "?w AND 0xc0 \<noteq> 0xc0" using uw len by (intro label_not_pointer) simp
  have nz: "?w \<noteq> 0" using l by (rule label_nonzero)
  have fits: "\<not> int (length dest) + uint ?w + 1 \<ge> maxlen" using Cons.prems(3) iw by simp
  obtain nx where r2: "rd data (off + 1 + length l) = Done nx"
    and nb: "name_bytes (l # ls) = map byte_of l @ [if nx \<noteq> 0 then byte_of DOT else 0] @ name_bytes ls"
  proof (cases ls)
    case Nil
    then have "rd data (off + 1 + length l) = Done 0" using d2 by (intro rd_drop) simp
    with Nil that [of 0] show ?thesis by (simp add: name_bytes_def)
  next
    case (Cons k ls')
    then have "rd data (off + 1 + length l) = Done (word_of_nat (length k))" using d2 by (intro rd_drop) simp
    moreover have "(word_of_nat (length k) :: u8) \<noteq> 0" using Cons.prems(1) Cons by (intro label_nonzero) simp
    ultimately show ?thesis using Cons that [of "word_of_nat (length k)"] by (simp add: name_bytes_def)
  qed
  let ?dest = "dest @ map byte_of l @ [if nx \<noteq> 0 then byte_of DOT else 0]"
  let ?t = "if meas then (if meas then t + 1 else t) + uint ?w else (if meas then t + 1 else t)"
  have "decode_dotted_from n data (off + 1 + length l) maxlen meas ?t ?dest =
      Done (if meas then ?t + int (length (wire ls)) + 1 else ?t, ?dest @ name_bytes ls)"
    using Cons.prems(1,3) d2 n by (intro Cons.IH) simp_all
  then show ?case
    unfolding fuel nb decode_dotted_from.simps(2) r0 obind.simps uw
    using nz np fits r1 r2 iw by (simp add: Let_def)
qed

section \<open>Characters\<close>

lemma unat_byte_of: "unat (byte_of c) = (of_char c :: nat)"
proof -
  have "byte_of c = word_of_nat (of_char c)" by (simp only: byte_of_def of_nat_of_char)
  then show ?thesis using nat_of_char_less_256 [of c] by (simp add: unat_of_nat take_bit_nat_eq_self)
qed

lemma char_of_byte_of [simp]: "char_of_byte (byte_of c) = c"
  by (simp add: char_of_byte_def unat_byte_of)

lemma byte_of_0: "byte_of c = 0 \<longleftrightarrow> c = CHR 0x00"
proof
  assume "byte_of c = 0"
  then have "(of_char c :: nat) = 0" using unat_byte_of [of c] by simp
  then have "c = char_of (0 :: nat)" by (metis char_of_char)
  then show "c = CHR 0x00" by (simp add: char_of_def)
next
  assume "c = CHR 0x00"
  then show "byte_of c = 0" by (simp add: byte_of_def)
qed

lemma join_dots_chars:
  "set (join_dots ls) \<subseteq> insert DOT (\<Union> (set ` set ls))"
  by (induction ls rule: join_dots.induct) auto

lemma DOT_nonzero: "DOT \<noteq> CHR 0x00"
  by (simp add: DOT_def)

lemma c_string_name_bytes:
  assumes "name_ok ls"
  shows "c_string (name_bytes ls) = Done (join_dots ls)"
proof -
  have "CHR 0x00 \<notin> set (join_dots ls)"
    using assms join_dots_chars [of ls] DOT_nonzero by (auto simp: name_ok_def label_ok_def)
  then have nz: "\<forall>b \<in> set (map byte_of (join_dots ls)). b \<noteq> 0" by (auto simp: byte_of_0)
  then have "takeWhile (\<lambda>b. b \<noteq> 0) (map byte_of (join_dots ls) @ [0]) = map byte_of (join_dots ls)"
    by (subst takeWhile_append2) auto
  then show ?thesis using assms by (simp add: c_string_def name_bytes_def name_ok_def comp_def)
qed

section \<open>The codec of names\<close>

text \<open>The names the wire format can carry to a decoder with a buffer of 256 bytes.\<close>

definition sendable :: "string \<Rightarrow> bool" where
  "sendable s \<longleftrightarrow> (\<exists>ls. name_ok ls \<and> length (wire ls) < 256 \<and> s = join_dots ls)"

definition name_enc :: "string \<Rightarrow> u8 list" where
  "name_enc s = snd (encode_dotted (Some s) 512)"

definition name_dec :: "u8 list \<Rightarrow> nat \<Rightarrow> (string \<times> nat) option" where
  "name_dec data off =
     (case decode_dotted (Suc (length data)) (Some data) off 256 of
        Done (n, bs) \<Rightarrow>
          (if n < 0 then None else (case c_string bs of Done s \<Rightarrow> Some (s, nat n) | _ \<Rightarrow> None))
      | _ \<Rightarrow> None)"

lemma encode_name:
  assumes "name_ok ls" and "int (length (wire ls)) < maxlen"
  shows "encode_dotted (Some (join_dots ls)) maxlen = (int (length (wire ls)) + 1, wire ls @ [0])"
  using encode_dotted_from_wire [of ls "[]" maxlen] assms by (simp add: encode_dotted_def name_ok_def)

lemma length_wire: "length ls \<le> length (wire ls)"
  by (induction ls) auto

lemma decode_name:
  assumes "name_ok ls" and "int (length (wire ls)) < maxlen" and "length ls < fuel"
  shows "decode_dotted fuel (Some (pre @ wire ls @ 0 # suf)) (length pre) maxlen =
           Done (int (length (wire ls)) + 1, map byte_of (join_dots ls) @ [0])"
  using decode_dotted_from_wire [of ls "length pre" "pre @ wire ls @ 0 # suf" suf "[]" maxlen fuel True 0] assms
  by (simp add: decode_dotted_def name_ok_def name_bytes_def)

interpretation names: prefix_codec sendable name_enc name_dec
proof
  fix s pre suf
  assume "sendable s"
  then obtain ls where ls: "name_ok ls" "length (wire ls) < 256" "s = join_dots ls" by (auto simp: sendable_def)
  have e: "name_enc s = wire ls @ [0]" using encode_name [OF ls(1), of 512] ls(2,3) by (simp add: name_enc_def)
  have "length ls < Suc (length (pre @ wire ls @ 0 # suf))" using length_wire [of ls] by simp
  from decode_name [OF ls(1) _ this, of 256] ls(2)
  have d: "decode_dotted (Suc (length (pre @ wire ls @ 0 # suf))) (Some (pre @ wire ls @ 0 # suf)) (length pre) 256 =
      Done (int (length (wire ls)) + 1, map byte_of (join_dots ls) @ [0])" by simp
  have c: "c_string (map byte_of (join_dots ls) @ [0]) = Done (join_dots ls)"
    using c_string_name_bytes [OF ls(1)] ls(1) by (simp add: name_bytes_def name_ok_def)
  show "name_dec (pre @ name_enc s @ suf) (length pre) = Some (s, length (name_enc s))"
    unfolding name_dec_def e append_assoc append_Cons append_Nil d using c ls(3) by simp
qed

definition header_enc :: "resolv_header \<Rightarrow> u8 list" where
  "header_enc h = snd (encode_header h 512)"

definition header_dec :: "u8 list \<Rightarrow> nat \<Rightarrow> (resolv_header \<times> nat) option" where
  "header_dec data off = (case decode_header (drop off data) of Done (n, h) \<Rightarrow> Some (h, nat n) | _ \<Rightarrow> None)"

interpretation header: prefix_codec header_in_range header_enc header_dec
proof
  fix h pre suf
  assume "header_in_range h"
  from header_roundtrip [OF this, of 512 suf]
  show "header_dec (pre @ header_enc h @ suf) (length pre) = Some (h, length (header_enc h))"
    by (auto simp: header_dec_def header_enc_def split: prod.splits)
qed

lemma length_dotted_from_wire:
  "\<forall>l \<in> set ls. label_ok l \<Longrightarrow> drop off data = wire ls @ 0 # suf \<Longrightarrow>
   length_dotted_from data off = Done (off + length (wire ls) + 1)"
proof (induction ls arbitrary: off)
  case Nil
  then have "drop off data = 0 # suf" by simp
  then have "off < length data" "data ! off = 0" by (metis drop_eq_Nil leI list.distinct(1), metis nth_via_drop)
  then show ?case by (subst length_dotted_from.simps) simp
next
  case (Cons l ls)
  let ?w = "word_of_nat (length l) :: u8"
  have l: "label_ok l" and len: "length l \<le> 63" using Cons.prems(1) by (simp_all add: label_ok_def)
  have d0: "drop off data = ?w # (map byte_of l @ wire ls @ 0 # suf)" using Cons.prems(2) by simp
  then have off: "off < length data" "data ! off = ?w"
    by (metis drop_eq_Nil leI list.distinct(1), metis nth_via_drop)
  from d0 have "drop (off + 1) data = map byte_of l @ wire ls @ 0 # suf" using drop_next by simp
  then have "drop (off + 1 + length l) data = wire ls @ 0 # suf" using drop_block by fastforce
  with Cons have "length_dotted_from data (off + 1 + length l) = Done (off + 1 + length l + length (wire ls) + 1)"
    by simp
  moreover have "?w AND 0xc0 \<noteq> 0xc0" using unat_label [OF len] len by (intro label_not_pointer) simp
  ultimately show ?case
    using off label_nonzero [OF l] unat_label [OF len] by (subst length_dotted_from.simps) (simp add: Let_def)
qed

section \<open>Properties\<close>

text \<open>C15. Round trip of dotted names: a name of labels of 1 to 63 characters that takes less than 256
  bytes on the wire is encoded, wherever it stands in a message the decoder gives back the same
  dotted name, zero-terminated, and both decoder and \<open>__length_dotted\<close> consume exactly the bytes the
  encoder wrote; as many decoding rounds as labels plus one are enough.\<close>

theorem dotted_name_roundtrip:
  assumes "name_ok ls" and "length (wire ls) < 256"
  shows "case encode_dotted (Some (join_dots ls)) 256 of (n, bs) \<Rightarrow>
     n = int (length bs) \<and>
     decode_dotted (Suc (length ls)) (Some (pre @ bs @ suf)) (length pre) 256 =
       Done (n, map byte_of (join_dots ls) @ [0]) \<and>
     c_string (map byte_of (join_dots ls) @ [0]) = Done (join_dots ls) \<and>
     length_dotted (Some (pre @ bs @ suf)) (length pre) = Done n"
proof -
  have c: "c_string (map byte_of (join_dots ls) @ [0]) = Done (join_dots ls)"
    using c_string_name_bytes [OF assms(1)] assms(1) by (simp add: name_bytes_def name_ok_def)
  have l: "length_dotted_from (pre @ wire ls @ 0 # suf) (length pre) = Done (length pre + length (wire ls) + 1)"
    using assms(1) by (intro length_dotted_from_wire) (simp_all add: name_ok_def)
  show ?thesis
    using encode_name [OF assms(1), of 256] decode_name [OF assms(1), of 256 "Suc (length ls)" pre suf] c l assms(2)
    by (simp add: length_dotted_def)
qed

definition demo_name :: "string list" where
  "demo_name = [''www'', ''example'', ''com'']"

theorem dotted_name_roundtrip_witness:
  "case encode_dotted (Some (join_dots demo_name)) 256 of (n, bs) \<Rightarrow>
     n = 17 \<and> decode_dotted 4 (Some ([1, 2] @ bs @ [9])) 2 256 =
       Done (17, map byte_of (join_dots demo_name) @ [0])"
proof -
  have n: "name_ok demo_name" by (simp add: demo_name_def name_ok_def label_ok_def DOT_def)
  have len: "length (wire demo_name) = 16" "length demo_name = 3" by (simp_all add: demo_name_def)
  then have w: "length (wire demo_name) < 256" by simp
  have e: "encode_dotted (Some (join_dots demo_name)) 256 = (17, wire demo_name @ [0])"
    using encode_name [OF n, of 256] len by simp
  have k: "Suc (length demo_name) = 4" "length [1 :: u8, 2] = 2" using len by simp_all
  from dotted_name_roundtrip [OF n w, of "[1, 2]" "[9]"] show ?thesis
    unfolding e k by simp
qed

text \<open>A compression pointer that points at itself makes \<open>__decode_dotted\<close> loop for ever: no number
  of rounds is enough, so one reply packet stops the resolver.\<close>

lemma self_pointer_never_decoded:
  assumes "off + 1 < length data" and "data ! off AND 0xc0 = 0xc0"
    and "nat (push_bit 8 (uint (data ! off AND 0x3f)) OR uint (data ! (off + 1))) = off"
  shows "decode_dotted fuel (Some data) off maxlen = OutOfFuel"
proof -
  have nz: "data ! off \<noteq> 0" using assms(2) by auto
  have "decode_dotted_from n data off maxlen meas t dest = OutOfFuel" for n meas t dest
    using assms nz by (induction n arbitrary: meas t) (auto simp: rd_def Let_def)
  then show ?thesis by (simp add: decode_dotted_def)
qed

lemma self_pointer_never_decoded_witness:
  "decode_dotted 100000 (Some (replicate 12 0 @ [0xc0, 0x0c, 0, 1])) 12 256 = OutOfFuel"
  by (rule self_pointer_never_decoded) (simp_all add: nth_append)

text \<open>The empty (root) name is decoded without writing the buffer: an answer owned by the root
  makes \<open>__decode_answer\<close> copy an uninitialised buffer as a string.\<close>

lemma root_name_answer_reads_uninitialised:
  assumes "off < length data" and "data ! off = 0"
  shows "decode_dotted (Suc fuel) (Some data) off 256 = Done (1, []) \<and>
         decode_answer (Suc fuel) block data off = Crash"
  using assms by (simp add: decode_dotted_def decode_answer_def rd_def c_string_def)

lemma root_name_answer_reads_uninitialised_witness:
  "decode_answer 5 0 (replicate 12 0 @ [0, 0, 1, 0, 1, 0, 0, 0, 60, 0, 4, 127, 0, 0, 1]) 12 = Crash"
  using root_name_answer_reads_uninitialised [of 12 "replicate 12 0 @ [0, 0, 1, 0, 1, 0, 0, 0, 60, 0, 4, 127, 0, 0, 1]" 4 0]
  by (simp add: nth_append eval_nat_numeral)

end
