(* ===== verification/Dns_Lookup.thy ===== *)
theory Dns_Lookup
  imports Dns_Names
begin

text \<open>
  The resolver of eloop/dns.c: the configuration read from resolv.conf, the query with its search
  domain, the walk over the answers of a reply with the blocks it allocates and frees, the
  retry loop shared by \<open>__dns_lookup\<close> and \<open>__dns_lookup_async\<close>. What the network does in one
  round is a record \<open>try_env\<close>; a lookup consumes a list of them.
\<close>

section \<open>Name servers\<close>

definition MAX_SERVERS :: nat where "MAX_SERVERS = 3"
definition MAX_SEARCH :: nat where "MAX_SEARCH = 4"
definition RESOLV_ARGS :: nat where "RESOLV_ARGS = 5"
definition MAX_RETRIES :: int where "MAX_RETRIES = 1"

text \<open>The static arrays \<open>__nameserver\<close> and \<open>__searchdomain\<close> with their counters.\<close>

record resolv_conf =
  rc_ns :: "string option list"
  rc_nscount :: nat
  rc_sd :: "string option list"
  rc_sdcount :: nat

definition resolv_start :: resolv_conf where
  "resolv_start = \<lparr>rc_ns = replicate MAX_SERVERS None, rc_nscount = 0,
     rc_sd = replicate MAX_SEARCH None, rc_sdcount = 0\<rparr>"

definition is_space :: "char \<Rightarrow> bool" where
  "is_space c \<longleftrightarrow> (of_char c :: nat) \<in> {9, 10, 11, 12, 13, 32}"

text \<open>The words of a line, at most \<open>n\<close>; the rest of a longer line is not looked at.\<close>

fun words_upto :: "nat \<Rightarrow> string \<Rightarrow> string list" where
  "words_upto 0 s = []"
| "words_upto (Suc n) [] = []"
| "words_upto (Suc n) (c # s) =
     takeWhile (\<lambda>x. \<not> is_space x) (c # s) #
     words_upto n (dropWhile is_space (dropWhile (\<lambda>x. \<not> is_space x) (c # s)))"

text \<open>\<open>None\<close> for a blank line or a comment.\<close>

definition line_args :: "string \<Rightarrow> string list option" where
  "line_args line =
     (let p = dropWhile is_space line
      in case p of
           [] \<Rightarrow> None
         | c # _ \<Rightarrow> if c = CHR 0x0A \<or> c = CHR ''#'' then None else Some (words_upto RESOLV_ARGS p))"

fun add_servers :: "string list \<Rightarrow> resolv_conf \<Rightarrow> resolv_conf" where
  "add_servers [] c = c"
| "add_servers (a # as) c =
     (if rc_nscount c < MAX_SERVERS then
        add_servers as (c\<lparr>rc_ns := (rc_ns c)[rc_nscount c := Some a], rc_nscount := rc_nscount c + 1\<rparr>)
      else c)"

fun add_search :: "string list \<Rightarrow> resolv_conf \<Rightarrow> resolv_conf" where
  "add_search [] c = c"
| "add_search (a # as) c =
     (if rc_sdcount c < MAX_SEARCH then
        add_search as (c\<lparr>rc_sd := (rc_sd c)[rc_sdcount c := Some a], rc_sdcount := rc_sdcount c + 1\<rparr>)
      else c)"

text \<open>\<open>while (n > 0) { free(a[--n]); a[n] = NULL; }\<close>\<close>

fun clear_upto :: "nat \<Rightarrow> string option list \<Rightarrow> string option list" where
  "clear_upto 0 xs = xs"
| "clear_upto (Suc n) xs = clear_upto n (xs[n := None])"

definition clear_search :: "resolv_conf \<Rightarrow> resolv_conf" where
  "clear_search c = c\<lparr>rc_sd := clear_upto (rc_sdcount c) (rc_sd c), rc_sdcount := 0\<rparr>"

definition resolv_line :: "string list \<Rightarrow> resolv_conf \<Rightarrow> resolv_conf" where
  "resolv_line args c =
     (let c1 = (if hd args = ''nameserver'' then add_servers (tl args) c else c)
      in if hd args = ''domain'' \<or> hd args = ''search'' then add_search (tl args) (clear_search c1) else c1)"

fun resolv_lines :: "string list \<Rightarrow> resolv_conf \<Rightarrow> resolv_conf" where
  "resolv_lines [] c = c"
| "resolv_lines (l # ls) c =
     (case line_args l of None \<Rightarrow> resolv_lines ls c | Some args \<Rightarrow> resolv_lines ls (resolv_line args c))"

text \<open>
  \<open>file\<close> is what \<open>fgets\<close> with a buffer of 128 bytes gives for the first of the two files that can be
  opened, \<open>None\<close> when none can. The counter is reset without freeing the names.
\<close>

definition open_nameservers :: "string list option \<Rightarrow> resolv_conf \<Rightarrow> int \<times> resolv_conf" where
  "open_nameservers file c =
     (let c0 = c\<lparr>rc_nscount := 0\<rparr>
      in case file of Some ls \<Rightarrow> (0, resolv_lines ls c0) | None \<Rightarrow> (-1, c0))"

definition close_nameservers :: "resolv_conf \<Rightarrow> resolv_conf" where
  "close_nameservers c =
     clear_search (c\<lparr>rc_ns := clear_upto (rc_nscount c) (rc_ns c), rc_nscount := 0\<rparr>)"

definition nameserver_exist :: "int \<Rightarrow> resolv_conf \<Rightarrow> int outcome" where
  "nameserver_exist choice c =
     (if choice < 1 \<or> int (length (rc_ns c)) < choice then Crash
      else Done (case rc_ns c ! nat (choice - 1) of
                   Some s \<Rightarrow> (if length s \<ge> 7 then 1 else 0) | None \<Rightarrow> 0))"

section \<open>The query\<close>

definition PACKETSZ :: nat where "PACKETSZ = 512"
definition MAXDNAME :: nat where "MAXDNAME = 1025"

text \<open>\<open>strncpy(buf + off, src, n)\<close>: always \<open>n\<close> characters are written.\<close>

definition strncpy_at :: "string \<Rightarrow> nat \<Rightarrow> string \<Rightarrow> nat \<Rightarrow> string outcome" where
  "strncpy_at buf off src n =
     (if off + n \<le> length buf
      then Done (take off buf @ take n (src @ replicate n (CHR 0x00)) @ drop (off + n) buf)
      else Crash)"

text \<open>
  The buffer \<open>lookup\<close> of \<open>MAXDNAME\<close> characters for the name and, from the second round on, a search
  domain. The string in it must be terminated.
\<close>

definition build_lookup :: "string \<Rightarrow> int \<Rightarrow> resolv_conf \<Rightarrow> string outcome" where
  "build_lookup name variant c =
     obind (strncpy_at (replicate MAXDNAME (CHR 0x00)) 0 name MAXDNAME) (\<lambda>b0.
     obind (if 0 \<le> variant \<and> variant < int (rc_sdcount c) then
              obind (strncpy_at b0 (length name) ''.'' MAXDNAME) (\<lambda>b1.
                case rc_sd c ! nat variant of
                  None \<Rightarrow> Crash
                | Some sd \<Rightarrow> strncpy_at b1 (length name) sd MAXDNAME)
            else Done b0) (\<lambda>b.
       if CHR 0x00 \<in> set b then Done (takeWhile (\<lambda>x. x \<noteq> CHR 0x00) b) else Crash))"

definition query_header :: "int \<Rightarrow> resolv_header" where
  "query_header local_id =
     \<lparr>rh_id = local_id, rh_qr = 0, rh_opcode = 0, rh_aa = 0, rh_tc = 0, rh_rd = 1, rh_ra = 0,
      rh_rcode = 0, rh_qdcount = 1, rh_ancount = 0, rh_nscount = 0, rh_arcount = 0\<rparr>"

text \<open>The packet (zeroed, then header and question) and its length, \<open>None\<close> for \<open>goto fail\<close>.\<close>

definition build_query :: "int \<Rightarrow> int \<Rightarrow> string \<Rightarrow> (u8 list \<times> int) option" where
  "build_query local_id qtype lookup =
     (let (i, hb) = encode_header (query_header local_id) (int PACKETSZ)
      in if i < 0 then None
         else
           (let (j, qb) = encode_question \<lparr>rq_dotted = Some lookup, rq_qtype = qtype, rq_qclass = 1\<rparr>
                            (int PACKETSZ - i)
            in if j < 0 then None
               else Some (take PACKETSZ (hb @ qb @ replicate PACKETSZ 0), i + j)))"

section \<open>The answers of a reply\<close>

text \<open>The blocks \<open>strdup\<close> allocated for owner names.\<close>

record name_heap =
  nh_next :: nat
  nh_live :: "nat list"
  nh_bad :: bool

definition nh_alloc :: "name_heap \<Rightarrow> name_heap" where
  "nh_alloc h = h\<lparr>nh_next := nh_next h + 1, nh_live := nh_next h # nh_live h\<rparr>"

definition nh_free :: "nat \<Rightarrow> name_heap \<Rightarrow> name_heap" where
  "nh_free b h = (if b \<in> set (nh_live h) then h\<lparr>nh_live := remove1 b (nh_live h)\<rparr> else h\<lparr>nh_bad := True\<rparr>)"

definition T_A :: int where "T_A = 1"
definition T_SIG :: int where "T_SIG = 24"
definition T_AAAA :: int where "T_AAAA = 28"

lemmas record_types = T_A_def T_SIG_def T_AAAA_def

text \<open>\<open>memcpy\<close> of a further address into the caller's buffer.\<close>

definition copy_address :: "u8 list \<Rightarrow> resolv_answer \<Rightarrow> resolv_answer \<Rightarrow> resolv_answer outcome" where
  "copy_address packet a ma =
     (case ra_buf a of
        None \<Rightarrow> Crash
      | Some buf \<Rightarrow>
          (let n = nat (ra_rdlength ma); off = ra_add_count a * n
           in if off + n \<le> length buf then
                obind (rd_block packet (ra_rdata ma) n) (\<lambda>bs.
                  Done (a\<lparr>ra_buf := Some (take off buf @ bs @ drop (off + n) buf),
                          ra_add_count := ra_add_count a + 1\<rparr>))
              else Crash))"

text \<open>
  The loop over the answers with \<open>n\<close> left, from \<open>pos\<close>: \<open>False\<close> is \<open>goto again\<close>. \<open>f\<close> bounds the rounds
  of the name decoder.
\<close>

fun answers_from ::
    "nat \<Rightarrow> u8 list \<Rightarrow> int \<Rightarrow> nat \<Rightarrow> nat \<Rightarrow> bool \<Rightarrow> resolv_answer \<Rightarrow> name_heap \<Rightarrow>
     (bool \<times> resolv_answer \<times> name_heap) outcome" where
  "answers_from f packet ty 0 pos first a h = Done (True, a, h)"
| "answers_from f packet ty (Suc n) pos first a h =
     obind (decode_answer f (nh_next h) packet pos) (\<lambda>(i, r).
       case r of
         None \<Rightarrow> Done (False, a, h)
       | Some ma \<Rightarrow>
           (let h1 = nh_alloc h; pos' = pos + nat i
            in if first then
                 (let a1 = ma\<lparr>ra_buf := ra_buf a, ra_buflen := ra_buflen a, ra_add_count := ra_add_count a\<rparr>
                  in if ra_atype a1 \<noteq> T_SIG \<and> (ra_buf a = None \<or> (ty \<noteq> T_A \<and> ty \<noteq> T_AAAA)) then Done (True, a1, h1)
                     else if ra_atype a1 \<noteq> ty then
                       answers_from f packet ty n pos' True a1 (nh_free (ra_block a1) h1)
                     else if (ra_rdlength a1 + 8) * int n > int (ra_buflen a1) then
                       Done (True, a1\<lparr>ra_add_count := n\<rparr>, h1)
                     else answers_from f packet ty n pos' False (a1\<lparr>ra_add_count := 0\<rparr>) h1)
               else
                 (let h2 = nh_free (ra_block ma) h1
                  in if ra_atype ma \<noteq> ty then answers_from f packet ty n pos' False a h2
                     else if ra_rdlength a \<noteq> ra_rdlength ma then Done (False, a, nh_free (ra_block a) h2)
                     else obind (copy_address packet a ma) (\<lambda>a'. answers_from f packet ty n pos' False a' h2))))"

text \<open>Skipping the questions: \<open>None\<close> is \<open>goto again\<close>.\<close>

fun skip_questions :: "nat \<Rightarrow> u8 list \<Rightarrow> nat \<Rightarrow> nat option outcome" where
  "skip_questions 0 packet pos = Done (Some pos)"
| "skip_questions (Suc n) packet pos =
     obind (length_question packet pos) (\<lambda>i.
       if i < 0 then Done None else skip_questions n packet (pos + nat i))"

text \<open>The checks on a reply of \<open>len\<close> bytes in the packet buffer, and its answers.\<close>

definition handle_reply ::
    "nat \<Rightarrow> u8 list \<Rightarrow> nat \<Rightarrow> int \<Rightarrow> int \<Rightarrow> resolv_answer \<Rightarrow> name_heap \<Rightarrow>
     (bool \<times> resolv_answer \<times> name_heap) outcome" where
  "handle_reply f packet len local_id ty a h =
     (if int len < HFIXEDSZ then Done (False, a, h)
      else obind (decode_header packet) (\<lambda>(_, hd).
        if rh_id hd \<noteq> local_id \<or> rh_qr hd = 0 then Done (False, a, h)
        else if rh_rcode hd \<noteq> 0 \<or> rh_ancount hd < 1 then Done (False, a, h)
        else obind (skip_questions (nat (rh_qdcount hd)) packet 12) (\<lambda>q.
          case q of
            None \<Rightarrow> Done (False, a, h)
          | Some pos \<Rightarrow> answers_from f packet ty (nat (rh_ancount hd)) pos True a h)))"

section \<open>The retry loop\<close>

datatype connect_result = Connected | NetUnreachable | ConnectError

record try_env =
  te_socket_ok :: bool
  te_connect :: connect_result
  te_timeout :: bool
  te_recv :: "u8 list"

record lookup_state =
  lk_ns :: nat
  lk_id :: int
  lk_retries :: int
  lk_variant :: int

text \<open>\<open>LkPending\<close>: the loop goes on but the list of rounds is used up.\<close>

datatype lookup_result =
    LkFail lookup_state "nat list" name_heap
  | LkSuccess int "u8 list" resolv_answer lookup_state "nat list" name_heap
  | LkPending lookup_state

definition next_server :: "nat \<Rightarrow> lookup_state \<Rightarrow> lookup_state" where
  "next_server nscount st =
     (let k = (lk_ns st + 1) mod nscount
      in st\<lparr>lk_ns := k, lk_variant := -1,
            lk_retries := (if k = 0 then lk_retries st + 1 else lk_retries st)\<rparr>)"

definition next_search :: "nat \<Rightarrow> nat \<Rightarrow> lookup_state \<Rightarrow> lookup_state" where
  "next_search nscount sdomains st =
     (if lk_variant st < int sdomains - 1 then st\<lparr>lk_variant := lk_variant st + 1\<rparr>
      else next_server nscount st)"

text \<open>The packet after \<open>recv\<close>: the bytes received over what was sent.\<close>

definition received :: "u8 list \<Rightarrow> u8 list \<Rightarrow> u8 list" where
  "received packet bs = take PACKETSZ bs @ drop (length (take PACKETSZ bs)) packet"

text \<open>
  The loop; \<open>asked\<close> collects the servers a query was addressed to. A server that is a null pointer
  crashes in \<open>inet_addr\<close>.
\<close>

fun lookup_loop ::
    "nat \<Rightarrow> int \<Rightarrow> resolv_conf \<Rightarrow> string \<Rightarrow> int \<Rightarrow> nat \<Rightarrow> try_env list \<Rightarrow> lookup_state \<Rightarrow> nat list \<Rightarrow>
     resolv_answer \<Rightarrow> name_heap \<Rightarrow> lookup_result outcome" where
  "lookup_loop f max_retries c name ty nscount envs st asked a h =
     (if \<not> lk_retries st < max_retries then Done (LkFail st asked h)
      else
        (case envs of
           [] \<Rightarrow> Done (LkPending st)
         | env # envs' \<Rightarrow>
             (let st1 = st\<lparr>lk_id := (lk_id st + 1) AND 0xffff\<rparr>
              in obind (build_lookup name (lk_variant st1) c) (\<lambda>lookup.
                   case build_query (lk_id st1) ty lookup of
                     None \<Rightarrow> Done (LkFail st1 asked h)
                   | Some (packet, len) \<Rightarrow>
                       (let asked' = asked @ [lk_ns st1]
                        in if \<not> te_socket_ok env then
                             lookup_loop f max_retries c name ty nscount envs'
                               (st1\<lparr>lk_retries := lk_retries st1 + 1\<rparr>) asked a h
                           else if \<not> (lk_ns st1 < length (rc_ns c) \<and> rc_ns c ! lk_ns st1 \<noteq> None) then Crash
                           else
                             (case te_connect env of
                                NetUnreachable \<Rightarrow>
                                  lookup_loop f max_retries c name ty nscount envs' (next_server nscount st1) asked' a h
                              | ConnectError \<Rightarrow>
                                  lookup_loop f max_retries c name ty nscount envs'
                                    (st1\<lparr>lk_retries := lk_retries st1 + 1\<rparr>) asked' a h
                              | Connected \<Rightarrow>
                                  if te_timeout env then
                                    lookup_loop f max_retries c name ty nscount envs' (next_server nscount st1) asked' a h
                                  else
                                    (let bs = take PACKETSZ (te_recv env); p = received packet bs
                                     in obind (handle_reply f p (length bs) (lk_id st1) ty a h) (\<lambda>(ok, a', h').
                                          if ok then Done (LkSuccess (int (length bs)) p a' st1 asked' h')
                                          else lookup_loop f max_retries c name ty nscount envs'
                                                 (next_search nscount (rc_sdcount c) st1) asked' a' h'))))))))"

declare lookup_loop.simps [simp del]

text \<open>
  \<open>__dns_lookup\<close>: \<open>ns\<close> and \<open>id\<close> are the static variables, \<open>mem_ok\<close> whether both buffers could be allocated;
  the result is the value returned, the new values of \<open>ns\<close> and \<open>id\<close> being in the final state.
\<close>

definition dns_lookup_with ::
    "int \<Rightarrow> nat \<Rightarrow> bool \<Rightarrow> nat \<Rightarrow> int \<Rightarrow> resolv_conf \<Rightarrow> string \<Rightarrow> int \<Rightarrow> nat \<Rightarrow> try_env list \<Rightarrow>
     resolv_answer \<Rightarrow> name_heap \<Rightarrow> lookup_result outcome" where
  "dns_lookup_with max_retries f mem_ok ns id0 c name ty nscount envs a h =
     (if \<not> mem_ok \<or> nscount = 0 then
        Done (LkFail \<lparr>lk_ns = ns, lk_id = id0, lk_retries = 0, lk_variant = -1\<rparr> [] h)
      else lookup_loop f max_retries c name ty nscount envs
             \<lparr>lk_ns = ns mod nscount, lk_id = id0, lk_retries = 0, lk_variant = -1\<rparr> [] a h)"

definition dns_lookup where
  "dns_lookup = dns_lookup_with MAX_RETRIES"

text \<open>
  \<open>__dns_lookup_async\<close> is the same loop with the caller's number of retries; it waits for the reply
  in a task sleep, whose result 1 is the timeout, instead of in \<open>select\<close>.
\<close>

definition dns_lookup_async where
  "dns_lookup_async nRetries = dns_lookup_with nRetries"

section \<open>Termination\<close>

text \<open>The rounds left: each one moves to the next search domain, the next server or the next retry.\<close>

definition rounds_left :: "int \<Rightarrow> nat \<Rightarrow> nat \<Rightarrow> lookup_state \<Rightarrow> nat" where
  "rounds_left max_retries nscount sdomains st =
     nat ((max_retries - lk_retries st) * (int nscount * (int sdomains + 1)) -
          (int (lk_ns st) * (int sdomains + 1) + lk_variant st + 1))"

definition lookup_ok :: "nat \<Rightarrow> nat \<Rightarrow> lookup_state \<Rightarrow> bool" where
  "lookup_ok nscount sdomains st \<longleftrightarrow>
     lk_ns st < nscount \<and> -1 \<le> lk_variant st \<and> lk_variant st \<le> int sdomains - 1"

lemma lookup_ok_id [simp]: "lookup_ok n d (st\<lparr>lk_id := i\<rparr>) = lookup_ok n d st"
  by (simp add: lookup_ok_def)

lemma lookup_ok_retries [simp]: "lookup_ok n d (st\<lparr>lk_retries := i\<rparr>) = lookup_ok n d st"
  by (simp add: lookup_ok_def)








lemma rounds_left_id [simp]: "rounds_left m n d (st\<lparr>lk_id := i\<rparr>) = rounds_left m n d st"
  by (simp add: rounds_left_def)


section \<open>Queries that can be built\<close>

lemma encode_dotted_from_fits:
  "int (length acc + length s) + 1 < maxlen \<Longrightarrow>
   1 \<le> fst (encode_dotted_from s maxlen acc) \<and>
   fst (encode_dotted_from s maxlen acc) \<le> int (length acc + length s) + 2"
proof (induction s maxlen acc rule: encode_dotted_from.induct)
  case (1 s maxlen acc)
  let ?seg = "takeWhile (\<lambda>c. c \<noteq> DOT) s"
  let ?rest = "dropWhile (\<lambda>c. c \<noteq> DOT) s"
  let ?acc = "acc @ word_of_nat (length ?seg) # map byte_of ?seg"
  have len: "length s = length ?seg + length ?rest" by (metis length_append takeWhile_dropWhile_id)
  have fits: "\<not> int (length ?seg) \<ge> maxlen - int (length acc) - 1" using "1.prems" len by simp
  show ?case
  proof (cases "s = []")
    case True
    with "1.prems" show ?thesis by (subst (1 2) encode_dotted_from.simps) simp
  next
    case False
    show ?thesis
    proof (cases ?rest)
      case Nil
      have E: "encode_dotted_from s maxlen acc = (int (length ?acc) + 1, ?acc @ [0])"
        using False fits by (subst encode_dotted_from.simps) (simp add: Let_def Nil)
      show ?thesis unfolding E using len Nil by simp
    next
      case (Cons c s')
      have E: "encode_dotted_from s maxlen acc = encode_dotted_from s' maxlen ?acc"
        using False fits Cons by (subst encode_dotted_from.simps) (simp add: Let_def)
      have "1 \<le> fst (encode_dotted_from s' maxlen ?acc) \<and>
          fst (encode_dotted_from s' maxlen ?acc) \<le> int (length ?acc + length s') + 2"
        using "1.IH" [OF False refl refl refl fits Cons] "1.prems" len Cons by simp
      with E len Cons show ?thesis by simp
    qed
  qed
qed

lemma build_query_fits:
  assumes "length lookup \<le> 490"
  shows "build_query i ty lookup \<noteq> None"
proof -
  have h: "fst (encode_header (query_header i) 512) = 12" by (simp add: encode_header_def HFIXEDSZ_def)
  have q: "1 \<le> fst (encode_dotted (Some lookup) 500)" "fst (encode_dotted (Some lookup) 500) \<le> 492"
    using encode_dotted_from_fits [of "[]" lookup 500] assms by (simp_all add: encode_dotted_def)
  then have "0 \<le> fst (encode_question \<lparr>rq_dotted = Some lookup, rq_qtype = ty, rq_qclass = 1\<rparr> 500)"
    by (auto simp: encode_question_def split: prod.split)
  with h show ?thesis by (auto simp: build_query_def Let_def PACKETSZ_def split: prod.split)
qed

lemma takeWhile_padded:
  "CHR 0x00 \<notin> set s \<Longrightarrow> length s < n \<Longrightarrow>
   takeWhile (\<lambda>x. x \<noteq> CHR 0x00) (take n (s @ replicate m (CHR 0x00))) = s"
  if "n \<le> m" for s n m
proof -
  assume s: "CHR 0x00 \<notin> set s" "length s < n"
  from s(2) obtain k where k: "n - length s = Suc k" by (metis Suc_diff_Suc)
  have "take n (s @ replicate m (CHR 0x00)) = s @ replicate (Suc k) (CHR 0x00)"
    using s(2) that k by (simp add: min_def del: replicate_Suc)
  moreover have "\<forall>x \<in> set s. x \<noteq> CHR 0x00" using s(1) by auto
  ultimately show ?thesis by (simp add: takeWhile_append2)
qed

lemma build_lookup_first:
  assumes "CHR 0x00 \<notin> set name" and "length name < 1025" and "variant < 0"
  shows "build_lookup name variant c = Done name"
proof -
  let ?b = "take 1025 (name @ replicate 1025 (CHR 0x00))"
  have t: "takeWhile (\<lambda>x. x \<noteq> CHR 0x00) ?b = name" using assms(1,2) by (intro takeWhile_padded) simp_all
  have "CHR 0x00 \<in> set ?b"
  proof -
    have "length ?b = 1025" by simp
    with t assms(2) have "takeWhile (\<lambda>x. x \<noteq> CHR 0x00) ?b \<noteq> ?b" by auto
    then show ?thesis by (auto simp del: take_append simp: takeWhile_eq_all_conv)
  qed
  with t assms(3) show ?thesis
    by (simp add: build_lookup_def strncpy_at_def MAXDNAME_def del: take_append)
qed

section \<open>Properties\<close>

definition silent :: try_env where
  "silent = \<lparr>te_socket_ok = True, te_connect = Connected, te_timeout = True, te_recv = []\<rparr>"

definition empty_answer :: resolv_answer where
  "empty_answer = \<lparr>ra_dotted = [], ra_block = 0, ra_atype = 0, ra_aclass = 0, ra_ttl = 0, ra_rdlength = 0,
     ra_rdata = 0, ra_rdoffset = 0, ra_buf = Some (replicate 416 0), ra_buflen = 416, ra_add_count = 0\<rparr>"

definition empty_names :: name_heap where
  "empty_names = \<lparr>nh_next = 1, nh_live = [], nh_bad = False\<rparr>"



definition servers_set :: "nat \<Rightarrow> resolv_conf \<Rightarrow> bool" where
  "servers_set n c \<longleftrightarrow> n \<le> length (rc_ns c) \<and> None \<notin> set (take n (rc_ns c))"

lemma servers_set_nth: "servers_set n c \<Longrightarrow> k < n \<Longrightarrow> k < length (rc_ns c) \<and> rc_ns c ! k \<noteq> None"
  by (auto simp: servers_set_def in_set_conv_nth)

lemma silent_servers:
  assumes "CHR 0x00 \<notin> set name" and "length name \<le> 490" and servers: "servers_set nscount c"
  shows "k < nscount \<Longrightarrow> lk_ns st = k \<Longrightarrow> lk_retries st = 0 \<Longrightarrow> lk_variant st = -1 \<Longrightarrow>
    \<exists>st'. lookup_loop f 1 c name ty nscount (replicate (nscount - k) silent) st asked a h =
            Done (LkFail st' (asked @ [k..<nscount]) h) \<and> lk_ns st' = 0"
proof (induction "nscount - k" arbitrary: k st asked)
  case 0
  then show ?case by simp
next
  case (Suc m)
  let ?st1 = "st\<lparr>lk_id := (lk_id st + 1) AND 0xffff\<rparr>"
  have lk: "build_lookup name (-1) c = Done name" using assms by (intro build_lookup_first) simp_all
  obtain q where q: "build_query (lk_id ?st1) ty name = Some q"
    by (cases "build_query (lk_id ?st1) ty name") (use build_query_fits [OF assms(2)] in blast)+
  obtain packet len where q': "q = (packet, len)" by (cases q)
  have rep: "replicate (nscount - k) silent = silent # replicate (nscount - Suc k) silent"
    using Suc.prems(1) by (metis Suc_diff_Suc replicate_Suc)
  have step: "lookup_loop f 1 c name ty nscount (replicate (nscount - k) silent) st asked a h =
      lookup_loop f 1 c name ty nscount (replicate (nscount - Suc k) silent) (next_server nscount ?st1) (asked @ [k]) a h"
    unfolding rep using Suc.prems lk q q' servers_set_nth [OF servers Suc.prems(1)]
    by (subst lookup_loop.simps) (simp add: Let_def silent_def)
  show ?case
  proof (cases "Suc k = nscount")
    case True
    then have ns: "next_server nscount ?st1 = ?st1\<lparr>lk_ns := 0, lk_variant := -1, lk_retries := 1\<rparr>"
      using Suc.prems by (simp add: next_server_def Let_def)
    have "lookup_loop f 1 c name ty nscount [] (?st1\<lparr>lk_ns := 0, lk_variant := -1, lk_retries := 1\<rparr>) (asked @ [k]) a h =
        Done (LkFail (?st1\<lparr>lk_ns := 0, lk_variant := -1, lk_retries := 1\<rparr>) (asked @ [k]) h)"
      by (subst lookup_loop.simps) simp
    moreover have "[k..<nscount] = [k]" "nscount - Suc k = 0" using True by auto
    ultimately show ?thesis unfolding step ns by simp
  next
    case False
    with Suc.prems have k: "Suc k < nscount" "(k + 1) mod nscount = Suc k" by simp_all
    then have "lk_ns (next_server nscount ?st1) = Suc k" "lk_retries (next_server nscount ?st1) = 0"
      "lk_variant (next_server nscount ?st1) = -1"
      using Suc.prems by (simp_all add: next_server_def Let_def)
    moreover have "m = nscount - Suc k" using Suc.hyps(2) by simp
    ultimately obtain st' where
      "lookup_loop f 1 c name ty nscount (replicate (nscount - Suc k) silent) (next_server nscount ?st1) (asked @ [k]) a h =
         Done (LkFail st' ((asked @ [k]) @ [Suc k..<nscount]) h)" "lk_ns st' = 0"
      using Suc.hyps(1) [of "Suc k" "next_server nscount ?st1" "asked @ [k]"] k(1) by blast
    moreover have "[k..<nscount] = k # [Suc k..<nscount]" using Suc.prems(1) by (rule upt_conv_Cons)
    ultimately show ?thesis unfolding step by simp
  qed
qed

text \<open>When no server answers, \<open>__dns_lookup\<close> asks the servers from the one that answered last to
  the end of the list, once each, and then fails: the servers before it are never asked. The next
  lookup starts at the first server again.\<close>

lemma unanswered_lookup_asks_rest_of_list:
  assumes "CHR 0x00 \<notin> set name" and "length name \<le> 490" and "servers_set nscount c" and "0 < nscount"
  shows "\<exists>st. dns_lookup f True ns i c name ty nscount (replicate (nscount - ns mod nscount) silent) a h =
           Done (LkFail st [ns mod nscount..<nscount] h) \<and> lk_ns st = 0"
proof -
  let ?st = "\<lparr>lk_ns = ns mod nscount, lk_id = i, lk_retries = 0, lk_variant = -1\<rparr>"
  from silent_servers [OF assms(1,2,3), of "ns mod nscount" ?st f ty "[]" a h] assms(4)
  show ?thesis by (simp add: dns_lookup_def dns_lookup_with_def MAX_RETRIES_def)
qed

definition three_servers :: resolv_conf where
  "three_servers = resolv_start\<lparr>rc_ns := [Some ''10.0.0.1'', Some ''10.0.0.2'', Some ''10.0.0.3''], rc_nscount := 3\<rparr>"

lemma unanswered_lookup_asks_rest_of_list_witness:
  "\<exists>st. dns_lookup 9 True 2 7 three_servers ''a.b'' 1 3 [silent] empty_answer empty_names =
     Done (LkFail st [2] empty_names) \<and> lk_ns st = 0"
proof -
  have "replicate (3 - 2 mod 3) silent = [silent]" "[2 mod 3..<3] = [2 :: nat]" by (simp_all add: upt_rec)
  moreover have "servers_set 3 three_servers" by (simp add: servers_set_def three_servers_def)
  ultimately show ?thesis
    using unanswered_lookup_asks_rest_of_list [of "''a.b''" 3 three_servers 9 2 7 1 empty_answer empty_names] by simp
qed

text \<open>Trying a search domain: the domain is copied behind the name with the size of the whole
  buffer as its bound, so for every non-empty name the copy runs past the end of the buffer.\<close>

lemma search_domain_overruns_buffer:
  assumes "name \<noteq> []" and "0 \<le> variant" and "variant < int (rc_sdcount c)"
  shows "build_lookup name variant c = Crash"
proof -
  have "\<not> length name + 1025 \<le> min (length name) 1025 + (1025 - length name)"
    using assms(1) by (cases "length name \<le> 1025") (auto simp: min_def)
  with assms show ?thesis by (simp add: build_lookup_def strncpy_at_def MAXDNAME_def)
qed

lemma search_domain_overruns_buffer_witness:
  "build_lookup ''www'' 0 (snd (open_nameservers (Some [''search example.com'']) resolv_start)) = Crash"
  by (rule search_domain_overruns_buffer)
    (simp_all add: open_nameservers_def resolv_start_def line_args_def is_space_def RESOLV_ARGS_def
      eval_nat_numeral resolv_line_def clear_search_def MAX_SEARCH_def)

text \<open>A reply whose only answer has another type than the one asked for (a lone CNAME): the
  walk over the answers reports success and hands back an owner name it has already freed.\<close>

lemma other_type_answer_returns_freed_name:
  assumes "decode_answer f (nh_next h) packet pos = Done (i, Some ma)" and "ra_atype ma \<noteq> T_A"
    and "ra_buf a = Some buf" and "nh_next h \<notin> set (nh_live h)"
  shows "\<exists>a' h'. answers_from f packet T_A 1 pos True a h = Done (True, a', h') \<and>
           ra_block a' = ra_block ma \<and> nh_bad h' = nh_bad h \<and>
           nh_bad (nh_free (ra_block a') h')"
proof -
  have b: "ra_block ma = nh_next h"
    using assms(1) by (auto simp: decode_answer_def outcome_simps Let_def split: if_splits prod.splits)
  from assms b show ?thesis by (simp add: Let_def nh_alloc_def nh_free_def)
qed

definition cname_reply :: "u8 list" where
  "cname_reply = [3, 119, 119, 119, 0, 0, 5, 0, 1, 0, 0, 0, 60, 0, 3, 1, 97, 0]"

lemma other_type_answer_returns_freed_name_witness:
  "\<exists>a' h'. answers_from 9 cname_reply T_A 1 0 True empty_answer empty_names = Done (True, a', h') \<and>
           nh_bad (nh_free (ra_block a') h')"
proof -
  have "map_outcome (\<lambda>(i, r). (i, map_option ra_atype r)) (decode_answer 9 1 cname_reply 0) = Done (18, Some 5)"
    by code_simp
  then obtain ma where d: "decode_answer 9 (nh_next empty_names) cname_reply 0 = Done (18, Some ma)" "ra_atype ma = 5"
    by (cases "decode_answer 9 1 cname_reply 0") (auto simp: empty_names_def)
  have t: "ra_atype ma \<noteq> T_A" using d(2) by (simp add: T_A_def)
  have b: "ra_buf empty_answer = Some (replicate 416 0)" by (simp add: empty_answer_def)
  have n: "nh_next empty_names \<notin> set (nh_live empty_names)" by (simp add: empty_names_def)
  from other_type_answer_returns_freed_name [OF d(1) t b n] show ?thesis by blast
qed

end
