(* ===== verification/Memory.thy ===== *)
theory Memory
  imports Prelude
begin

text \<open>
  A block of memory as the list of its cells, shared by the models of code that lays out data in a
  caller's buffer or copies between overlapping areas. An access outside the block is \<open>Crash\<close>.
  A cell is a byte or one of the eight parts of a stored pointer; pointers are offsets
  into the block they are stored in (\<open>None\<close> is the null pointer).
\<close>

section \<open>Areas of a block\<close>

definition mread :: "nat \<Rightarrow> nat \<Rightarrow> 'a list \<Rightarrow> 'a list outcome" where
  "mread off n m = (if off + n \<le> length m then Done (take n (drop off m)) else Crash)"

definition mwrite :: "nat \<Rightarrow> 'a list \<Rightarrow> 'a list \<Rightarrow> 'a list outcome" where
  "mwrite off xs m =
     (if off + length xs \<le> length m then Done (take off m @ xs @ drop (off + length xs) m) else Crash)"

named_theorems memory "reads of a block after writes"

lemma mwrite_total:
  assumes "off + length xs \<le> length m"
  obtains m' where "mwrite off xs m = Done m'" and "length m' = length m"
  using assms by (simp add: mwrite_def)

lemma mwrite_length [memory]: "mwrite off xs m = Done m' \<Longrightarrow> length m' = length m"
  by (auto simp: mwrite_def split: if_splits)

lemma mwrite_bound: "mwrite off xs m = Done m' \<Longrightarrow> off + length xs \<le> length m"
  by (auto simp: mwrite_def split: if_splits)

lemma mwrite_nth:
  assumes "mwrite off xs m = Done m'" and "i < length m"
  shows "m' ! i = (if off \<le> i \<and> i < off + length xs then xs ! (i - off) else m ! i)"
  using assms by (auto simp: mwrite_def nth_append min_def split: if_splits)

lemma mread_nth: "mread off n m = Done ys \<longleftrightarrow> off + n \<le> length m \<and> length ys = n \<and> (\<forall>i < n. ys ! i = m ! (off + i))"
  by (auto simp: mread_def intro!: nth_equalityI split: if_splits)

lemma mread_inside [memory]:
  assumes "mwrite off xs m = Done m'" and "off \<le> o'" and "o' + n \<le> off + length xs"
  shows "mread o' n m' = Done (take n (drop (o' - off) xs))"
proof -
  have "off + length xs \<le> length m" "length m' = length m"
    using assms(1) by (auto intro: mwrite_bound mwrite_length)
  with assms show ?thesis
    by (auto simp: mread_nth mwrite_nth [OF assms(1)] intro!: arg_cong [of _ _ "(!) xs"])
qed

lemma mread_same [memory]: "mwrite off xs m = Done m' \<Longrightarrow> n = length xs \<Longrightarrow> mread off n m' = Done xs"
  by (subst mread_inside) auto

lemma mread_disjoint [memory]:
  assumes "mwrite off xs m = Done m'" and "o' + n \<le> off \<or> off + length xs \<le> o'"
  shows "mread o' n m' = mread o' n m"
proof -
  have l: "length m' = length m" using assms(1) by (rule mwrite_length)
  have "mread o' n m' = Done ys \<longleftrightarrow> mread o' n m = Done ys" for ys
    using assms(2) l by (auto simp: mread_nth mwrite_nth [OF assms(1)])
  moreover have "mread o' n m \<in> {Crash} \<union> range Done" "mread o' n m' \<in> {Crash} \<union> range Done"
    by (simp_all add: mread_def)
  ultimately show ?thesis by (metis UnE imageE singletonD)
qed

lemma mread_split: "mread off (a + b) m = Done xs \<Longrightarrow> mread off a m = Done (take a xs) \<and> mread (off + a) b m = Done (drop a xs)"
  by (auto simp: mread_nth add.assoc)

lemma mread_part: "mread off n m = Done xs \<Longrightarrow> k + l \<le> n \<Longrightarrow> mread (off + k) l m = Done (take l (drop k xs))"
  by (auto simp: mread_nth add.assoc)

section \<open>Bytes and pointers\<close>

datatype cell = Byte u8 | PtrPart "nat option" nat

definition PTR_SIZE :: nat where "PTR_SIZE = 8"

definition ptr_cells :: "nat option \<Rightarrow> cell list" where
  "ptr_cells p = map (PtrPart p) [0..<PTR_SIZE]"

lemma length_ptr_cells [simp]: "length (ptr_cells p) = 8"
  by (simp add: ptr_cells_def PTR_SIZE_def)

definition load_ptr :: "cell list \<Rightarrow> nat \<Rightarrow> nat option outcome" where
  "load_ptr m off =
     obind (mread off PTR_SIZE m) (\<lambda>cs.
       case cs of
         PtrPart p k # _ \<Rightarrow> if cs = ptr_cells p then Done p else Crash
       | _ \<Rightarrow> Crash)"

lemma load_ptr_mread: "mread off 8 m = Done (ptr_cells p) \<Longrightarrow> load_ptr m off = Done p"
  by (simp add: load_ptr_def PTR_SIZE_def ptr_cells_def upt_rec)

fun load_bytes :: "cell list \<Rightarrow> u8 list outcome" where
  "load_bytes [] = Done []"
| "load_bytes (Byte b # cs) = obind (load_bytes cs) (\<lambda>bs. Done (b # bs))"
| "load_bytes (PtrPart p k # cs) = Crash"

lemma load_bytes_map [simp]: "load_bytes (map Byte bs) = Done bs"
  by (induction bs) simp_all

text \<open>An array of pointers, written and read back entry by entry.\<close>

definition ptr_array :: "nat option list \<Rightarrow> cell list" where
  "ptr_array ps = concat (map ptr_cells ps)"

lemma length_ptr_array [simp]: "length (ptr_array ps) = 8 * length ps"
  by (induction ps) (simp_all add: ptr_array_def)

lemma ptr_array_entry: "i < length ps \<Longrightarrow> take 8 (drop (8 * i) (ptr_array ps)) = ptr_cells (ps ! i)"
proof (induction ps arbitrary: i)
  case (Cons p ps)
  then show ?case by (cases i) (simp_all add: ptr_array_def)
qed simp

lemma load_ptr_array:
  assumes "mread off (8 * length ps) m = Done (ptr_array ps)" and "i < length ps"
  shows "load_ptr m (off + 8 * i) = Done (ps ! i)"
proof (rule load_ptr_mread)
  have b: "off + 8 * length ps \<le> length m" and "take (8 * length ps) (drop off m) = ptr_array ps"
    using assms(1) by (auto simp: mread_def split: if_splits)
  then have "take 8 (drop (8 * i) (take (8 * length ps) (drop off m))) = ptr_cells (ps ! i)"
    using ptr_array_entry [OF assms(2)] by simp
  moreover have "8 * i + 8 \<le> 8 * length ps" using assms(2) by simp
  ultimately show "mread (off + 8 * i) 8 m = Done (ptr_cells (ps ! i))"
    using b by (simp add: mread_def drop_take add.commute min_absorb1)
qed

end
