(* ===== verification/Dns_Host.thy ===== *)
theory Dns_Host
  imports Dns_Lookup Memory
begin

text \<open>
  The callers of the resolver in eloop/dns.c: \<open>gethostbyname_r_2\<close> and its asynchronous variant with the
  tables they lay out in the caller's buffer, \<open>gethostbyname_ext\<close>, the start and end of the
  list of servers of the event loop, and the copy \<open>dup_hostentry\<close>. The buffer is a block of
  cells; \<open>inet_aton\<close> of the C library is an argument.
\<close>

section \<open>Results\<close>

definition NETDB_SUCCESS :: int where "NETDB_SUCCESS = 0"
definition HOST_NOT_FOUND :: int where "HOST_NOT_FOUND = 1"
definition TRY_AGAIN :: int where "TRY_AGAIN = 2"
definition NETDB_INTERNAL :: int where "NETDB_INTERNAL = -1"
definition ERANGE :: int where "ERANGE = 34"
definition EINVAL :: int where "EINVAL = 22"
definition AF_INET :: int where "AF_INET = 2"

lemmas netdb_codes = NETDB_SUCCESS_def HOST_NOT_FOUND_def TRY_AGAIN_def NETDB_INTERNAL_def ERANGE_def EINVAL_def AF_INET_def

text \<open>\<open>struct hostent\<close>; its pointers are offsets into the buffer, \<open>None\<close> is null.\<close>

record hostent =
  he_name :: "nat option"
  he_aliases :: "nat option"
  he_addrtype :: int
  he_length :: int
  he_addr_list :: "nat option"

text \<open>The static state: the configuration, \<open>ns\<close>, \<open>id\<close>, the blocks of owner names, \<open>first_init_nameserver\<close>.\<close>

record resolver =
  rs_conf :: resolv_conf
  rs_ns :: nat
  rs_id :: int
  rs_names :: name_heap
  rs_first :: bool

text \<open>The value returned, \<open>*result\<close>, \<open>*h_errnop\<close>, the buffer and the static state.\<close>

record gh_result =
  gr_code :: int
  gr_host :: "hostent option"
  gr_herrno :: int
  gr_mem :: "cell list"
  gr_state :: resolver

section \<open>The buffer\<close>

text \<open>The layout: one address, two pointers, the aliases, the name. Sizes of an LP64 target.\<close>

definition ADDR_LIST_OFF :: nat where "ADDR_LIST_OFF = 4"
definition ALIAS_OFF :: nat where "ALIAS_OFF = ADDR_LIST_OFF + 16"
definition ALIAS_DIM :: nat where "ALIAS_DIM = 2 + 5 + 1"
definition NAME_OFF :: nat where "NAME_OFF = ALIAS_OFF + 8 * ALIAS_DIM"

lemmas layout = ADDR_LIST_OFF_def ALIAS_OFF_def ALIAS_DIM_def NAME_OFF_def

text \<open>\<open>strncpy(buf, s, n)\<close>.\<close>

definition strncpy_cells :: "string \<Rightarrow> nat \<Rightarrow> cell list" where
  "strncpy_cells s n = map (\<lambda>c. Byte (byte_of c)) (take n (s @ replicate n (CHR 0x00)))"

lemma length_strncpy_cells [simp]: "length (strncpy_cells s n) = n"
  by (simp add: strncpy_cells_def)

text \<open>The checks of the buffer's size and the tables for one address; \<open>False\<close> is \<open>ERANGE\<close>.\<close>

definition prepare_buffer :: "string \<Rightarrow> cell list \<Rightarrow> (bool \<times> cell list) outcome" where
  "prepare_buffer name m =
     (if length m < 4 then Done (False, m)
      else if length m - ADDR_LIST_OFF < 16 then Done (False, m)
      else obind (mwrite ADDR_LIST_OFF (ptr_array [Some 0, None]) m) (\<lambda>m1.
        if length m - ALIAS_OFF < 8 * ALIAS_DIM then Done (False, m1)
        else if length m - NAME_OFF < 256 then Done (False, m1)
        else obind (mwrite NAME_OFF (strncpy_cells name (length m - NAME_OFF)) m1) (\<lambda>m2.
             obind (mwrite ALIAS_OFF (ptr_array [Some NAME_OFF, None]) m2) (\<lambda>m3. Done (True, m3)))))"

definition local_hostent :: "nat \<Rightarrow> nat \<Rightarrow> hostent" where
  "local_hostent name addr_list =
     \<lparr>he_name = Some name, he_aliases = Some ALIAS_OFF, he_addrtype = AF_INET, he_length = 4,
      he_addr_list = Some addr_list\<rparr>"

text \<open>
  With further addresses behind the tables: they move two pointers down, into the unused end of the
  aliases, and the table of addresses and the name follow. The result is the place of the
  name, the place of the table and the buffer.
\<close>

definition place_addresses :: "nat \<Rightarrow> nat \<Rightarrow> cell list \<Rightarrow> (nat \<times> nat \<times> cell list) outcome" where
  "place_addresses n rdlength m =
     (if n = 0 then Done (NAME_OFF, ADDR_LIST_OFF, m)
      else
        obind (mread NAME_OFF (n * rdlength) m) (\<lambda>addrs.
        obind (mwrite (NAME_OFF - 16) addrs m) (\<lambda>m1.
        obind (mwrite (NAME_OFF + n * rdlength)
                 (ptr_array (Some 0 # map (\<lambda>i. Some (NAME_OFF - 16 + rdlength * i)) [0..<n] @ [None])) m1) (\<lambda>m2.
          Done (NAME_OFF + n * rdlength + 8 * (n + 2), NAME_OFF + n * rdlength, m2)))))"

text \<open>
  What \<open>gethostbyname_r_2\<close> does with the answer \<open>a\<close> of a lookup: the code, the host, \<open>h_errno\<close>, the blocks
  and the buffer. Reading an owner name that has been freed is \<open>Crash\<close>.
\<close>

definition fill_hostent ::
    "u8 list \<Rightarrow> resolv_answer \<Rightarrow> name_heap \<Rightarrow> cell list \<Rightarrow> (int \<times> hostent option \<times> int \<times> name_heap \<times> cell list) outcome" where
  "fill_hostent packet a h m =
     (if (nat (ra_rdlength a) + 8) * ra_add_count a + 256 > length m - NAME_OFF then
        Done (ERANGE, None, NETDB_INTERNAL, nh_free (ra_block a) h, m)
      else
        obind (place_addresses (ra_add_count a) (nat (ra_rdlength a)) m) (\<lambda>(buf, addr_list, m1).
          if ra_block a \<notin> set (nh_live h) then Crash
          else
            obind (mwrite buf (strncpy_cells (ra_dotted a) (length m - buf)) m1) (\<lambda>m2.
              let h' = nh_free (ra_block a) h
              in if ra_atype a = T_A then
                   obind (rd_block packet (ra_rdata a) 4) (\<lambda>ip.
                   obind (mwrite 0 (map Byte ip) m2) (\<lambda>m3.
                     Done (NETDB_SUCCESS, Some (local_hostent buf addr_list), NETDB_SUCCESS, h', m3)))
                 else Done (TRY_AGAIN, None, HOST_NOT_FOUND, h', m2))))"

section \<open>The lookup of a host\<close>

text \<open>The number of servers to ask and the array of servers, changed in place for choice 2.\<close>

definition choose_servers :: "int \<Rightarrow> resolv_conf \<Rightarrow> nat \<times> resolv_conf" where
  "choose_servers choice c =
     (if choice = 1 then (1, c)
      else if choice = 2 then (1, c\<lparr>rc_ns := (rc_ns c)[0 := rc_ns c ! 1]\<rparr>)
      else (rc_nscount c, c))"

text \<open>The answer before a lookup: only the buffer is set.\<close>

definition start_answer :: "u8 list \<Rightarrow> resolv_answer" where
  "start_answer bs =
     \<lparr>ra_dotted = [], ra_block = 0, ra_atype = 0, ra_aclass = 0, ra_ttl = 0, ra_rdlength = 0, ra_rdata = 0,
      ra_rdoffset = 0, ra_buf = Some bs, ra_buflen = length bs, ra_add_count = 0\<rparr>"

text \<open>
  The body of the loop \<open>for (;;)\<close>, which every path leaves, from the lookup on. \<open>backup\<close> is the first
  server before the choice. After a failed lookup the area of the name is scratch.
\<close>

definition lookup_host ::
    "int \<Rightarrow> nat \<Rightarrow> bool \<Rightarrow> try_env list \<Rightarrow> string \<Rightarrow> nat \<Rightarrow> string option \<Rightarrow> cell list \<Rightarrow> resolver \<Rightarrow> gh_result outcome" where
  "lookup_host max_retries f mem_ok envs name n backup m s =
     obind (load_bytes (drop NAME_OFF m)) (\<lambda>bs.
     obind (dns_lookup_with max_retries f mem_ok (rs_ns s) (rs_id s) (rs_conf s) name T_A n envs
              (start_answer bs) (rs_names s)) (\<lambda>r.
       let c = rs_conf s; c' = c\<lparr>rc_ns := (rc_ns c)[0 := backup]\<rparr>
       in case r of
            LkPending st \<Rightarrow> OutOfFuel
          | LkFail st asked h \<Rightarrow>
              Done \<lparr>gr_code = TRY_AGAIN, gr_host = None, gr_herrno = HOST_NOT_FOUND, gr_mem = m,
                    gr_state = s\<lparr>rs_conf := c', rs_ns := lk_ns st, rs_id := lk_id st, rs_names := h\<rparr>\<rparr>
          | LkSuccess len packet a st asked h \<Rightarrow>
              (case ra_buf a of
                 None \<Rightarrow> Crash
               | Some bs' \<Rightarrow>
                   obind (mwrite NAME_OFF (map Byte bs') m) (\<lambda>m1.
                   obind (fill_hostent packet a h m1) (\<lambda>(code, he, herr, h', m2).
                     Done \<lparr>gr_code = code, gr_host = he, gr_herrno = herr, gr_mem = m2,
                           gr_state = s\<lparr>rs_conf := c', rs_ns := lk_ns st, rs_id := lk_id st, rs_names := h'\<rparr>\<rparr>)))))"

text \<open>The part in front of the loop: the null name, the buffer, a literal address.\<close>

definition host_prologue ::
    "(string \<Rightarrow> u8 list option) \<Rightarrow> string option \<Rightarrow> int \<Rightarrow> cell list \<Rightarrow> resolver \<Rightarrow>
     (string \<Rightarrow> cell list \<Rightarrow> gh_result outcome) \<Rightarrow> gh_result outcome" where
  "host_prologue inet_aton name herr m s rest =
     (case name of
        None \<Rightarrow> Done \<lparr>gr_code = EINVAL, gr_host = None, gr_herrno = herr, gr_mem = m, gr_state = s\<rparr>
      | Some nm \<Rightarrow>
          obind (prepare_buffer nm m) (\<lambda>(fits, m1).
            if \<not> fits then
              Done \<lparr>gr_code = ERANGE, gr_host = None, gr_herrno = NETDB_INTERNAL, gr_mem = m1, gr_state = s\<rparr>
            else
              (case inet_aton nm of
                 Some ip \<Rightarrow>
                   obind (mwrite 0 (map Byte ip) m1) (\<lambda>m2.
                     Done \<lparr>gr_code = NETDB_SUCCESS, gr_host = Some (local_hostent NAME_OFF ADDR_LIST_OFF),
                           gr_herrno = NETDB_SUCCESS, gr_mem = m2, gr_state = s\<rparr>)
               | None \<Rightarrow> rest nm m1)))"

text \<open>
  \<open>gethostbyname_r_2\<close>. With no server at all, the test whether the last one is set reads the word in
  front of the array: \<open>Crash\<close>. When the chosen server is not set it returns without undoing the choice.
\<close>

definition gethostbyname_r_2 ::
    "(string \<Rightarrow> u8 list option) \<Rightarrow> nat \<Rightarrow> bool \<Rightarrow> string list option \<Rightarrow> try_env list \<Rightarrow> string option \<Rightarrow> int \<Rightarrow> int \<Rightarrow>
     cell list \<Rightarrow> resolver \<Rightarrow> gh_result outcome" where
  "gethostbyname_r_2 inet_aton f mem_ok file envs name choice herr m s =
     (let c = snd (open_nameservers file (rs_conf s)); s1 = s\<lparr>rs_conf := c\<rparr>
      in host_prologue inet_aton name herr m s1 (\<lambda>nm m1.
           let (n, c1) = choose_servers choice c; s2 = s1\<lparr>rs_conf := c1\<rparr>
           in if n = 0 then Crash
              else if rc_ns c1 ! (n - 1) = None then
                Done \<lparr>gr_code = TRY_AGAIN, gr_host = None, gr_herrno = HOST_NOT_FOUND, gr_mem = m1, gr_state = s2\<rparr>
              else lookup_host MAX_RETRIES f mem_ok envs nm n (rc_ns c ! 0) m1 s2))"

definition GH_BUF_SIZE :: nat where "GH_BUF_SIZE = 4 + 2 * 8 + 8 * ALIAS_DIM + 384 + 32"

text \<open>\<open>gethostbyname_ext\<close>: \<open>m\<close> is its static buffer.\<close>

definition gethostbyname_ext where
  "gethostbyname_ext inet_aton f mem_ok file envs name choice herr m s =
     obind (gethostbyname_r_2 inet_aton f mem_ok file envs name choice herr m s) (\<lambda>r.
       Done (gr_host r, gr_herrno r, gr_mem r, gr_state r))"

text \<open>\<open>gethostbyname_r_2_async\<close>: the servers are read once, the chosen one is not tested.\<close>

definition gethostbyname_r_2_async ::
    "(string \<Rightarrow> u8 list option) \<Rightarrow> nat \<Rightarrow> bool \<Rightarrow> string list option \<Rightarrow> try_env list \<Rightarrow> string option \<Rightarrow> int \<Rightarrow> int \<Rightarrow> int \<Rightarrow>
     cell list \<Rightarrow> resolver \<Rightarrow> gh_result outcome" where
  "gethostbyname_r_2_async inet_aton f mem_ok file envs name choice nRetries herr m s =
     (let c = (if rs_first s then snd (open_nameservers file (rs_conf s)) else rs_conf s);
          s1 = s\<lparr>rs_conf := c, rs_first := False\<rparr>
      in host_prologue inet_aton name herr m s1 (\<lambda>nm m1.
           let (n, c1) = choose_servers choice c
           in lookup_host nRetries f mem_ok envs nm n (rc_ns c ! 0) m1 (s1\<lparr>rs_conf := c1\<rparr>)))"

text \<open>\<open>gethostbyname_ext_eloop_finalize\<close> and \<open>gethostbyname_ext_eloop_reconf\<close>.\<close>

definition gethostbyname_ext_eloop_finalize :: "resolver \<Rightarrow> resolver" where
  "gethostbyname_ext_eloop_finalize s =
     (if \<not> rs_first s then s\<lparr>rs_first := True, rs_conf := close_nameservers (rs_conf s)\<rparr> else s)"

definition gethostbyname_ext_eloop_reconf :: "string list option \<Rightarrow> resolver \<Rightarrow> resolver" where
  "gethostbyname_ext_eloop_reconf file s =
     (let s1 = gethostbyname_ext_eloop_finalize s
      in s1\<lparr>rs_first := False, rs_conf := snd (open_nameservers file (rs_conf s1))\<rparr>)"

section \<open>Copying a host entry\<close>

fun string_at :: "cell list \<Rightarrow> string outcome" where
  "string_at [] = Crash"
| "string_at (Byte b # cs) = (if b = 0 then Done [] else obind (string_at cs) (\<lambda>s. Done (char_of_byte b # s)))"
| "string_at (PtrPart p k # cs) = Crash"

text \<open>The entries of a table of pointers up to and with the null pointer; \<open>f\<close> bounds their number.\<close>

fun count_ptrs :: "nat \<Rightarrow> cell list \<Rightarrow> nat \<Rightarrow> nat outcome" where
  "count_ptrs 0 m off = OutOfFuel"
| "count_ptrs (Suc f) m off =
     obind (load_ptr m off) (\<lambda>p.
       case p of None \<Rightarrow> Done 1 | Some q \<Rightarrow> obind (count_ptrs f m (off + 8)) (\<lambda>n. Done (n + 1)))"

text \<open>A buffer being filled: the place, what is left by the code's count, the cells; \<open>None\<close> is \<open>ERANGE\<close>.\<close>

type_synonym fill = "nat \<times> int \<times> cell list"

text \<open>One address: its pointer, then its bytes behind it.\<close>

fun dup_addrs :: "nat \<Rightarrow> nat \<Rightarrow> nat \<Rightarrow> nat \<Rightarrow> nat \<Rightarrow> cell list \<Rightarrow> fill \<Rightarrow> (fill option \<times> cell list) outcome" where
  "dup_addrs 0 i rdlength src_list dst_list src (buf, left, dst) =
     obind (mwrite (dst_list + 8 * i) (ptr_cells None) dst) (\<lambda>d. Done (Some (buf, left, d), d))"
| "dup_addrs (Suc n) i rdlength src_list dst_list src (buf, left, dst) =
     obind (mwrite (dst_list + 8 * i) (ptr_cells (Some buf)) dst) (\<lambda>d1.
       if left - int rdlength \<le> 0 then Done (None, d1)
       else
         obind (load_ptr src (src_list + 8 * i)) (\<lambda>p.
           case p of
             None \<Rightarrow> Crash
           | Some q \<Rightarrow>
               obind (mread q rdlength src) (\<lambda>bs.
               obind (mwrite buf bs d1) (\<lambda>d2.
                 dup_addrs n (i + 1) rdlength src_list dst_list src (buf + rdlength, left - int rdlength, d2)))))"

text \<open>One string with its terminator; \<open>None\<close> when it does not fit.\<close>

definition dup_string :: "cell list \<Rightarrow> nat \<Rightarrow> fill \<Rightarrow> (fill option \<times> cell list) outcome" where
  "dup_string src q = (\<lambda>(buf, left, dst).
     obind (string_at (drop q src)) (\<lambda>s.
       let n = length s + 1
       in if left - int n \<le> 0 then Done (None, dst)
          else obind (mwrite buf (strncpy_cells s n) dst) (\<lambda>d. Done (Some (buf + n, left - int n, d), d))))"

fun dup_aliases :: "nat \<Rightarrow> nat \<Rightarrow> nat \<Rightarrow> nat \<Rightarrow> cell list \<Rightarrow> fill \<Rightarrow> (fill option \<times> cell list) outcome" where
  "dup_aliases 0 i src_list dst_list src (buf, left, dst) =
     obind (mwrite (dst_list + 8 * i) (ptr_cells None) dst) (\<lambda>d. Done (Some (buf, left, d), d))"
| "dup_aliases (Suc n) i src_list dst_list src (buf, left, dst) =
     obind (mwrite (dst_list + 8 * i) (ptr_cells (Some buf)) dst) (\<lambda>d1.
     obind (load_ptr src (src_list + 8 * i)) (\<lambda>p.
       case p of
         None \<Rightarrow> Crash
       | Some q \<Rightarrow>
           obind (dup_string src q (buf, left, d1)) (\<lambda>(fl, d2).
             case fl of
               None \<Rightarrow> Done (None, d2)
             | Some st \<Rightarrow> dup_aliases n (i + 1) src_list dst_list src st)))"

text \<open>The length of an address is taken to be the distance of the first two.\<close>

definition dup_rdlength :: "cell list \<Rightarrow> nat \<Rightarrow> int outcome" where
  "dup_rdlength src src_list =
     obind (load_ptr src src_list) (\<lambda>p0.
       case p0 of
         None \<Rightarrow> obind (load_ptr src (src_list + 8)) (\<lambda>p1. Done 4)
       | Some q0 \<Rightarrow> obind (load_ptr src (src_list + 8)) (\<lambda>p1.
           case p1 of None \<Rightarrow> Done 4 | Some q1 \<Rightarrow> Done (int q1 - int q0)))"

text \<open>
  \<open>dup_hostentry\<close> after its checks: the addresses, the aliases, the name. \<open>out\<close> is \<open>*pheOut\<close>; the
  result is the code, the entry, \<open>*h_errnop\<close> and the buffer.
\<close>

definition dup_tables ::
    "hostent \<Rightarrow> nat \<Rightarrow> nat \<Rightarrow> int \<Rightarrow> nat \<Rightarrow> cell list \<Rightarrow> hostent \<Rightarrow> int \<Rightarrow> int \<Rightarrow> cell list \<Rightarrow> (int \<times> hostent \<times> int \<times> cell list) outcome" where
  "dup_tables he src_list add_count rdlength nalias src out herr buflen dst =
     (let out1 = out\<lparr>he_addr_list := Some 4\<rparr>; left1 = buflen - 4 - 8 * int add_count; buf1 = 4 + 8 * add_count
      in if left1 \<le> 0 then Done (ERANGE, out1, herr, dst)
         else
           obind (mwrite 4 (ptr_array [Some 0, None]) dst) (\<lambda>d1.
           obind (if rdlength > 0 then dup_addrs (add_count - 1) 0 (nat rdlength) src_list 4 src (buf1, left1, d1)
                  else Done (Some (buf1, left1, d1), d1)) (\<lambda>(fl2, d2).
             case fl2 of
               None \<Rightarrow> Done (ERANGE, out1, herr, d2)
             | Some (buf2, left2, d3) \<Rightarrow>
                 (let out2 = out1\<lparr>he_aliases := Some buf2\<rparr>; left3 = left2 - 8 * int nalias; buf3 = buf2 + 8 * nalias
                  in if left3 \<le> 0 then Done (ERANGE, out2, herr, d3)
                     else
                       obind (dup_aliases (nalias - 1) 0 (case he_aliases he of None \<Rightarrow> 0 | Some al \<Rightarrow> al) buf2 src (buf3, left3, d3)) (\<lambda>(fl4, d4).
                         case fl4 of
                           None \<Rightarrow> Done (ERANGE, out2, herr, d4)
                         | Some (buf4, left4, d5) \<Rightarrow>
                             (let out3 = out2\<lparr>he_name := Some buf4\<rparr>
                              in case he_name he of
                                   None \<Rightarrow> Crash
                                 | Some q \<Rightarrow>
                                     obind (dup_string src q (buf4, left4, d5)) (\<lambda>(fl5, d6).
                                       if fl5 = None then Done (ERANGE, out3, herr, d6)
                                       else Done (NETDB_SUCCESS, out3, NETDB_SUCCESS, d6))))))))"

text \<open>
  \<open>dup_hostentry\<close>: a missing table of addresses leaves \<open>rdlength\<close> uninitialised, which is then tested:
  \<open>Crash\<close>. \<open>f\<close> bounds the entries of the tables counted.
\<close>

definition dup_hostentry ::
    "nat \<Rightarrow> hostent option \<Rightarrow> cell list \<Rightarrow> hostent \<Rightarrow> int \<Rightarrow> int \<Rightarrow> cell list option \<Rightarrow> (int \<times> hostent \<times> int \<times> cell list option) outcome" where
  "dup_hostentry f he_in src out herr buflen dst_in =
     (case (he_in, dst_in) of
        (Some he, Some dst) \<Rightarrow>
          if buflen \<le> 0 then Done (ERANGE, out, herr, dst_in)
          else
            obind (mwrite 0 (replicate (nat buflen) (Byte 0)) dst) (\<lambda>d0.
              let out0 = \<lparr>he_name = None, he_aliases = None, he_addrtype = he_addrtype he,
                          he_length = he_length he, he_addr_list = None\<rparr>
              in if he_addrtype he \<noteq> AF_INET then Done (TRY_AGAIN, out0, HOST_NOT_FOUND, Some d0)
                 else
                   (case he_addr_list he of
                      None \<Rightarrow> Crash
                    | Some src_list \<Rightarrow>
                        obind (count_ptrs f src src_list) (\<lambda>add_count.
                        obind (dup_rdlength src src_list) (\<lambda>rdlength.
                        obind (case he_aliases he of None \<Rightarrow> Done 0 | Some al \<Rightarrow> count_ptrs f src al) (\<lambda>nalias.
                        obind (dup_tables he src_list add_count rdlength nalias src out0 herr buflen d0)
                          (\<lambda>(code, out', herr', d). Done (code, out', herr', Some d)))))))
      | _ \<Rightarrow> Done (ERANGE, out, herr, dst_in))"

section \<open>The tables of addresses\<close>

definition addr_table :: "nat \<Rightarrow> nat \<Rightarrow> nat option list" where
  "addr_table n r = Some 0 # map (\<lambda>i. Some (NAME_OFF - 16 + r * i)) [0..<n] @ [None]"

lemma length_addr_table [simp]: "length (addr_table n r) = n + 2"
  by (simp add: addr_table_def)

lemma nth_addr_table:
  "addr_table n r ! 0 = Some 0" "i < n \<Longrightarrow> addr_table n r ! (i + 1) = Some (NAME_OFF - 16 + r * i)"
  "addr_table n r ! (n + 1) = None"
  by (simp_all add: addr_table_def nth_append)

text \<open>The room the check leaves: the tables fit and at least 240 bytes remain for the name.\<close>

lemma table_room:
  assumes "(r + 8) * n + 256 \<le> (len :: nat)"
  shows "n * r + 8 * (n + 2) + 240 \<le> len"
  using assms by (simp add: algebra_simps)

lemma place_addresses_some:
  assumes room: "(r + 8) * n + 256 \<le> length m - NAME_OFF" and n: "0 < n"
  obtains m' where
    "place_addresses n r m = Done (NAME_OFF + n * r + 8 * (n + 2), NAME_OFF + n * r, m')"
    and "length m' = length m"
    and "mread (NAME_OFF + n * r) (8 * (n + 2)) m' = Done (ptr_array (addr_table n r))"
    and "mread (NAME_OFF - 16) (n * r) m' = mread NAME_OFF (n * r) m"
proof -
  have fit: "NAME_OFF + (n * r + 8 * (n + 2) + 240) \<le> length m"
    using table_room [OF room] room by simp
  obtain addrs where a: "mread NAME_OFF (n * r) m = Done addrs" "length addrs = n * r"
    using fit by (simp add: mread_def)
  obtain m1 where m1: "mwrite (NAME_OFF - 16) addrs m = Done m1" "length m1 = length m"
    by (rule mwrite_total [of "NAME_OFF - 16" addrs m]) (use fit a(2) in simp_all)
  obtain m2 where m2: "mwrite (NAME_OFF + n * r) (ptr_array (addr_table n r)) m1 = Done m2" "length m2 = length m1"
    by (rule mwrite_total [of "NAME_OFF + n * r" "ptr_array (addr_table n r)" m1]) (use fit m1(2) in simp_all)
  have "place_addresses n r m = Done (NAME_OFF + n * r + 8 * (n + 2), NAME_OFF + n * r, m2)"
    using n a m1 m2 by (simp add: place_addresses_def addr_table_def)
  moreover have "mread (NAME_OFF + n * r) (8 * (n + 2)) m2 = Done (ptr_array (addr_table n r))"
    using m2(1) by (rule mread_same) simp
  moreover have "mread (NAME_OFF - 16) (n * r) m2 = Done addrs"
  proof -
    have "mread (NAME_OFF - 16) (n * r) m2 = mread (NAME_OFF - 16) (n * r) m1"
      using m2(1) by (rule mread_disjoint) simp
    with mread_same [OF m1(1) a(2) [symmetric]] show ?thesis by simp
  qed
  ultimately show ?thesis using that m1(2) m2(2) a(1) by simp
qed

text \<open>Both layouts at once: where the table is, what is in it, the room for the name.\<close>

lemma place_addresses_total:
  assumes room: "(r + 8) * n + 256 \<le> length m - NAME_OFF"
    and first: "mread ADDR_LIST_OFF 16 m = Done (ptr_array [Some 0, None])"
  obtains buf al m' where "place_addresses n r m = Done (buf, al, m')" and "length m' = length m"
    and "buf + 240 \<le> length m" and "4 \<le> al" and "al + 8 * (n + 2) \<le> buf"
    and "mread al (8 * (n + 2)) m' = Done (ptr_array (addr_table n r))"
    and "mread (NAME_OFF - 16) (n * r) m' = mread (if n = 0 then NAME_OFF - 16 else NAME_OFF) (n * r) m"
    and "NAME_OFF - 16 + n * r \<le> buf"
proof (cases "n = 0")
  case True
  show ?thesis
  proof (rule that [of NAME_OFF ADDR_LIST_OFF m])
    show "place_addresses n r m = Done (NAME_OFF, ADDR_LIST_OFF, m)" using True by (simp add: place_addresses_def)
    show "mread ADDR_LIST_OFF (8 * (n + 2)) m = Done (ptr_array (addr_table n r))"
      using first True by (simp add: addr_table_def)
  qed (use True room in \<open>simp_all add: layout\<close>)
next
  case False
  then obtain m' where m': "place_addresses n r m = Done (NAME_OFF + n * r + 8 * (n + 2), NAME_OFF + n * r, m')"
    "length m' = length m" "mread (NAME_OFF + n * r) (8 * (n + 2)) m' = Done (ptr_array (addr_table n r))"
    "mread (NAME_OFF - 16) (n * r) m' = mread NAME_OFF (n * r) m"
    using place_addresses_some [OF room] by auto
  show ?thesis
  proof (rule that [OF m'(1,2)])
    show "NAME_OFF + n * r + 8 * (n + 2) + 240 \<le> length m" using table_room [OF room] room by simp
    show "mread (NAME_OFF - 16) (n * r) m' = mread (if n = 0 then NAME_OFF - 16 else NAME_OFF) (n * r) m"
      using m'(4) False by simp
  qed (use m'(3) in \<open>simp_all add: layout\<close>)
qed

section \<open>The name\<close>

lemma string_at_prefix:
  "CHR 0x00 \<notin> set s \<Longrightarrow> string_at (map (\<lambda>c. Byte (byte_of c)) s @ Byte 0 # cs) = Done s"
  by (induction s) (auto simp: byte_of_0)

lemma string_at_strncpy:
  assumes "CHR 0x00 \<notin> set s" and "length s < n"
  shows "string_at (strncpy_cells s n @ cs) = Done s"
proof -
  obtain k where k: "n - length s = Suc k" using assms(2) by (metis Suc_diff_Suc)
  have "strncpy_cells s n = map (\<lambda>c. Byte (byte_of c)) s @ Byte 0 # replicate k (Byte 0)"
    using assms(2) k by (simp add: strncpy_cells_def min_absorb1 byte_of_def del: replicate_Suc) simp
  with string_at_prefix [OF assms(1)] show ?thesis by simp
qed

lemma string_at_written:
  assumes "mwrite off (strncpy_cells s n) m = Done m'" and "CHR 0x00 \<notin> set s" and "length s < n"
  shows "string_at (drop off m') = Done s"
proof -
  have "drop off m' = strncpy_cells s n @ drop (off + n) m"
    using assms(1) by (auto simp: mwrite_def split: if_splits)
  with string_at_strncpy [OF assms(2,3)] show ?thesis by simp
qed

lemma string_at_other_write:
  assumes "mwrite off xs m = Done m'" and "off + length xs \<le> o'"
  shows "string_at (drop o' m') = string_at (drop o' m)"
proof -
  have "drop o' m' = drop o' m"
    using assms by (auto simp: mwrite_def min_def split: if_splits)
  then show ?thesis by simp
qed

section \<open>Properties\<close>

text \<open>C17. The host entry made of an answer: the table it points to lists the address of the first
  answer at the start of the buffer and then every further address the lookup collected, in order,
  and ends with a null pointer; the name is the owner name when that is shorter than the room left,
  which is at least 240 bytes.\<close>

theorem hostent_lists_every_address:
  assumes room: "(nat (ra_rdlength a) + 8) * ra_add_count a + 256 \<le> length m - NAME_OFF"
    and first: "mread ADDR_LIST_OFF 16 m = Done (ptr_array [Some 0, None])"
    and addrs: "mread NAME_OFF (ra_add_count a * nat (ra_rdlength a)) m = Done (map Byte addrs)"
    and live: "ra_block a \<in> set (nh_live h)" and ty: "ra_atype a = T_A"
    and ip: "rd_block packet (ra_rdata a) 4 = Done ip"
    and name: "CHR 0x00 \<notin> set (ra_dotted a)"
  shows "\<exists>m' buf al. fill_hostent packet a h m =
      Done (NETDB_SUCCESS, Some (local_hostent buf al), NETDB_SUCCESS, nh_free (ra_block a) h, m') \<and>
    load_ptr m' al = Done (Some 0) \<and> mread 0 4 m' = Done (map Byte ip) \<and>
    (\<forall>i < ra_add_count a. \<exists>p. load_ptr m' (al + 8 * (i + 1)) = Done (Some p) \<and>
       mread p (nat (ra_rdlength a)) m' = Done (map Byte (take (nat (ra_rdlength a)) (drop (nat (ra_rdlength a) * i) addrs)))) \<and>
    load_ptr m' (al + 8 * (ra_add_count a + 1)) = Done None \<and> buf + 240 \<le> length m \<and>
    (length (ra_dotted a) < length m - buf \<longrightarrow> string_at (drop buf m') = Done (ra_dotted a))"
proof -
  let ?n = "ra_add_count a" and ?r = "nat (ra_rdlength a)"
  obtain buf al m1 where p: "place_addresses ?n ?r m = Done (buf, al, m1)" "length m1 = length m"
      "buf + 240 \<le> length m" "4 \<le> al" "al + 8 * (?n + 2) \<le> buf"
      "mread al (8 * (?n + 2)) m1 = Done (ptr_array (addr_table ?n ?r))"
      "mread (NAME_OFF - 16) (?n * ?r) m1 = mread (if ?n = 0 then NAME_OFF - 16 else NAME_OFF) (?n * ?r) m"
      "NAME_OFF - 16 + ?n * ?r \<le> buf"
    by (rule place_addresses_total [OF room first])
  let ?cs = "strncpy_cells (ra_dotted a) (length m - buf)"
  obtain m2 where m2: "mwrite buf ?cs m1 = Done m2" "length m2 = length m1"
    by (rule mwrite_total [of buf ?cs m1]) (use p(2,3) in simp_all)
  have lip: "length ip = 4" using ip by (auto simp: rd_block_def split: if_splits)
  obtain m3 where m3: "mwrite 0 (map Byte ip) m2 = Done m3"
    by (rule mwrite_total [of 0 "map Byte ip" m2]) (use p(2,3,4,5) m2(2) lip in simp_all)
  have F: "fill_hostent packet a h m =
      Done (NETDB_SUCCESS, Some (local_hostent buf al), NETDB_SUCCESS, nh_free (ra_block a) h, m3)"
    using room p(1) m2(1) m3 live ty ip by (simp add: fill_hostent_def Let_def)
  have keep: "mread o' k m3 = mread o' k m1" if "4 \<le> o'" "o' + k \<le> buf" for o' k
    using mread_disjoint [OF m3, of o' k] mread_disjoint [OF m2(1), of o' k] that lip by simp
  have T: "load_ptr m3 (al + 8 * i) = Done (addr_table ?n ?r ! i)" if "i < ?n + 2" for i
    using load_ptr_array [of al "addr_table ?n ?r" m3 i] that keep [of al "8 * (?n + 2)"] p(4,5,6) by simp
  have A: "mread (NAME_OFF - 16 + ?r * i) ?r m3 = Done (map Byte (take ?r (drop (?r * i) addrs)))" if i: "i < ?n" for i
  proof -
    have "?r * i + ?r \<le> ?n * ?r" using i by (metis Suc_leI mult.commute mult_Suc_right mult_le_mono1 add.commute)
    moreover have "mread (NAME_OFF - 16) (?n * ?r) m3 = Done (map Byte addrs)"
      using keep [of "NAME_OFF - 16" "?n * ?r"] p(7,8) addrs i by (simp add: layout)
    ultimately show ?thesis using mread_part by (metis drop_map take_map)
  qed
  have S: "string_at (drop buf m3) = Done (ra_dotted a)" if "length (ra_dotted a) < length m - buf"
    using string_at_written [OF m2(1) name that] string_at_other_write [OF m3, of buf] lip p(4,5) by simp
  show ?thesis
  proof (intro exI conjI allI impI)
    show "fill_hostent packet a h m =
      Done (NETDB_SUCCESS, Some (local_hostent buf al), NETDB_SUCCESS, nh_free (ra_block a) h, m3)" by (rule F)
    show "load_ptr m3 al = Done (Some 0)" using T [of 0] by (simp add: nth_addr_table)
    show "mread 0 4 m3 = Done (map Byte ip)" using mread_same [OF m3] lip by simp
    show "load_ptr m3 (al + 8 * (?n + 1)) = Done None" using T [of "?n + 1"] nth_addr_table(3) [of ?n ?r] by simp
    show "buf + 240 \<le> length m" by (rule p(3))
    show "string_at (drop buf m3) = Done (ra_dotted a)" if "length (ra_dotted a) < length m - buf" using that by (rule S)
    fix i assume i: "i < ?n"
    show "load_ptr m3 (al + 8 * (i + 1)) = Done (Some (NAME_OFF - 16 + ?r * i))"
      using T [of "i + 1"] i nth_addr_table(2) [OF i, of ?r] by simp
    show "mread (NAME_OFF - 16 + ?r * i) ?r m3 = Done (map Byte (take ?r (drop (?r * i) addrs)))" using i by (rule A)
  qed
qed

definition demo_buffer :: "cell list" where
  "demo_buffer =
     replicate 4 (Byte 0) @ ptr_array [Some 0, None] @ replicate 64 (Byte 0) @
     map Byte [10, 0, 0, 2, 10, 0, 0, 3] @ replicate 408 (Byte 0)"

definition demo_answer :: resolv_answer where
  "demo_answer = empty_answer\<lparr>ra_dotted := ''www'', ra_block := 1, ra_atype := 1, ra_rdlength := 4, ra_rdata := 2, ra_add_count := 2\<rparr>"

theorem hostent_lists_every_address_witness:
  "\<exists>m' buf al. fill_hostent [0, 0, 10, 0, 0, 1] demo_answer \<lparr>nh_next = 2, nh_live = [1], nh_bad = False\<rparr> demo_buffer =
      Done (0, Some (local_hostent buf al), 0, \<lparr>nh_next = 2, nh_live = [], nh_bad = False\<rparr>, m') \<and>
    mread 0 4 m' = Done (map Byte [10, 0, 0, 1]) \<and>
    (\<exists>p. load_ptr m' (al + 16) = Done (Some p) \<and> mread p 4 m' = Done (map Byte [10, 0, 0, 3]))"
proof -
  let ?h = "\<lparr>nh_next = 2, nh_live = [1], nh_bad = False\<rparr>"
  have room: "(nat (ra_rdlength demo_answer) + 8) * ra_add_count demo_answer + 256 \<le> length demo_buffer - NAME_OFF"
    by code_simp
  have first: "mread ADDR_LIST_OFF 16 demo_buffer = Done (ptr_array [Some 0, None])" by code_simp
  have addrs: "mread NAME_OFF (ra_add_count demo_answer * nat (ra_rdlength demo_answer)) demo_buffer =
      Done (map Byte [10, 0, 0, 2, 10, 0, 0, 3])" by code_simp
  have live: "ra_block demo_answer \<in> set (nh_live ?h)" and ty: "ra_atype demo_answer = T_A"
    by (simp_all add: demo_answer_def T_A_def)
  have ip: "rd_block [0, 0, 10, 0, 0, 1] (ra_rdata demo_answer) 4 = Done [10, 0, 0, 1]" by code_simp
  have name: "CHR 0x00 \<notin> set (ra_dotted demo_answer)" by (simp add: demo_answer_def)
  have d: "ra_add_count demo_answer = 2" "nat (ra_rdlength demo_answer) = 4" "nh_free (ra_block demo_answer) ?h = ?h\<lparr>nh_live := []\<rparr>"
    by (simp_all add: demo_answer_def nh_free_def)
  obtain m' buf al where F: "fill_hostent [0, 0, 10, 0, 0, 1] demo_answer ?h demo_buffer =
      Done (NETDB_SUCCESS, Some (local_hostent buf al), NETDB_SUCCESS, ?h\<lparr>nh_live := []\<rparr>, m')"
    and I: "mread 0 4 m' = Done (map Byte [10, 0, 0, 1])"
    and A: "\<forall>i < 2. \<exists>p. load_ptr m' (al + 8 * (i + 1)) = Done (Some p) \<and>
       mread p 4 m' = Done (map Byte (take 4 (drop (4 * i) [10, 0, 0, 2, 10, 0, 0, 3])))"
    using hostent_lists_every_address [OF room first addrs live ty ip name] unfolding d by blast
  from A have "\<exists>p. load_ptr m' (al + 8 * (1 + 1)) = Done (Some p) \<and>
       mread p 4 m' = Done (map Byte (take 4 (drop (4 * 1) [10, 0, 0, 2, 10, 0, 0, 3])))" by (rule allE [of _ 1]) simp
  then have "\<exists>p. load_ptr m' (al + 16) = Done (Some p) \<and> mread p 4 m' = Done (map Byte [10, 0, 0, 3])" by simp
  with F I show ?thesis by (auto simp: netdb_codes)
qed

text \<open>Asking for the second server when only one is configured: the blocking lookup gives up
  with \<open>TRY_AGAIN\<close> before it sends anything, but it leaves the first server overwritten with the
  null pointer; the asynchronous lookup hands the null pointer to \<open>inet_addr\<close> and crashes.\<close>

lemma second_server_missing:
  assumes servers: "open_nameservers file (rs_conf s) = (0, c)" "rc_ns c = [Some srv, None, None]"
    and first: "rs_first s" and name: "CHR 0x00 \<notin> set nm" "length nm \<le> 490"
    and nolit: "inet_aton nm = None" and buf: "prepare_buffer nm m = Done (True, m1)"
    and bytes: "load_bytes (drop NAME_OFF m1) = Done bs" and tries: "0 < nRetries" "te_socket_ok env"
  shows "gethostbyname_r_2 inet_aton f mem_ok file envs (Some nm) 2 herr m s =
           Done \<lparr>gr_code = TRY_AGAIN, gr_host = None, gr_herrno = HOST_NOT_FOUND, gr_mem = m1,
                 gr_state = s\<lparr>rs_conf := c\<lparr>rc_ns := [None, None, None]\<rparr>\<rparr>\<rparr> \<and>
         gethostbyname_r_2_async inet_aton f True file (env # envs) (Some nm) 2 nRetries herr m s = Crash"
proof
  show "gethostbyname_r_2 inet_aton f mem_ok file envs (Some nm) 2 herr m s =
           Done \<lparr>gr_code = TRY_AGAIN, gr_host = None, gr_herrno = HOST_NOT_FOUND, gr_mem = m1,
                 gr_state = s\<lparr>rs_conf := c\<lparr>rc_ns := [None, None, None]\<rparr>\<rparr>\<rparr>"
    using servers nolit buf by (simp add: gethostbyname_r_2_def host_prologue_def choose_servers_def Let_def)
  obtain q where q: "build_query ((rs_id s + 1) AND 0xffff) T_A nm = Some q"
    by (cases "build_query ((rs_id s + 1) AND 0xffff) T_A nm") (use build_query_fits [OF name(2)] in blast)+
  have lk: "build_lookup nm (-1) c' = Done nm" for c' using name by (intro build_lookup_first) simp_all
  have "lookup_loop f nRetries (c\<lparr>rc_ns := [None, None, None]\<rparr>) nm T_A 1 (env # envs)
      \<lparr>lk_ns = rs_ns s mod 1, lk_id = rs_id s, lk_retries = 0, lk_variant = -1\<rparr> [] (start_answer bs) (rs_names s) = Crash"
    using q lk tries by (cases q) (subst lookup_loop.simps, simp add: Let_def)
  then show "gethostbyname_r_2_async inet_aton f True file (env # envs) (Some nm) 2 nRetries herr m s = Crash"
    using servers first nolit buf bytes
    by (simp add: gethostbyname_r_2_async_def host_prologue_def choose_servers_def lookup_host_def
        dns_lookup_with_def Let_def)
qed

definition fresh_resolver :: resolver where
  "fresh_resolver = \<lparr>rs_conf = resolv_start, rs_ns = 0, rs_id = 1, rs_names = empty_names, rs_first = True\<rparr>"

lemma second_server_missing_witness:
  "gethostbyname_r_2_async (\<lambda>_. None) 9 True (Some [''nameserver 10.0.0.1'']) [silent] (Some ''a.b'') 2 4 0
     (replicate 500 (Byte 0)) fresh_resolver = Crash"
proof -
  have c: "open_nameservers (Some [''nameserver 10.0.0.1'']) (rs_conf fresh_resolver) =
      (0, resolv_start\<lparr>rc_ns := [Some ''10.0.0.1'', None, None], rc_nscount := 1\<rparr>)" by code_simp
  have "map_outcome (\<lambda>(ok, m). (ok, load_bytes (drop NAME_OFF m))) (prepare_buffer ''a.b'' (replicate 500 (Byte 0))) =
      Done (True, Done ([97, 46, 98] @ replicate 413 0))" by code_simp
  then obtain m1 where p: "prepare_buffer ''a.b'' (replicate 500 (Byte 0)) = Done (True, m1)"
      "load_bytes (drop NAME_OFF m1) = Done ([97, 46, 98] @ replicate 413 0)"
    by (cases "prepare_buffer ''a.b'' (replicate 500 (Byte 0))") auto
  show ?thesis
    by (rule conjunct2 [OF second_server_missing [where inet_aton = "\<lambda>_. None" and mem_ok = True and herr = 0,
          OF c _ _ _ _ _ p]]) (simp_all add: fresh_resolver_def silent_def)
qed

end
