(* ===== verification/Ns_Timer.thy ===== *)
theory Ns_Timer
  imports Eloop_Timeout
begin

text \<open>
  The timers of ns_support/ns_timer_support.c: the event loop's timeouts and signals without
  sockets, in 32 contexts of the static table \<open>eloopTbl\<close>, driven by \<open>expire_timers\<close> from a
  foreign poll loop that waits for \<open>find_nearest_timeout_ms\<close>. A context is its index. Signals
  have no context: the handler counts them in the context \<open>p_eloopTbl[0]\<close>. A handler is
  application code, given by the calls it makes; it is called without an exception context.
\<close>

section \<open>State\<close>

record ns_timeout =
  nt_addr :: ptr
  nt_time :: os_time
  nt_eloop_data :: ptr
  nt_user_data :: ptr
  nt_handler :: ptr

record ns_data =
  nd_user_data :: ptr
  nd_timeout :: "ns_timeout list"
  nd_signals :: "eloop_signal list"
  nd_signaled :: int
  nd_pending_terminate :: bool
  nd_terminate :: bool
  nd_tmp_terminate :: int

definition NUM_ELOOP_MAX :: nat where "NUM_ELOOP_MAX = 32"

text \<open>The static tables and the process around them, as for the event loop.\<close>

record ns_sys =
  ns_tbl :: "ns_data list"
  ns_ptrs :: "nat option list"
  ns_heap :: "ptr list"
  ns_bad_free :: bool
  ns_alarm :: bool
  ns_installed :: "int list"
  ns_trace :: "callback list"

definition zero_ns :: ns_data where
  "zero_ns = \<lparr>nd_user_data = NULL, nd_timeout = [], nd_signals = [], nd_signaled = 0,
     nd_pending_terminate = False, nd_terminate = False, nd_tmp_terminate = 0\<rparr>"

text \<open>The initial values: only the first eight pointers are set.\<close>

definition ns_boot :: ns_sys where
  "ns_boot = \<lparr>ns_tbl = replicate NUM_ELOOP_MAX zero_ns,
     ns_ptrs = map Some [0..<8] @ replicate (NUM_ELOOP_MAX - 8) None,
     ns_heap = [], ns_bad_free = False, ns_alarm = False, ns_installed = [], ns_trace = []\<rparr>"

definition AUTO_INIT_CTX_TBL :: "ns_sys \<Rightarrow> ns_sys" where
  "AUTO_INIT_CTX_TBL s =
     (if ns_ptrs s ! (NUM_ELOOP_MAX - 1) = None then s\<lparr>ns_ptrs := map Some [0..<NUM_ELOOP_MAX]\<rparr> else s)"

definition ns_upd :: "nat \<Rightarrow> (ns_data \<Rightarrow> ns_data) \<Rightarrow> ns_sys \<Rightarrow> ns_sys" where
  "ns_upd i f s = s\<lparr>ns_tbl := (ns_tbl s)[i := f (ns_tbl s ! i)]\<rparr>"

abbreviation ctx_of :: "nat \<Rightarrow> ns_sys \<Rightarrow> ns_data" where
  "ctx_of i s \<equiv> ns_tbl s ! i"

definition ns_free :: "ptr \<Rightarrow> ns_sys \<Rightarrow> ns_sys" where
  "ns_free p s =
     (if p = NULL then s
      else if p \<in> set (ns_heap s) then s\<lparr>ns_heap := remove1 p (ns_heap s)\<rparr>
      else s\<lparr>ns_bad_free := True\<rparr>)"

section \<open>Contexts\<close>

definition ns_eloop_init :: "nat \<Rightarrow> ptr \<Rightarrow> ns_sys \<Rightarrow> ns_sys" where
  "ns_eloop_init i user_data s = ns_upd i (\<lambda>_. zero_ns\<lparr>nd_user_data := user_data\<rparr>) (AUTO_INIT_CTX_TBL s)"

definition init_timers :: "nat \<Rightarrow> ptr \<Rightarrow> ns_sys \<Rightarrow> ns_sys" where
  "init_timers = ns_eloop_init"

text \<open>The nodes are freed, the list and the signals stay as they are.\<close>

definition ns_eloop_destroy :: "nat \<Rightarrow> ns_sys \<Rightarrow> ns_sys" where
  "ns_eloop_destroy i s = fold ns_free (map nt_addr (nd_timeout (ctx_of i s))) s"

definition destroy_timers :: "nat \<Rightarrow> ns_sys \<Rightarrow> ns_sys" where
  "destroy_timers = ns_eloop_destroy"

definition ns_eloop_terminate :: "nat \<Rightarrow> ns_sys \<Rightarrow> ns_sys" where
  "ns_eloop_terminate i = ns_upd i (\<lambda>d. d\<lparr>nd_terminate := True\<rparr>)"

definition ns_eloop_tmp_terminate :: "nat \<Rightarrow> int \<Rightarrow> ns_sys \<Rightarrow> ns_sys" where
  "ns_eloop_tmp_terminate i v = ns_upd i (\<lambda>d. d\<lparr>nd_tmp_terminate := v\<rparr>)"

definition ns_eloop_terminated :: "nat \<Rightarrow> ns_sys \<Rightarrow> bool" where
  "ns_eloop_terminated i s = nd_terminate (ctx_of i s)"

definition ns_eloop_get_user_data :: "nat \<Rightarrow> ns_sys \<Rightarrow> ptr" where
  "ns_eloop_get_user_data i s = nd_user_data (ctx_of i s)"

section \<open>Timeouts\<close>

fun ns_insert :: "ns_timeout \<Rightarrow> ns_timeout list \<Rightarrow> ns_timeout list" where
  "ns_insert x [] = [x]"
| "ns_insert x (y # ys) =
     (if os_time_before (nt_time x) (nt_time y) then x # y # ys else y # ns_insert x ys)"

definition ns_new_timeout :: "ptr \<Rightarrow> os_time \<Rightarrow> u32 \<Rightarrow> u32 \<Rightarrow> ptr \<Rightarrow> ptr \<Rightarrow> ptr \<Rightarrow> ns_timeout" where
  "ns_new_timeout p now secs usecs handler eloop_data user_data =
     \<lparr>nt_addr = p, nt_time = carry_usec (tm (sec now + uint secs) (usec now + uint usecs)),
      nt_eloop_data = eloop_data, nt_user_data = user_data, nt_handler = handler\<rparr>"

definition ns_register_timeout ::
    "nat \<Rightarrow> ptr \<Rightarrow> os_time \<Rightarrow> u32 \<Rightarrow> u32 \<Rightarrow> ptr \<Rightarrow> ptr \<Rightarrow> ptr \<Rightarrow> ns_sys \<Rightarrow> int \<times> ns_sys" where
  "ns_register_timeout i p now secs usecs handler eloop_data user_data s =
     (if p = NULL then (-1, s)
      else
        (let t = ns_new_timeout p now secs usecs handler eloop_data user_data
         in (0, ns_upd i (\<lambda>d. d\<lparr>nd_timeout := ns_insert t (nd_timeout d)\<rparr>) (s\<lparr>ns_heap := p # ns_heap s\<rparr>))))"

definition ns_matches :: "ptr \<Rightarrow> ptr \<Rightarrow> ptr \<Rightarrow> ns_timeout \<Rightarrow> bool" where
  "ns_matches handler eloop_data user_data t \<longleftrightarrow>
     nt_handler t = handler \<and>
     (nt_eloop_data t = eloop_data \<or> eloop_data = ELOOP_ALL_CTX) \<and>
     (nt_user_data t = user_data \<or> user_data = ELOOP_ALL_CTX)"

fun ns_cancel_walk :: "ptr \<Rightarrow> ptr \<Rightarrow> ptr \<Rightarrow> ns_timeout list \<Rightarrow> ns_sys \<Rightarrow> ns_timeout list \<times> int \<times> ns_sys" where
  "ns_cancel_walk h ed ud [] s = ([], 0, s)"
| "ns_cancel_walk h ed ud (t # ts) s =
     (if ns_matches h ed ud t then
        (let (kept, removed, s') = ns_cancel_walk h ed ud ts (ns_free (nt_addr t) s) in (kept, removed + 1, s'))
      else
        (let (kept, removed, s') = ns_cancel_walk h ed ud ts s in (t # kept, removed, s')))"

definition ns_cancel_timeout :: "nat \<Rightarrow> ptr \<Rightarrow> ptr \<Rightarrow> ptr \<Rightarrow> ns_sys \<Rightarrow> int \<times> ns_sys" where
  "ns_cancel_timeout i handler eloop_data user_data s =
     (let (kept, removed, s') = ns_cancel_walk handler eloop_data user_data (nd_timeout (ctx_of i s)) s
      in (removed, ns_upd i (\<lambda>d. d\<lparr>nd_timeout := kept\<rparr>) s'))"

section \<open>Waiting\<close>

definition get_eloop_timeval :: "nat \<Rightarrow> os_time \<Rightarrow> ns_sys \<Rightarrow> os_time" where
  "get_eloop_timeval i now s =
     (case nd_timeout (ctx_of i s) of
        [] \<Rightarrow> tm 0x7FFFFFF 0
      | t # _ \<Rightarrow> if os_time_before now (nt_time t) then os_time_sub (nt_time t) now else tm 0 0)"

definition find_nearest_timeout_ms :: "nat \<Rightarrow> os_time \<Rightarrow> ns_sys \<Rightarrow> u32" where
  "find_nearest_timeout_ms i now s =
     (let tv = get_eloop_timeval i now s
      in if sec tv \<ge> 0x7FFFFFF then 0xFFFFFFFF else word_of_int (sec tv * 1000 + usec tv div 1000))"

definition getcurTimeMs :: "os_time \<Rightarrow> u32" where
  "getcurTimeMs t = word_of_int (sec t * 1000 + usec t div 1000)"

section \<open>Signals\<close>

definition ns_register_signal :: "nat \<Rightarrow> bool \<Rightarrow> int \<Rightarrow> ptr \<Rightarrow> ptr \<Rightarrow> ns_sys \<Rightarrow> int \<times> ns_sys" where
  "ns_register_signal i realloc_ok sig handler user_data s =
     (if \<not> realloc_ok then (-1, s)
      else
        (let row = \<lparr>sg_sig = sig, sg_user_data = user_data, sg_handler = handler, sg_signaled = 0\<rparr>;
             s1 = ns_upd i (\<lambda>d. d\<lparr>nd_signals := nd_signals d @ [row]\<rparr>) s
         in (0, s1\<lparr>ns_installed := sig # ns_installed s1\<rparr>)))"

definition ns_register_signal_terminate :: "nat \<Rightarrow> bool \<Rightarrow> bool \<Rightarrow> ptr \<Rightarrow> ptr \<Rightarrow> ns_sys \<Rightarrow> int \<times> ns_sys" where
  "ns_register_signal_terminate i ok1 ok2 handler user_data s =
     (let (ret, s1) = ns_register_signal i ok1 SIGINT handler user_data s
      in if ret = 0 then ns_register_signal i ok2 SIGTERM handler user_data s1 else (ret, s1))"

definition ns_register_signal_reconfig :: "nat \<Rightarrow> bool \<Rightarrow> ptr \<Rightarrow> ptr \<Rightarrow> ns_sys \<Rightarrow> int \<times> ns_sys" where
  "ns_register_signal_reconfig i ok handler user_data s = ns_register_signal i ok SIGHUP handler user_data s"

fun ns_bump :: "int \<Rightarrow> eloop_signal list \<Rightarrow> eloop_signal list" where
  "ns_bump sig [] = []"
| "ns_bump sig (r # rs) =
     (if sg_sig r = sig then r\<lparr>sg_signaled := sg_signaled r + 1\<rparr> # rs else r # ns_bump sig rs)"

text \<open>The context is the one of \<open>p_eloopTbl[0]\<close>, whatever context the signal was registered in.\<close>

definition ns_handle_signal :: "int \<Rightarrow> ns_sys \<Rightarrow> ns_sys" where
  "ns_handle_signal sig s =
     (case ns_ptrs s ! 0 of
        None \<Rightarrow> s
      | Some i \<Rightarrow>
          (let s1 = (if (sig = SIGINT \<or> sig = SIGTERM) \<and> \<not> nd_pending_terminate (ctx_of i s)
                     then ns_upd i (\<lambda>d. d\<lparr>nd_pending_terminate := True\<rparr>) (s\<lparr>ns_alarm := True\<rparr>) else s)
           in ns_upd i (\<lambda>d. d\<lparr>nd_signaled := nd_signaled d + 1, nd_signals := ns_bump sig (nd_signals d)\<rparr>) s1))"

definition ns_handle_alarm :: "int \<Rightarrow> ns_sys \<Rightarrow> ns_sys outcome" where
  "ns_handle_alarm sig s = ExitProcess 1"

section \<open>Calls of an application\<close>

datatype ns_call =
    NRegisterTimeout nat ptr os_time u32 u32 ptr ptr ptr
  | NCancelTimeout nat ptr ptr ptr
  | NRegisterSignal nat bool int ptr ptr
  | NTerminate nat
  | NTmpTerminate nat int
  | NSignal int
  | NRestart nat ptr      \<comment> \<open>\<open>destroy_timers\<close>, then \<open>init_timers\<close>\<close>

fun ns_exec :: "ns_call \<Rightarrow> ns_sys \<Rightarrow> ns_sys" where
  "ns_exec (NRegisterTimeout i p now secs usecs h ed ud) s = snd (ns_register_timeout i p now secs usecs h ed ud s)"
| "ns_exec (NCancelTimeout i h ed ud) s = snd (ns_cancel_timeout i h ed ud s)"
| "ns_exec (NRegisterSignal i ok sig h ud) s = snd (ns_register_signal i ok sig h ud s)"
| "ns_exec (NTerminate i) s = ns_eloop_terminate i s"
| "ns_exec (NTmpTerminate i v) s = ns_eloop_tmp_terminate i v s"
| "ns_exec (NSignal sig) s = ns_handle_signal sig s"
| "ns_exec (NRestart i ud) s = init_timers i ud (destroy_timers i s)"

text \<open>What the environment guarantees: contexts of the table, blocks of \<open>malloc\<close> that are not live.\<close>

fun ns_call_ok :: "ns_call \<Rightarrow> ns_sys \<Rightarrow> bool" where
  "ns_call_ok (NRegisterTimeout i p now secs usecs h ed ud) s = (i < NUM_ELOOP_MAX \<and> p \<notin> set (ns_heap s))"
| "ns_call_ok (NCancelTimeout i h ed ud) s = (i < NUM_ELOOP_MAX)"
| "ns_call_ok (NRegisterSignal i ok sig h ud) s = (i < NUM_ELOOP_MAX)"
| "ns_call_ok (NTerminate i) s = (i < NUM_ELOOP_MAX)"
| "ns_call_ok (NTmpTerminate i v) s = (i < NUM_ELOOP_MAX)"
| "ns_call_ok (NSignal sig) s = True"
| "ns_call_ok (NRestart i ud) s = (i < NUM_ELOOP_MAX)"

fun ns_script_ok :: "ns_call list \<Rightarrow> ns_sys \<Rightarrow> bool" where
  "ns_script_ok [] s = True"
| "ns_script_ok (c # cs) s = (ns_call_ok c s \<and> ns_script_ok cs (ns_exec c s))"

section \<open>Expiry\<close>

type_synonym ns_handlers = "callback \<Rightarrow> ns_sys \<Rightarrow> ns_call list"

definition ns_callback :: "ns_handlers \<Rightarrow> callback \<Rightarrow> ns_sys \<Rightarrow> ns_sys" where
  "ns_callback sem cb s =
     (let s1 = s\<lparr>ns_trace := ns_trace s @ [cb]\<rparr> in fold ns_exec (sem cb s1) s1)"

text \<open>The loop over the rows from \<open>k\<close>; handlers may add rows, the first argument bounds the rounds.\<close>

fun ns_signals_from :: "nat \<Rightarrow> ns_handlers \<Rightarrow> nat \<Rightarrow> nat \<Rightarrow> ns_sys \<Rightarrow> ns_sys outcome" where
  "ns_signals_from 0 sem i k s = OutOfFuel"
| "ns_signals_from (Suc n) sem i k s =
     (if k < length (nd_signals (ctx_of i s)) then
        (let r = nd_signals (ctx_of i s) ! k
         in if sg_signaled r \<noteq> 0 then
              (let s1 = ns_upd i (\<lambda>d. d\<lparr>nd_signals := (nd_signals d)[k := r\<lparr>sg_signaled := 0\<rparr>]\<rparr>) s;
                   s2 = s1\<lparr>ns_installed := sg_sig r # ns_installed s1\<rparr>
               in ns_signals_from n sem i (Suc k)
                    (ns_callback sem (SignalCb (sg_handler r) (sg_sig r) (nd_user_data (ctx_of i s2)) (sg_user_data r)) s2))
            else ns_signals_from n sem i (Suc k) s)
      else Done s)"

definition ns_process_pending_signals :: "nat \<Rightarrow> ns_handlers \<Rightarrow> nat \<Rightarrow> ns_sys \<Rightarrow> ns_sys outcome" where
  "ns_process_pending_signals fuel sem i s =
     (if nd_signaled (ctx_of i s) = 0 then Done s
      else
        (let s1 = ns_upd i (\<lambda>d. d\<lparr>nd_signaled := 0\<rparr>) s;
             s2 = (if nd_pending_terminate (ctx_of i s1)
                   then ns_upd i (\<lambda>d. d\<lparr>nd_pending_terminate := False\<rparr>) (s1\<lparr>ns_alarm := False\<rparr>) else s1)
         in ns_signals_from fuel sem i 0 s2))"

text \<open>The value returned tells whether a timeout was run.\<close>

definition ns_fire :: "ns_handlers \<Rightarrow> nat \<Rightarrow> os_time \<Rightarrow> ns_sys \<Rightarrow> int \<times> ns_sys" where
  "ns_fire sem i now s =
     (case nd_timeout (ctx_of i s) of
        [] \<Rightarrow> (0, s)
      | t # ts \<Rightarrow>
          if \<not> os_time_before now (nt_time t) then
            (1, ns_free (nt_addr t)
                  (ns_callback sem (TimeoutCb (nt_handler t) (nt_eloop_data t) (nt_user_data t))
                     (ns_upd i (\<lambda>d. d\<lparr>nd_timeout := ts\<rparr>) s)))
          else (0, s))"

definition expire_timers :: "nat \<Rightarrow> ns_handlers \<Rightarrow> nat \<Rightarrow> os_time \<Rightarrow> ns_sys \<Rightarrow> (int \<times> ns_sys) outcome" where
  "expire_timers fuel sem i now s =
     obind (ns_process_pending_signals fuel sem i s) (\<lambda>s'. Done (ns_fire sem i now s'))"

end
