(* ===== verification/Ns_Timer_Laws.thy ===== *)
theory Ns_Timer_Laws
  imports Ns_Timer
begin

text \<open>
  The timers of ns_support/ns_timer_support.c: every call and every expiry keeps the blocks of
  all contexts accounted for and their lists ordered; the time to wait; what an expiry runs; the
  contexts that never see a signal.
\<close>

section \<open>The list is a queue ordered by deadline\<close>

interpretation nq: key_queue os_time_before nt_time ns_insert
  by unfold_locales (auto intro: os_time_before_trans dest: os_time_before_weak)

definition ns_sorted :: "ns_timeout list \<Rightarrow> bool" where
  "ns_sorted ts \<longleftrightarrow> sorted_wrt (\<lambda>a b. \<not> os_time_before (nt_time b) (nt_time a)) ts"

lemma ns_sorted_insert: "ns_sorted ts \<Longrightarrow> ns_sorted (ns_insert t ts)"
  unfolding ns_sorted_def by (rule nq.ins_sorted)

lemma ns_sorted_filter: "ns_sorted ts \<Longrightarrow> ns_sorted (filter P ts)"
  unfolding ns_sorted_def by (rule sorted_wrt_filter)

lemma ns_sorted_tl: "ns_sorted (t # ts) \<Longrightarrow> ns_sorted ts"
  by (simp add: ns_sorted_def)

lemma ns_sorted_Nil [simp]: "ns_sorted []"
  by (simp add: ns_sorted_def)

section \<open>The blocks of all contexts\<close>

definition addrs :: "ns_data \<Rightarrow> ptr multiset" where
  "addrs d = mset (map nt_addr (nd_timeout d))"

definition nodes :: "ns_sys \<Rightarrow> ptr multiset" where
  "nodes s = sum_list (map addrs (ns_tbl s))"

text \<open>\<open>X\<close>: blocks that are live but in no list, such as the timeout whose handler runs.\<close>

definition ns_inv :: "ptr multiset \<Rightarrow> ns_sys \<Rightarrow> bool" where
  "ns_inv X s \<longleftrightarrow>
     length (ns_tbl s) = NUM_ELOOP_MAX \<and> mset (ns_heap s) = X + nodes s \<and> distinct (ns_heap s) \<and>
     NULL \<notin> set (ns_heap s) \<and> \<not> ns_bad_free s \<and> (\<forall>d \<in> set (ns_tbl s). ns_sorted (nd_timeout d))"

lemma sum_list_update:
  fixes f :: "'a \<Rightarrow> 'b :: comm_monoid_add"
  assumes "i < length xs"
  shows "sum_list (map f (xs[i := y])) + f (xs ! i) = sum_list (map f xs) + f y"
  using assms
proof (induction xs arbitrary: i)
  case (Cons x xs)
  show ?case
  proof (cases i)
    case 0
    then show ?thesis by (simp add: add_ac)
  next
    case (Suc k)
    with Cons show ?thesis by (simp add: add.assoc)
  qed
qed simp

lemma ns_upd_simps [simp]:
  "ns_heap (ns_upd i f s) = ns_heap s" "ns_bad_free (ns_upd i f s) = ns_bad_free s"
  "ns_ptrs (ns_upd i f s) = ns_ptrs s" "ns_alarm (ns_upd i f s) = ns_alarm s"
  "ns_installed (ns_upd i f s) = ns_installed s" "ns_trace (ns_upd i f s) = ns_trace s"
  "length (ns_tbl (ns_upd i f s)) = length (ns_tbl s)"
  by (simp_all add: ns_upd_def)

lemma ctx_of_upd [simp]:
  "i < length (ns_tbl s) \<Longrightarrow> ctx_of i (ns_upd i f s) = f (ctx_of i s)"
  "i \<noteq> j \<Longrightarrow> ctx_of j (ns_upd i f s) = ctx_of j s"
  by (simp_all add: ns_upd_def)

lemma nodes_upd:
  "i < length (ns_tbl s) \<Longrightarrow> nodes (ns_upd i f s) + addrs (ctx_of i s) = nodes s + addrs (f (ctx_of i s))"
  unfolding nodes_def by (simp add: ns_upd_def sum_list_update)

lemma set_upd: "d \<in> set (ns_tbl (ns_upd i f s)) \<Longrightarrow> d = f (ctx_of i s) \<or> d \<in> set (ns_tbl s)"
  using set_update_subset_insert [of "ns_tbl s" i "f (ctx_of i s)"] by (auto simp: ns_upd_def)

text \<open>A changed list of one context: the balance moves to the other side.\<close>

lemma ns_inv_upd:
  assumes "ns_inv X s" and "i < NUM_ELOOP_MAX" and "ns_sorted (nd_timeout (f (ctx_of i s)))"
    and "X + addrs (ctx_of i s) = Y + addrs (f (ctx_of i s))"
  shows "ns_inv Y (ns_upd i f s)"
proof -
  have i: "i < length (ns_tbl s)" using assms(1,2) by (simp add: ns_inv_def)
  have "Y + nodes (ns_upd i f s) + addrs (ctx_of i s) = X + nodes s + addrs (ctx_of i s)"
    using nodes_upd [OF i, of f] assms(4) by (metis add.assoc add.commute)
  then have "Y + nodes (ns_upd i f s) = X + nodes s" by simp
  with assms(1,3) set_upd [of _ i f s] show ?thesis by (auto simp: ns_inv_def)
qed

lemma ns_inv_upd_same:
  assumes "ns_inv X s" and "i < NUM_ELOOP_MAX" and "\<And>d. nd_timeout (f d) = nd_timeout d"
  shows "ns_inv X (ns_upd i f s)"
proof (rule ns_inv_upd [OF assms(1,2)])
  have "ctx_of i s \<in> set (ns_tbl s)" using assms(1,2) by (simp add: ns_inv_def)
  with assms(1,3) show "ns_sorted (nd_timeout (f (ctx_of i s)))" by (simp add: ns_inv_def)
  show "X + addrs (ctx_of i s) = X + addrs (f (ctx_of i s))" using assms(3) by (simp add: addrs_def)
qed

lemma ns_inv_free:
  assumes "ns_inv (add_mset p X) s"
  shows "ns_inv X (ns_free p s)"
proof -
  have m: "mset (ns_heap s) = add_mset p X + nodes s" using assms by (simp add: ns_inv_def)
  then have p: "p \<in> set (ns_heap s)" by (metis set_mset_mset union_iff union_single_eq_member)
  with assms have "p \<noteq> NULL" by (auto simp: ns_inv_def)
  with p have f: "ns_free p s = s\<lparr>ns_heap := remove1 p (ns_heap s)\<rparr>" by (simp add: ns_free_def)
  show ?thesis unfolding f
    using assms m set_remove1_subset [of p "ns_heap s"] by (auto simp: ns_inv_def nodes_def)
qed

lemma ns_inv_frees: "ns_inv (mset ps + X) s \<Longrightarrow> ns_inv X (fold ns_free ps s)"
  by (induction ps arbitrary: s) (auto dest: ns_inv_free)

lemma ns_upd_free: "ns_upd i f (ns_free p s) = ns_free p (ns_upd i f s)"
  by (simp add: ns_upd_def ns_free_def)

lemma ns_upd_frees: "ns_upd i f (fold ns_free ps s) = fold ns_free ps (ns_upd i f s)"
  by (induction ps arbitrary: s) (simp_all add: ns_upd_free)

lemma ctx_of_free [simp]: "ns_tbl (ns_free p s) = ns_tbl s"
  by (simp add: ns_free_def)

lemma ctx_of_frees [simp]: "ns_tbl (fold ns_free ps s) = ns_tbl s"
  by (induction ps arbitrary: s) simp_all

lemma ns_inv_cong:
  "ns_tbl s' = ns_tbl s \<Longrightarrow> ns_heap s' = ns_heap s \<Longrightarrow> ns_bad_free s' = ns_bad_free s \<Longrightarrow> ns_inv X s' = ns_inv X s"
  by (simp add: ns_inv_def nodes_def)

section \<open>Every call keeps the balance\<close>

lemma ns_register_inv:
  assumes "ns_inv X s" and "i < NUM_ELOOP_MAX" and "p \<notin> set (ns_heap s)"
  shows "ns_inv X (snd (ns_register_timeout i p now secs usecs h ed ud s))"
proof (cases "p = NULL")
  case True
  with assms(1) show ?thesis by (simp add: ns_register_timeout_def)
next
  case False
  let ?t = "ns_new_timeout p now secs usecs h ed ud" and ?s = "s\<lparr>ns_heap := p # ns_heap s\<rparr>"
  have 1: "ns_inv (add_mset p X) ?s" using assms(1,3) False by (auto simp: ns_inv_def nodes_def)
  have "ctx_of i s \<in> set (ns_tbl s)" using assms(1,2) by (simp add: ns_inv_def)
  then have st: "ns_sorted (nd_timeout (ctx_of i s))" using assms(1) by (simp add: ns_inv_def)
  have m: "mset (map nt_addr (ns_insert ?t ts)) = add_mset p (mset (map nt_addr ts))" for ts
    by (simp add: nq.ins_mset ns_new_timeout_def)
  have "ns_inv X (ns_upd i (\<lambda>d. d\<lparr>nd_timeout := ns_insert ?t (nd_timeout d)\<rparr>) ?s)"
    using st m by (intro ns_inv_upd [OF 1 assms(2)]) (simp_all add: ns_sorted_insert addrs_def)
  with False show ?thesis by (simp add: ns_register_timeout_def Let_def)
qed

lemma ns_cancel_walk_eq:
  "ns_cancel_walk h ed ud ts s =
     (filter (\<lambda>t. \<not> ns_matches h ed ud t) ts, int (length (filter (ns_matches h ed ud) ts)),
      fold ns_free (map nt_addr (filter (ns_matches h ed ud) ts)) s)"
  by (induction ts arbitrary: s) (simp_all add: Let_def)

lemma ns_cancel_inv:
  assumes "ns_inv X s" and "i < NUM_ELOOP_MAX"
  shows "ns_inv X (snd (ns_cancel_timeout i h ed ud s))"
proof -
  let ?ts = "nd_timeout (ctx_of i s)" and ?M = "ns_matches h ed ud"
  have "ctx_of i s \<in> set (ns_tbl s)" using assms by (simp add: ns_inv_def)
  then have st: "ns_sorted ?ts" using assms(1) by (simp add: ns_inv_def)
  have "ns_inv (mset (map nt_addr (filter ?M ?ts)) + X) (ns_upd i (\<lambda>d. d\<lparr>nd_timeout := filter (\<lambda>t. \<not> ?M t) ?ts\<rparr>) s)"
    using st mset_map_filter_split [of nt_addr ?ts ?M]
    by (intro ns_inv_upd [OF assms]) (simp_all add: ns_sorted_filter addrs_def add_ac)
  from ns_inv_frees [OF this] show ?thesis
    by (simp add: ns_cancel_timeout_def ns_cancel_walk_eq ns_upd_frees)
qed

lemma ns_restart_inv:
  assumes "ns_inv X s" and "i < NUM_ELOOP_MAX"
  shows "ns_inv X (init_timers i ud (destroy_timers i s))"
proof -
  let ?f = "\<lambda>_. zero_ns\<lparr>nd_user_data := ud\<rparr>" and ?as = "map nt_addr (nd_timeout (ctx_of i s))"
  have "ns_inv (mset ?as + X) (ns_upd i ?f s)"
    by (intro ns_inv_upd [OF assms]) (simp_all add: zero_ns_def addrs_def add_ac)
  then have "ns_inv X (ns_upd i ?f (fold ns_free ?as s))" by (simp add: ns_inv_frees ns_upd_frees)
  moreover have "ns_inv X (ns_upd i ?f (AUTO_INIT_CTX_TBL s')) = ns_inv X (ns_upd i ?f s')" for s'
    by (rule ns_inv_cong) (simp_all add: AUTO_INIT_CTX_TBL_def ns_upd_def)
  ultimately show ?thesis by (simp add: init_timers_def ns_eloop_init_def destroy_timers_def ns_eloop_destroy_def)
qed

section \<open>Contexts other than the first never see a signal\<close>

definition quiet :: "ns_data \<Rightarrow> bool" where
  "quiet d \<longleftrightarrow> nd_signaled d = 0 \<and> \<not> nd_pending_terminate d \<and> (\<forall>r \<in> set (nd_signals d). sg_signaled r = 0)"

definition others_quiet :: "ns_sys \<Rightarrow> bool" where
  "others_quiet s \<longleftrightarrow> ns_ptrs s ! 0 = Some 0 \<and> (\<forall>j. 0 < j \<and> j < length (ns_tbl s) \<longrightarrow> quiet (ctx_of j s))"

lemma others_quiet_upd:
  assumes "others_quiet s" and "\<And>d. quiet d \<Longrightarrow> quiet (f d)"
  shows "others_quiet (ns_upd i f s)"
  unfolding others_quiet_def
proof (intro conjI allI impI)
  show "ns_ptrs (ns_upd i f s) ! 0 = Some 0" using assms(1) by (simp add: others_quiet_def)
  fix j assume "0 < j \<and> j < length (ns_tbl (ns_upd i f s))"
  with assms show "quiet (ctx_of j (ns_upd i f s))"
    by (cases "i = j") (simp_all add: others_quiet_def)
qed

lemma others_quiet_upd_first: "others_quiet s \<Longrightarrow> others_quiet (ns_upd 0 f s)"
  by (auto simp: others_quiet_def ns_upd_def nth_list_update)

lemma others_quiet_cong:
  "ns_tbl s' = ns_tbl s \<Longrightarrow> ns_ptrs s' = ns_ptrs s \<Longrightarrow> others_quiet s' = others_quiet s"
  by (simp add: others_quiet_def)

lemma free_ptrs [simp]: "ns_ptrs (ns_free p s) = ns_ptrs s"
  by (simp add: ns_free_def)

lemma frees_ptrs [simp]: "ns_ptrs (fold ns_free ps s) = ns_ptrs s"
  by (induction ps arbitrary: s) simp_all

lemma others_quiet_frees: "others_quiet (fold ns_free ps s) = others_quiet s"
  by (rule others_quiet_cong) simp_all

lemma others_quiet_AUTO: "others_quiet s \<Longrightarrow> others_quiet (AUTO_INIT_CTX_TBL s)"
  by (auto simp: others_quiet_def AUTO_INIT_CTX_TBL_def NUM_ELOOP_MAX_def)

text \<open>The invariant of all calls and expiries.\<close>

definition ns_ok :: "ptr multiset \<Rightarrow> ns_sys \<Rightarrow> bool" where
  "ns_ok X s \<longleftrightarrow> ns_inv X s \<and> others_quiet s"

lemma ns_handle_signal_ok:
  assumes "ns_ok X s"
  shows "ns_ok X (ns_handle_signal sig s)"
proof -
  have p: "ns_ptrs s ! 0 = Some 0" using assms by (simp add: ns_ok_def others_quiet_def)
  let ?a = "s\<lparr>ns_alarm := True\<rparr>"
  have a: "ns_inv X ?a \<and> others_quiet ?a"
    using assms ns_inv_cong [of ?a s X] others_quiet_cong [of ?a s] by (simp add: ns_ok_def)
  have n: "0 < NUM_ELOOP_MAX" by (simp add: NUM_ELOOP_MAX_def)
  show ?thesis
    using a assms unfolding ns_handle_signal_def p
    by (auto simp: Let_def ns_ok_def intro!: ns_inv_upd_same [OF _ n] others_quiet_upd_first)
qed

lemma ns_register_signal_ok:
  assumes "ns_ok X s" and "i < NUM_ELOOP_MAX"
  shows "ns_ok X (snd (ns_register_signal i ok sig h ud s))"
proof -
  let ?f = "\<lambda>d. d\<lparr>nd_signals := nd_signals d @ [\<lparr>sg_sig = sig, sg_user_data = ud, sg_handler = h, sg_signaled = 0\<rparr>]\<rparr>"
  have "ns_inv X (ns_upd i ?f s)" using assms by (intro ns_inv_upd_same) (simp_all add: ns_ok_def)
  moreover have "others_quiet (ns_upd i ?f s)"
    using assms by (intro others_quiet_upd) (auto simp: ns_ok_def quiet_def)
  ultimately show ?thesis
    using assms(1) ns_inv_cong others_quiet_cong
    by (auto simp: ns_register_signal_def Let_def ns_ok_def ns_inv_def nodes_def others_quiet_def)
qed

lemma ns_exec_ok:
  assumes "ns_ok X s" and "ns_call_ok c s"
  shows "ns_ok X (ns_exec c s)"
proof (cases c)
  case (NRegisterTimeout i p now secs usecs h ed ud)
  have "others_quiet (snd (ns_register_timeout i p now secs usecs h ed ud s))"
    using assms(1) others_quiet_cong [of "s\<lparr>ns_heap := p # ns_heap s\<rparr>" s]
    by (auto simp: ns_register_timeout_def Let_def ns_ok_def quiet_def intro!: others_quiet_upd)
  with assms ns_register_inv NRegisterTimeout show ?thesis by (auto simp: ns_ok_def)
next
  case (NCancelTimeout i h ed ud)
  have "others_quiet (snd (ns_cancel_timeout i h ed ud s))"
    using assms(1)
    by (auto simp: ns_cancel_timeout_def ns_cancel_walk_eq ns_ok_def quiet_def others_quiet_frees intro!: others_quiet_upd)
  with assms ns_cancel_inv NCancelTimeout show ?thesis by (auto simp: ns_ok_def)
next
  case (NRegisterSignal i ok sig h ud)
  with assms ns_register_signal_ok show ?thesis by auto
next
  case (NTerminate i)
  with assms show ?thesis
    by (auto simp: ns_ok_def ns_eloop_terminate_def quiet_def intro!: ns_inv_upd_same others_quiet_upd)
next
  case (NTmpTerminate i v)
  with assms show ?thesis
    by (auto simp: ns_ok_def ns_eloop_tmp_terminate_def quiet_def intro!: ns_inv_upd_same others_quiet_upd)
next
  case (NSignal sig)
  with assms ns_handle_signal_ok show ?thesis by simp
next
  case (NRestart i ud)
  have "others_quiet (init_timers i ud (destroy_timers i s))"
    using assms(1)
    by (auto simp: init_timers_def ns_eloop_init_def destroy_timers_def ns_eloop_destroy_def ns_ok_def quiet_def zero_ns_def
        others_quiet_frees intro!: others_quiet_upd others_quiet_AUTO)
  with assms ns_restart_inv NRestart show ?thesis by (auto simp: ns_ok_def)
qed

interpretation ns_steps: step_invariant ns_exec ns_call_ok "ns_ok X" for X
  by unfold_locales (rule ns_exec_ok)

lemma ns_script_ok_nth:
  "ns_script_ok cs s \<longleftrightarrow> (\<forall>k < length cs. ns_call_ok (cs ! k) (fold ns_exec (take k cs) s))"
  by (induction cs arbitrary: s) (simp_all add: All_less_Suc2)

lemma ns_script_keeps: "ns_ok X s \<Longrightarrow> ns_script_ok cs s \<Longrightarrow> ns_ok X (fold ns_exec cs s)"
  by (rule ns_steps.fold_keeps) (simp_all add: ns_script_ok_nth)

section \<open>Expiry keeps the balance\<close>

definition ns_sem_ok :: "ns_handlers \<Rightarrow> bool" where
  "ns_sem_ok sem \<longleftrightarrow> (\<forall>cb s. ns_script_ok (sem cb s) s)"

lemma ns_callback_ok:
  assumes "ns_ok X s" and "ns_sem_ok sem"
  shows "ns_ok X (ns_callback sem cb s)"
proof -
  let ?s = "s\<lparr>ns_trace := ns_trace s @ [cb]\<rparr>"
  have "ns_ok X ?s" using assms(1) ns_inv_cong [of ?s s X] others_quiet_cong [of ?s s] by (simp add: ns_ok_def)
  then show ?thesis using assms(2) by (simp add: ns_callback_def Let_def ns_script_keeps ns_sem_ok_def)
qed

lemma ns_clear_row_ok:
  assumes "ns_ok X s" and "i < NUM_ELOOP_MAX"
  shows "ns_ok X ((ns_upd i (\<lambda>d. d\<lparr>nd_signals := (nd_signals d)[k := r\<lparr>sg_signaled := 0\<rparr>]\<rparr>) s)\<lparr>ns_installed := xs\<rparr>)"
    (is "ns_ok X (?s\<lparr>ns_installed := xs\<rparr>)")
proof -
  have "ns_inv X ?s" using assms by (intro ns_inv_upd_same) (simp_all add: ns_ok_def)
  moreover have "others_quiet ?s"
    using assms set_update_subset_insert by (intro others_quiet_upd) (fastforce simp: ns_ok_def quiet_def)+
  ultimately show ?thesis by (simp add: ns_ok_def ns_inv_def nodes_def others_quiet_def)
qed

lemma ns_signals_from_ok:
  assumes "ns_sem_ok sem" and "i < NUM_ELOOP_MAX"
  shows "ns_ok X s \<Longrightarrow> outcome_sat True (ns_ok X) (ns_signals_from n sem i k s)"
proof (induction n arbitrary: k s)
  case (Suc n)
  show ?case using Suc.prems
    by (auto simp: Let_def intro!: Suc.IH ns_callback_ok [OF _ assms(1)] ns_clear_row_ok [OF _ assms(2)])
qed simp

lemma ns_process_ok:
  assumes "ns_sem_ok sem" and "i < NUM_ELOOP_MAX" and "ns_ok X s"
  shows "outcome_sat True (ns_ok X) (ns_process_pending_signals fuel sem i s)"
proof -
  let ?s1 = "ns_upd i (\<lambda>d. d\<lparr>nd_signaled := 0\<rparr>) s"
  have 1: "ns_ok X ?s1"
    using assms(2,3) by (auto simp: ns_ok_def quiet_def intro!: ns_inv_upd_same others_quiet_upd)
  have "ns_ok X (?s1\<lparr>ns_alarm := False\<rparr>)"
    using 1 by (simp add: ns_ok_def ns_inv_def nodes_def others_quiet_def)
  then have 2: "ns_ok X (ns_upd i (\<lambda>d. d\<lparr>nd_pending_terminate := False\<rparr>) (?s1\<lparr>ns_alarm := False\<rparr>))"
    using assms(2) by (auto simp: ns_ok_def quiet_def intro!: ns_inv_upd_same others_quiet_upd)
  from 1 2 assms(3) show ?thesis
    by (simp add: ns_process_pending_signals_def Let_def ns_signals_from_ok [OF assms(1,2)])
qed

lemma ns_fire_ok:
  assumes "ns_sem_ok sem" and "i < NUM_ELOOP_MAX" and "ns_ok X s"
  shows "ns_ok X (snd (ns_fire sem i now s))"
proof (cases "nd_timeout (ctx_of i s)")
  case Nil
  with assms(3) show ?thesis by (simp add: ns_fire_def)
next
  case (Cons t ts)
  let ?f = "\<lambda>d. d\<lparr>nd_timeout := ts\<rparr>" and ?cb = "TimeoutCb (nt_handler t) (nt_eloop_data t) (nt_user_data t)"
  have inv: "ns_inv X s" using assms(3) by (simp add: ns_ok_def)
  have "ctx_of i s \<in> set (ns_tbl s)" using inv assms(2) by (simp add: ns_inv_def)
  then have "ns_sorted (t # ts)" using inv Cons by (metis ns_inv_def)
  then have "ns_inv (add_mset (nt_addr t) X) (ns_upd i ?f s)"
    using Cons by (intro ns_inv_upd [OF inv assms(2)]) (simp_all add: ns_sorted_tl addrs_def)
  then have "ns_ok (add_mset (nt_addr t) X) (ns_upd i ?f s)"
    using assms(3) by (auto simp: ns_ok_def quiet_def intro!: others_quiet_upd)
  then have "ns_ok (add_mset (nt_addr t) X) (ns_callback sem ?cb (ns_upd i ?f s))" by (rule ns_callback_ok [OF _ assms(1)])
  then have "ns_ok X (ns_free (nt_addr t) (ns_callback sem ?cb (ns_upd i ?f s)))"
    by (auto simp: ns_ok_def ns_inv_free others_quiet_def)
  with assms(3) Cons show ?thesis by (simp add: ns_fire_def)
qed

lemma expire_timers_ok:
  assumes "ns_sem_ok sem" and "i < NUM_ELOOP_MAX" and "ns_ok X s" and "expire_timers fuel sem i now s = Done (r, s')"
  shows "ns_ok X s'"
proof -
  from assms(4) obtain s1 where s1: "ns_process_pending_signals fuel sem i s = Done s1" "s' = snd (ns_fire sem i now s1)"
    by (auto simp: expire_timers_def outcome_simps)
  have "ns_ok X s1" using ns_process_ok [OF assms(1-3), of fuel] s1(1) by simp
  with s1(2) ns_fire_ok [OF assms(1,2)] show ?thesis by simp
qed

section \<open>Reachable states\<close>

inductive ns_reached :: "ns_handlers \<Rightarrow> ns_sys \<Rightarrow> bool" for sem where
  ns_start: "ns_reached sem ns_boot"
| ns_step: "ns_reached sem s \<Longrightarrow> ns_call_ok c s \<Longrightarrow> ns_reached sem (ns_exec c s)"
| ns_expire: "ns_reached sem s \<Longrightarrow> i < NUM_ELOOP_MAX \<Longrightarrow> expire_timers fuel sem i now s = Done (r, s') \<Longrightarrow> ns_reached sem s'"

lemma ns_boot_ok: "ns_ok {#} ns_boot"
proof -
  have "sum_list (map addrs (replicate n zero_ns)) = {#}" for n
    by (induction n) (simp_all add: addrs_def zero_ns_def)
  moreover have "quiet zero_ns" by (simp add: quiet_def zero_ns_def)
  ultimately show ?thesis
    by (auto simp: ns_ok_def ns_inv_def others_quiet_def ns_boot_def nodes_def zero_ns_def nth_append)
qed

lemma ns_reached_ok: "ns_reached sem s \<Longrightarrow> ns_sem_ok sem \<Longrightarrow> ns_ok {#} s"
proof (induction rule: ns_reached.induct)
  case ns_start
  show ?case by (rule ns_boot_ok)
next
  case (ns_step s c)
  then show ?case by (simp add: ns_exec_ok)
next
  case (ns_expire s i fuel now r s')
  then show ?case using expire_timers_ok by blast
qed

lemma ns_exec_trace [simp]: "ns_trace (ns_exec c s) = ns_trace s"
proof -
  have f: "ns_trace (ns_free p s) = ns_trace s" for p s by (simp add: ns_free_def)
  have fs: "ns_trace (fold ns_free ps s) = ns_trace s" for ps s by (induction ps arbitrary: s) (simp_all add: f)
  show ?thesis
    by (cases c) (auto simp: ns_register_timeout_def ns_cancel_timeout_def ns_cancel_walk_eq ns_register_signal_def
        ns_eloop_terminate_def ns_eloop_tmp_terminate_def ns_handle_signal_def init_timers_def ns_eloop_init_def
        AUTO_INIT_CTX_TBL_def destroy_timers_def ns_eloop_destroy_def fs Let_def split: option.split)
qed

lemma ns_script_trace [simp]: "ns_trace (fold ns_exec cs s) = ns_trace s"
  by (induction cs arbitrary: s) simp_all

section \<open>Properties\<close>

definition ns_idle :: ns_handlers where
  "ns_idle cb s = []"

lemma ns_sem_ok_idle: "ns_sem_ok ns_idle"
  by (simp add: ns_sem_ok_def ns_idle_def)

text \<open>Two timeouts in context 3, one of 2 s and one of 1 s.\<close>

definition ns_demo :: ns_sys where
  "ns_demo = ns_exec (NRegisterTimeout 3 128 (tm 2000 500000) 1 0 7 8 9)
     (ns_exec (NRegisterTimeout 3 64 (tm 2000 0) 2 0 17 18 19) ns_boot)"

lemma ns_demo_reached: "ns_reached sem ns_demo"
  unfolding ns_demo_def
  by (intro ns_reached.intros) (simp_all add: ns_boot_def NUM_ELOOP_MAX_def ns_register_timeout_def)



text \<open>C19. An expiry of a context without a pending signal runs the timeout with the earliest deadline
  of that context when it is due and returns 1, and does nothing and returns 0 when no timeout is due.\<close>

theorem expire_timers_runs_earliest:
  assumes "ns_reached sem s" and "ns_sem_ok sem" and "i < NUM_ELOOP_MAX" and "nd_signaled (ctx_of i s) = 0"
  shows "if \<exists>t \<in> set (nd_timeout (ctx_of i s)). \<not> os_time_before now (nt_time t)
         then \<exists>t \<in> set (nd_timeout (ctx_of i s)). \<exists>s'.
                \<not> os_time_before now (nt_time t) \<and>
                (\<forall>u \<in> set (nd_timeout (ctx_of i s)). \<not> os_time_before (nt_time u) (nt_time t)) \<and>
                expire_timers fuel sem i now s = Done (1, s') \<and>
                ns_trace s' = ns_trace s @ [TimeoutCb (nt_handler t) (nt_eloop_data t) (nt_user_data t)]
         else expire_timers fuel sem i now s = Done (0, s)"
proof -
  have inv: "ns_inv {#} s" using ns_reached_ok [OF assms(1,2)] by (simp add: ns_ok_def)
  then have "ctx_of i s \<in> set (ns_tbl s)" using assms(3) by (simp add: ns_inv_def)
  then have st: "ns_sorted (nd_timeout (ctx_of i s))" using inv by (simp add: ns_inv_def)
  have e: "expire_timers fuel sem i now s = Done (ns_fire sem i now s)"
    using assms(4) by (simp add: expire_timers_def ns_process_pending_signals_def)
  show ?thesis
  proof (cases "nd_timeout (ctx_of i s)")
    case Nil
    then show ?thesis by (simp add: e ns_fire_def)
  next
    case (Cons t ts)
    have least: "\<not> os_time_before (nt_time u) (nt_time t)" if "u \<in> set (nd_timeout (ctx_of i s))" for u
      using nq.sorted_head_least [of t ts u] st that unfolding Cons ns_sorted_def by blast
    show ?thesis
    proof (cases "os_time_before now (nt_time t)")
      case True
      have "os_time_before now (nt_time u)" if "u \<in> set (nd_timeout (ctx_of i s))" for u
        using True least [OF that] os_time_before_weak by blast
      with True Cons show ?thesis by (auto simp: e ns_fire_def)
    next
      case False
      have "ns_trace (ns_free p (ns_callback sem cb (ns_upd i f s))) = ns_trace s @ [cb]" for p cb f
        by (simp add: ns_free_def ns_callback_def Let_def)
      with False Cons least show ?thesis by (auto simp: e ns_fire_def)
    qed
  qed
qed

theorem expire_timers_runs_earliest_witness:
  "\<exists>s'. expire_timers 0 ns_idle 3 (tm 2001 600000) ns_demo = Done (1, s') \<and> ns_trace s' = [TimeoutCb 7 8 9]"
proof -
  have v: "nd_timeout (ctx_of 3 ns_demo) =
      [\<lparr>nt_addr = 128, nt_time = tm 2001 500000, nt_eloop_data = 8, nt_user_data = 9, nt_handler = 7\<rparr>,
       \<lparr>nt_addr = 64, nt_time = tm 2002 0, nt_eloop_data = 18, nt_user_data = 19, nt_handler = 17\<rparr>]"
    "ns_trace ns_demo = []" "nd_signaled (ctx_of 3 ns_demo) = 0" by code_simp+
  have i: "3 < NUM_ELOOP_MAX" by (simp add: NUM_ELOOP_MAX_def)
  from expire_timers_runs_earliest [OF ns_demo_reached ns_sem_ok_idle i v(3), of "tm 2001 600000" 0]
  show ?thesis unfolding v(1,2) by (auto simp: os_time_before_def split: if_splits)
qed



text \<open>A signal registered in any context but the first is never delivered: the loop over the
  signals of such a context never finds a counted one, so an expiry calls no signal handler there.\<close>

lemma signals_of_other_contexts_never_delivered:
  assumes "ns_reached sem s" and "ns_sem_ok sem" and "0 < i" and "i < NUM_ELOOP_MAX"
  shows "ns_process_pending_signals fuel sem i s = Done s \<and>
         ns_process_pending_signals fuel sem i (ns_handle_signal sig s) = Done (ns_handle_signal sig s)"
proof -
  have q: "ns_process_pending_signals fuel sem i s' = Done s'" if "ns_ok {#} s'" for s'
    using that assms(3,4) by (simp add: ns_ok_def others_quiet_def ns_inv_def quiet_def ns_process_pending_signals_def)
  have "ns_ok {#} s" using ns_reached_ok [OF assms(1,2)] .
  with q ns_handle_signal_ok show ?thesis by blast
qed

lemma signals_of_other_contexts_never_delivered_witness:
  "ns_process_pending_signals 5 ns_idle 1 (ns_handle_signal 1 (ns_exec (NRegisterSignal 1 True 1 70 80) ns_boot)) =
     Done (ns_handle_signal 1 (ns_exec (NRegisterSignal 1 True 1 70 80) ns_boot))"
proof -
  have i: "0 < (1 :: nat)" "1 < NUM_ELOOP_MAX" by (simp_all add: NUM_ELOOP_MAX_def)
  have "ns_reached ns_idle (ns_exec (NRegisterSignal 1 True 1 70 80) ns_boot)"
    using i(2) by (intro ns_reached.intros) simp_all
  from signals_of_other_contexts_never_delivered [OF this ns_sem_ok_idle i] show ?thesis by blast
qed

end
