(* ===== verification/Common_Util.thy ===== *)
theory Common_Util
  imports Prelude
begin

text \<open>
  The helpers of eloop/common.c: hexadecimal text to bytes and back, the carry over a byte
  array, NTP time stamps, printable SSIDs, the hex dumps and the option parser compiled with
  \<open>CONFIG_ANSI_C_EXTRA\<close>. A C string is the list of its characters without the terminator.
\<close>

section \<open>Hexadecimal digits\<close>

definition cval :: "char \<Rightarrow> int" where
  "cval c = of_char c"

definition hex2num :: "char \<Rightarrow> int" where
  "hex2num c =
     (if cval CHR ''0'' \<le> cval c \<and> cval c \<le> cval CHR ''9'' then cval c - cval CHR ''0''
      else if cval CHR ''a'' \<le> cval c \<and> cval c \<le> cval CHR ''f'' then cval c - cval CHR ''a'' + 10
      else if cval CHR ''A'' \<le> cval c \<and> cval c \<le> cval CHR ''F'' then cval c - cval CHR ''A'' + 10
      else -1)"

text \<open>\<open>*s\<close> and \<open>s + 1\<close>; the terminator is character 0.\<close>

fun cur :: "string \<Rightarrow> char" where
  "cur [] = CHR 0x00"
| "cur (c # s) = c"

definition hex2byte :: "string \<Rightarrow> int" where
  "hex2byte hex =
     (let a = hex2num (cur hex)
      in if a < 0 then -1
         else
           (let b = hex2num (cur (tl hex))
            in if b < 0 then -1 else push_bit 4 a OR b))"

text \<open>The result and the bytes written so far, for the \<open>i\<close>-th byte on.\<close>

fun hwaddr_aton_from :: "nat \<Rightarrow> nat \<Rightarrow> string \<Rightarrow> u8 list \<Rightarrow> int \<times> u8 list" where
  "hwaddr_aton_from 0 i txt addr = (0, addr)"
| "hwaddr_aton_from (Suc n) i txt addr =
     (let a = hex2num (cur txt)
      in if a < 0 then (-1, addr)
         else
           (let b = hex2num (cur (tl txt))
            in if b < 0 then (-1, addr)
               else
                 (let addr' = addr @ [word_of_int (push_bit 4 a OR b)]; t2 = tl (tl txt)
                  in if i < 5 then
                       (if cur t2 \<noteq> CHR '':'' then (-1, addr') else hwaddr_aton_from n (i + 1) (tl t2) addr')
                     else hwaddr_aton_from n (i + 1) t2 addr')))"

definition hwaddr_aton :: "string \<Rightarrow> int \<times> u8 list" where
  "hwaddr_aton txt = hwaddr_aton_from 6 0 txt []"

fun hexstr2bin_from :: "nat \<Rightarrow> string \<Rightarrow> u8 list \<Rightarrow> int \<times> u8 list" where
  "hexstr2bin_from 0 ipos buf = (0, buf)"
| "hexstr2bin_from (Suc n) ipos buf =
     (let a = hex2byte ipos
      in if a < 0 then (-1, buf) else hexstr2bin_from n (tl (tl ipos)) (buf @ [word_of_int a]))"

definition hexstr2bin :: "string \<Rightarrow> nat \<Rightarrow> int \<times> u8 list" where
  "hexstr2bin hex n = hexstr2bin_from n hex []"

section \<open>Printing\<close>

definition hex_digit :: "bool \<Rightarrow> nat \<Rightarrow> char" where
  "hex_digit uppercase d = (if uppercase then ''0123456789ABCDEF'' ! d else ''0123456789abcdef'' ! d)"

text \<open>\<open>%02x\<close> and \<open>%02X\<close>.\<close>

definition hex02 :: "bool \<Rightarrow> u8 \<Rightarrow> string" where
  "hex02 uppercase b = [hex_digit uppercase (unat b div 16), hex_digit uppercase (unat b mod 16)]"

text \<open>
  \<open>_wpa_snprintf_hex\<close>: the loop with the characters written so far and what is left of the buffer.
  \<open>snprintf\<close> with two characters of room writes one digit; the value returned does not count it.
\<close>

fun snprintf_hex_from :: "bool \<Rightarrow> nat \<Rightarrow> u8 list \<Rightarrow> string \<Rightarrow> nat \<times> string" where
  "snprintf_hex_from uppercase bufsz [] out = (length out, out)"
| "snprintf_hex_from uppercase bufsz (b # bs) out =
     (let room = bufsz - length out
      in if room \<le> 2 then (length out, out @ take (room - 1) (hex02 uppercase b))
         else snprintf_hex_from uppercase bufsz bs (out @ hex02 uppercase b))"

text \<open>
  The value returned and the characters written into a buffer of \<open>bufsz\<close> characters, without the
  terminators: one behind them when there is data, and one at the end of the buffer.
\<close>

definition wpa_snprintf_hex0 :: "bool \<Rightarrow> nat \<Rightarrow> u8 list \<Rightarrow> nat \<times> string" where
  "wpa_snprintf_hex0 uppercase bufsz data = (if bufsz = 0 then (0, []) else snprintf_hex_from uppercase bufsz data [])"

definition wpa_snprintf_hex :: "nat \<Rightarrow> u8 list \<Rightarrow> nat \<times> string" where
  "wpa_snprintf_hex = wpa_snprintf_hex0 False"

definition wpa_snprintf_hex_uppercase :: "nat \<Rightarrow> u8 list \<Rightarrow> nat \<times> string" where
  "wpa_snprintf_hex_uppercase = wpa_snprintf_hex0 True"

section \<open>Counters and time stamps\<close>

text \<open>The loop of \<open>inc_byte_array\<close>, over the bytes from the last one.\<close>

fun inc_bytes_rev :: "u8 list \<Rightarrow> u8 list" where
  "inc_bytes_rev [] = []"
| "inc_bytes_rev (c # cs) = (if c + 1 \<noteq> 0 then (c + 1) # cs else (c + 1) # inc_bytes_rev cs)"

definition inc_byte_array :: "u8 list \<Rightarrow> u8 list" where
  "inc_byte_array counter = rev (inc_bytes_rev (rev counter))"

definition be_bytes :: "u32 \<Rightarrow> u8 list" where
  "be_bytes w = [ucast (drop_bit 24 w), ucast (drop_bit 16 w), ucast (drop_bit 8 w), ucast w]"

definition ntp_fraction :: "u32 \<Rightarrow> u32" where
  "ntp_fraction usec = 4295 * usec - drop_bit 5 usec - drop_bit 9 usec"

text \<open>The time of day is the argument.\<close>

definition wpa_get_ntp_timestamp :: "int \<Rightarrow> int \<Rightarrow> u8 list" where
  "wpa_get_ntp_timestamp sec usec =
     be_bytes (word_of_int (sec + 2208988800)) @ be_bytes (ntp_fraction (word_of_int usec))"

text \<open>\<open>ssid\<close> holds at least \<open>ssid_len\<close> bytes. The loop stops at the first zero byte.\<close>

definition wpa_ssid_txt :: "u8 list \<Rightarrow> nat \<Rightarrow> string" where
  "wpa_ssid_txt ssid ssid_len =
     map (\<lambda>b. if b < 32 \<or> 127 \<le> b then CHR ''_'' else char_of (unat b))
       (takeWhile (\<lambda>b. b \<noteq> 0) (take (min ssid_len 32) ssid))"

section \<open>Hex dumps\<close>

fun decimal_digits :: "nat \<Rightarrow> nat \<Rightarrow> string" where
  "decimal_digits 0 n = []"
| "decimal_digits (Suc f) n =
     (if n < 10 then [''0123456789'' ! n] else decimal_digits f (n div 10) @ [''0123456789'' ! (n mod 10)])"

text \<open>\<open>%lu\<close> of a 64-bit value, which has at most 20 digits.\<close>

definition percent_lu :: "nat \<Rightarrow> string" where
  "percent_lu n = decimal_digits 20 n"

text \<open>The text printed after the time stamp; \<open>None\<close> when the level is too low.\<close>

definition wpa_hexdump0 :: "int \<Rightarrow> int \<Rightarrow> string \<Rightarrow> u8 list option \<Rightarrow> nat \<Rightarrow> bool \<Rightarrow> string option" where
  "wpa_hexdump0 debug_level level title buf n showit =
     (if level < debug_level then None
      else Some (title @ '' - hexdump(len='' @ percent_lu n @ ''):'' @
             (case buf of
                None \<Rightarrow> '' [NULL]''
              | Some bs \<Rightarrow> if showit then concat (map (\<lambda>b. '' '' @ hex02 False b) (take n bs)) else '' [REMOVED]'') @
             [CHR 0x0A]))"

definition isprint8 :: "u8 \<Rightarrow> bool" where
  "isprint8 b \<longleftrightarrow> 32 \<le> b \<and> b < 127"

definition hexdump_line :: "u8 list \<Rightarrow> string" where
  "hexdump_line bs =
     ''    '' @ concat (map (\<lambda>b. '' '' @ hex02 False b) bs) @ concat (replicate (16 - length bs) ''   '') @ ''   '' @
     map (\<lambda>b. if isprint8 b then char_of (unat b) else CHR ''_'') bs @ replicate (16 - length bs) (CHR '' '') @ [CHR 0x0A]"

function hexdump_lines :: "u8 list \<Rightarrow> string" where
  "hexdump_lines bs = (if bs = [] then [] else hexdump_line (take 16 bs) @ hexdump_lines (drop 16 bs))"
  by auto
termination by (relation "measure length") auto

declare hexdump_lines.simps [simp del]

definition wpa_hexdump_ascii0 :: "int \<Rightarrow> int \<Rightarrow> string \<Rightarrow> u8 list option \<Rightarrow> nat \<Rightarrow> bool \<Rightarrow> string option" where
  "wpa_hexdump_ascii0 debug_level level title buf n showit =
     (if level < debug_level then None
      else Some (title @ '' - hexdump_ascii(len='' @ percent_lu n @
             (if \<not> showit then ''): [REMOVED]'' @ [CHR 0x0A]
              else (case buf of
                      None \<Rightarrow> ''): [NULL]'' @ [CHR 0x0A]
                    | Some bs \<Rightarrow> ''):'' @ [CHR 0x0A] @ hexdump_lines (take n bs)))))"

section \<open>Options\<close>

record getopt_state =
  go_optind :: nat
  go_optopt :: char
  go_optarg :: "string option"
  go_optchr :: nat

text \<open>The argument string after the character just read; \<open>argv\<close> holds \<open>argc\<close> strings, a
  read behind the terminator of one is \<open>Crash\<close>.\<close>

definition arg_char :: "string list \<Rightarrow> nat \<Rightarrow> nat \<Rightarrow> char outcome" where
  "arg_char argv i k =
     (if i < length argv \<and> k \<le> length (argv ! i) then Done (cur (drop k (argv ! i))) else Crash)"

definition next_optchr :: "string list \<Rightarrow> getopt_state \<Rightarrow> getopt_state outcome" where
  "next_optchr argv s =
     obind (arg_char argv (go_optind s) (go_optchr s + 1)) (\<lambda>c.
       Done (if c = CHR 0x00 then s\<lparr>go_optchr := 1, go_optind := go_optind s + 1\<rparr>
             else s\<lparr>go_optchr := go_optchr s + 1\<rparr>))"

definition EOF :: int where "EOF = -1"

text \<open>The rest of \<open>optstring\<close> from the first occurrence of a character (\<open>strchr\<close>).\<close>

definition strchr_rest :: "string \<Rightarrow> char \<Rightarrow> string option" where
  "strchr_rest s c = (case dropWhile (\<lambda>x. x \<noteq> c) s of [] \<Rightarrow> (if c = CHR 0x00 then Some [] else None) | r \<Rightarrow> Some r)"

definition getopt :: "string list \<Rightarrow> string \<Rightarrow> getopt_state \<Rightarrow> (int \<times> getopt_state) outcome" where
  "getopt argv optstring s =
     (if go_optchr s = 1 \<and>
         (length argv \<le> go_optind s \<or> cur (argv ! go_optind s) \<noteq> CHR ''-'' \<or> cur (tl (argv ! go_optind s)) = CHR 0x00)
      then Done (EOF, s)
      else if length argv \<le> go_optind s then Crash
      else if argv ! go_optind s = ''--'' then Done (EOF, s\<lparr>go_optind := go_optind s + 1\<rparr>)
      else
        obind (arg_char argv (go_optind s) (go_optchr s)) (\<lambda>c.
          let s1 = s\<lparr>go_optopt := c\<rparr>
          in case strchr_rest optstring c of
               None \<Rightarrow> obind (next_optchr argv s1) (\<lambda>s2. Done (cval CHR ''?'', s2))
             | Some r \<Rightarrow>
                 if c = CHR '':'' then obind (next_optchr argv s1) (\<lambda>s2. Done (cval CHR ''?'', s2))
                 else if cur (tl r) = CHR '':'' then
                   (let s2 = s1\<lparr>go_optchr := 1\<rparr>
                    in obind (arg_char argv (go_optind s2) (go_optchr s2 + 1)) (\<lambda>d.
                         if d \<noteq> CHR 0x00 then
                           Done (cval c, s2\<lparr>go_optarg := Some (drop (go_optchr s2 + 1) (argv ! go_optind s2)),
                                             go_optind := go_optind s2 + 1\<rparr>)
                         else if length argv \<le> go_optind s2 + 1 then
                           Done (cval CHR ''?'', s2\<lparr>go_optind := go_optind s2 + 1\<rparr>)
                         else Done (cval c, s2\<lparr>go_optarg := Some (argv ! (go_optind s2 + 1)),
                                                go_optind := go_optind s2 + 2\<rparr>)))
                 else obind (next_optchr argv s1) (\<lambda>s2. Done (cval c, s2\<lparr>go_optarg := None\<rparr>))))"

section \<open>The round trip of hexadecimal text\<close>

lemma hex_digit_value:
  assumes "d < 16"
  shows "hex2num (hex_digit up d) = int d"
proof -
  have "\<forall>d < 16. \<forall>up. hex2num (hex_digit up d) = int d" by code_simp
  with assms show ?thesis by blast
qed

lemma nibbles:
  assumes "n < 256"
  shows "push_bit 4 (int (n div 16)) OR int (n mod 16) = int n"
proof -
  have "push_bit 4 (int (n div 16)) OR int (n mod 16) = int (push_bit 4 (drop_bit 4 n) OR take_bit 4 n)"
    by (simp add: drop_bit_eq_div take_bit_eq_mod of_nat_or_eq of_nat_push_bit)
  also have "push_bit 4 (drop_bit 4 n) OR take_bit 4 n = n"
    by (rule bit_eqI) (auto simp: bit_simps)
  finally show ?thesis .
qed

lemma hex2byte_hex02: "hex2byte (hex02 up b @ s) = uint b"
proof -
  have b: "unat b < 256" by (rule unat_u8_less)
  then have d: "unat b div 16 < 16" "unat b mod 16 < 16" by simp_all
  show ?thesis
    using nibbles [OF b] by (simp add: hex2byte_def hex02_def hex_digit_value d Let_def)
qed

lemma hexstr2bin_text:
  "hexstr2bin_from (length bs) (concat (map (hex02 up) bs) @ s) buf = (0, buf @ bs)"
proof (induction bs arbitrary: buf)
  case (Cons b bs)
  have "hex2byte (concat (map (hex02 up) (b # bs)) @ s) = uint b" using hex2byte_hex02 by simp
  moreover have "tl (tl (concat (map (hex02 up) (b # bs)) @ s)) = concat (map (hex02 up) bs) @ s"
    by (simp add: hex02_def)
  ultimately show ?case using Cons [of "buf @ [b]"] by (simp add: Let_def)
qed simp

lemma length_hex_text: "length (concat (map (hex02 up) bs)) = 2 * length bs"
  by (induction bs) (simp_all add: hex02_def)

lemma snprintf_hex_from_fits:
  "length out + 2 * length bs < bufsz \<Longrightarrow>
   snprintf_hex_from up bufsz bs out = (length out + 2 * length bs, out @ concat (map (hex02 up) bs))"
proof (induction bs arbitrary: out)
  case (Cons b bs)
  have "length (hex02 up b) = 2" by (simp add: hex02_def)
  with Cons.IH [of "out @ hex02 up b"] Cons.prems show ?case by (simp add: Let_def)
qed simp

section \<open>The value of a counter\<close>

fun le_value :: "u8 list \<Rightarrow> nat" where
  "le_value [] = 0"
| "le_value (c # cs) = unat c + 256 * le_value cs"

definition be_value :: "u8 list \<Rightarrow> nat" where
  "be_value cs = le_value (rev cs)"

lemma le_value_bound: "le_value cs < 256 ^ length cs"
proof (induction cs)
  case (Cons c cs)
  have "unat c < 256" by (rule unat_u8_less)
  with Cons show ?case by simp
qed simp

lemma length_inc_bytes_rev [simp]: "length (inc_bytes_rev cs) = length cs"
  by (induction cs) auto

lemma inc_bytes_rev_value: "le_value (inc_bytes_rev cs) = (le_value cs + 1) mod 256 ^ length cs"
proof (induction cs)
  case (Cons c cs)
  have c: "unat c < 256" by (rule unat_u8_less)
  have bound: "le_value cs < 256 ^ length cs" by (rule le_value_bound)
  show ?case
  proof (cases "c + 1 = 0")
    case True
    then have "unat c = 255" by (simp add: u8_inc_0)
    then have "unat c + 256 * le_value cs + 1 = 256 * (le_value cs + 1)" by simp
    then show ?thesis using True Cons by (simp add: mult_mod_right)
  next
    case False
    then have u: "unat (c + 1) = unat c + 1" by (simp add: unat_u8_inc)
    have "unat (c + 1) < 256" by (rule unat_u8_less)
    with u bound have "unat c + 256 * le_value cs + 1 < 256 ^ length (c # cs)" by simp
    with False u show ?thesis by simp
  qed
qed simp

section \<open>The NTP fraction\<close>

text \<open>The product with 4295 wraps around for the last microseconds of a second; the differences bring
  the value back into range.\<close>

lemma ntp_fraction_value:
  assumes "unat usec < 1000000"
  shows "unat (ntp_fraction usec) = 4295 * unat usec - unat usec div 32 - unat usec div 512"
proof -
  let ?u = "unat usec"
  have d: "drop_bit 5 usec = word_of_nat (?u div 32)" "drop_bit 9 usec = word_of_nat (?u div 512)"
    by (simp_all add: drop_bit_eq_div unat_div word_arith_nat_div)
  have le: "?u div 32 + ?u div 512 \<le> 4295 * ?u" by linarith
  have "ntp_fraction usec = word_of_nat (4295 * ?u) - word_of_nat (?u div 32) - word_of_nat (?u div 512)"
    by (simp add: ntp_fraction_def d)
  also have "\<dots> = word_of_nat (4295 * ?u - ?u div 32 - ?u div 512)"
    using le by (simp add: of_nat_diff)
  finally have E: "ntp_fraction usec = word_of_nat (4295 * ?u - ?u div 32 - ?u div 512)" .
  have "4295 * ?u - ?u div 32 - ?u div 512 < 4294967296" using assms by linarith
  then show ?thesis unfolding E unat_of_nat by simp
qed

section \<open>Properties\<close>

text \<open>C22. Printing bytes as hexadecimal text and reading the text back gives the bytes, in both letter
  cases, whenever the buffer has room for the text and its terminator.\<close>

theorem hex_text_roundtrip:
  assumes "2 * length data < bufsz"
  shows "fst (wpa_snprintf_hex0 up bufsz data) = 2 * length data \<and>
         hexstr2bin (snd (wpa_snprintf_hex0 up bufsz data)) (length data) = (0, data)"
proof -
  have "wpa_snprintf_hex0 up bufsz data = (2 * length data, concat (map (hex02 up) data))"
    using assms snprintf_hex_from_fits [of "[]" data bufsz up] by (simp add: wpa_snprintf_hex0_def)
  then show ?thesis using hexstr2bin_text [of data up "[]" "[]"] by (simp add: hexstr2bin_def)
qed

theorem hex_text_roundtrip_witness:
  "fst (wpa_snprintf_hex0 True 7 [1, 171, 255]) = 6 \<and>
   hexstr2bin (snd (wpa_snprintf_hex0 True 7 [1, 171, 255])) 3 = (0, [1, 171, 255])"
  using hex_text_roundtrip [of "[1, 171, 255]" 7 True] by (simp add: eval_nat_numeral)

text \<open>Incrementing a byte array is adding one to the big-endian number it holds, modulo 256 to the
  power of its length.\<close>

lemma inc_byte_array_adds_one:
  "be_value (inc_byte_array counter) = (be_value counter + 1) mod 256 ^ length counter"
  using inc_bytes_rev_value [of "rev counter"] by (simp add: be_value_def inc_byte_array_def)

end
