(* ===== verification/Lfs_Search.thy ===== *)
theory Lfs_Search
  imports Common_Util
begin

text \<open>
  The search in a log file of logfile/lfs_read.c: lines that start with a time in hexadecimal are
  found by bisection over byte offsets. \<open>getNearSeq\<close> reads from an offset to the next line and
  its time, \<open>_getSeqPosition\<close> bisects and then scans, \<open>filter1\<close> turns a range of times into a
  range of offsets. A file is the list of its characters; the system calls on it cannot fail.
\<close>

section \<open>Reading a line's time\<close>

definition DATA_SIZE :: nat where "DATA_SIZE = 1024"

definition white :: "char \<Rightarrow> bool" where
  "white c \<longleftrightarrow> cval c \<in> {9, 10, 11, 12, 13, 32}"

fun hex_number :: "string \<Rightarrow> nat \<Rightarrow> nat" where
  "hex_number [] v = v"
| "hex_number (c # s) v = (if hex2num c < 0 then v else hex_number s (16 * v + nat (hex2num c)))"

definition ULONG_MAX :: nat where "ULONG_MAX = 2 ^ 64 - 1"

text \<open>\<open>sscanf(s, "%lx,", &v)\<close>; \<open>None\<close> when nothing is converted. A sign negates modulo \<open>2 ^ 64\<close>.\<close>

definition scan_lx :: "string \<Rightarrow> nat option" where
  "scan_lx s =
     (let s1 = dropWhile white s;
          neg = (cur s1 = CHR ''-'');
          s2 = (if cur s1 = CHR ''-'' \<or> cur s1 = CHR ''+'' then tl s1 else s1);
          s3 = (if cur s2 = CHR ''0'' \<and> (cur (tl s2) = CHR ''x'' \<or> cur (tl s2) = CHR ''X'') \<and>
                   0 \<le> hex2num (cur (tl (tl s2))) then tl (tl s2) else s2)
      in if hex2num (cur s3) < 0 then None
         else (let v = min ULONG_MAX (hex_number s3 0)
               in Some (if neg then (2 ^ 64 - v) mod 2 ^ 64 else v)))"

definition NEWLINE :: char where "NEWLINE = CHR 0x0A"

text \<open>
  \<open>getNearSeq\<close>, called with an offset that is not 0: the time and the offset of the line after the next
  newline. Without a newline in the data read it returns 0 and leaves the offset unset, which every
  caller goes on to use; without a number behind it the time is unset: \<open>Crash\<close>.
\<close>

definition getNearSeq :: "string \<Rightarrow> nat \<Rightarrow> (nat \<times> nat) outcome" where
  "getNearSeq file off =
     (let dat = take DATA_SIZE (drop (off - 1) file);
          i = length (takeWhile (\<lambda>c. c \<noteq> NEWLINE) dat)
      in if i \<ge> length dat then Crash
         else (case scan_lx (drop (i + 1) dat) of None \<Rightarrow> Crash | Some mt \<Rightarrow> Done (mt, off + i)))"

section \<open>The search\<close>

text \<open>The loop for a small range, from the line at \<open>foff\<close>.\<close>

fun scan_lines :: "(nat \<Rightarrow> (nat \<times> nat) outcome) \<Rightarrow> nat \<Rightarrow> nat \<Rightarrow> nat \<Rightarrow> nat \<Rightarrow> (nat \<times> nat) outcome" where
  "scan_lines near 0 t lt foff = OutOfFuel"
| "scan_lines near (Suc n) t lt foff =
     obind (near (foff + 1)) (\<lambda>(nt, noff).
       if nt = lt \<or> nt \<ge> t then Done (nt, noff) else scan_lines near n t lt noff)"

text \<open>
  \<open>_getSeqPosition\<close>: the time stored through \<open>p_mt\<close>, if any, and the offset returned. The first argument
  bounds the depth of the recursion and the rounds of the scan. \<open>near\<close> is \<open>getNearSeq\<close> on the file.
\<close>

fun getSeqPosition0 ::
    "nat \<Rightarrow> (nat \<Rightarrow> (nat \<times> nat) outcome) \<Rightarrow> nat \<Rightarrow> nat \<Rightarrow> nat \<Rightarrow> nat \<Rightarrow> nat \<Rightarrow> (nat option \<times> int) outcome" where
  "getSeqPosition0 0 near t ft lt foff loff = OutOfFuel"
| "getSeqPosition0 (Suc n) near t ft lt foff loff =
     (if t < ft then Done (None, -1)
      else if t > lt then Done (None, 0xFFFFFFFE)
      else if int loff - int foff < int DATA_SIZE - 1 \<or> lt - ft \<le> 3 then
        obind (scan_lines near (Suc n) t lt foff) (\<lambda>(nt, noff). Done (Some nt, int noff))
      else if foff = loff then Done (Some ft, int foff)
      else if t \<le> ft then Done (Some ft, int foff)
      else if t \<ge> lt then Done (Some lt, int loff)
      else
        obind (near ((foff + loff) div 2)) (\<lambda>(mt, moff).
          if mt = t then Done (Some t, int moff)
          else if t < mt then getSeqPosition0 n near t ft mt foff moff
          else getSeqPosition0 n near t mt lt moff loff))"

definition getSeqPosition ::
    "nat \<Rightarrow> (nat \<Rightarrow> (nat \<times> nat) outcome) \<Rightarrow> nat \<Rightarrow> nat \<Rightarrow> nat \<Rightarrow> nat \<Rightarrow> nat \<Rightarrow> (nat option \<times> int) outcome" where
  "getSeqPosition fuel near t ft lt foff loff =
     (if t < ft then Done (None, -1)
      else if t > lt then Done (None, 0xFFFFFFFE)
      else if t = ft then Done (Some ft, int foff)
      else if t = lt then Done (Some lt, int loff)
      else getSeqPosition0 fuel near t ft lt foff loff)"

section \<open>An open file\<close>

record lfs_ctx =
  lf_file :: string
  lf_foff :: nat
  lf_loff :: int
  lf_ft :: nat
  lf_lt :: nat
  lf_size :: nat
  lf_st :: int
  lf_et :: int
  lf_soff :: int
  lf_eoff :: int

text \<open>
  \<open>init_lfs\<close>: the last line is looked for in the last \<open>DATA_SIZE\<close> characters, from the one before the last
  back to a newline; the first line gives the first time. A time that cannot be read is unset: \<open>Crash\<close>; so is
  a first line that fills \<open>data\<close>: its terminating zero is written behind \<open>sampleData\<close>.
\<close>

definition last_line_length :: "string \<Rightarrow> nat" where
  "last_line_length dat =
     (if length dat \<le> 1 then 1
      else 1 + length (takeWhile (\<lambda>c. c \<noteq> NEWLINE) (rev (butlast dat))))"

definition first_line :: "string \<Rightarrow> string" where
  "first_line dat = take (length (takeWhile (\<lambda>c. c \<noteq> NEWLINE) (tl dat)) + 2) dat"

definition init_lfs :: "string \<Rightarrow> lfs_ctx outcome" where
  "init_lfs file =
     (let dat = (if length file \<ge> DATA_SIZE then drop (length file - DATA_SIZE) file else file);
          i = last_line_length dat
      in if length dat < i \<or> DATA_SIZE \<le> 1 + length (takeWhile (\<lambda>c. c \<noteq> NEWLINE) (tl (take DATA_SIZE file))) then Crash
         else
           (case scan_lx (drop (length dat - i) dat) of
              None \<Rightarrow> Crash
            | Some lt \<Rightarrow>
                (case scan_lx (first_line (take DATA_SIZE file)) of
                   None \<Rightarrow> Crash
                 | Some ft \<Rightarrow>
                     Done \<lparr>lf_file = file, lf_foff = 0, lf_loff = int (length file) - int i, lf_ft = ft, lf_lt = lt,
                           lf_size = length file, lf_st = 0, lf_et = 0, lf_soff = 0, lf_eoff = 0\<rparr>)))"

text \<open>
  \<open>filter1\<close>: the range of offsets for the times from \<open>st\<close> to \<open>et\<close>. The end is searched for again behind an
  exact match, also behind a time later than the last one.
\<close>

definition filter1 :: "nat \<Rightarrow> lfs_ctx \<Rightarrow> nat \<Rightarrow> nat \<Rightarrow> lfs_ctx outcome" where
  "filter1 fuel c st et =
     (let near = getNearSeq (lf_file c); ft = lf_ft c; lt = lf_lt c; foff = lf_foff c; loff = nat (lf_loff c)
      in obind (if st < ft then Done (int foff)
                else obind (getSeqPosition fuel near st ft lt foff loff) (\<lambda>(_, p). Done p)) (\<lambda>soff.
         obind (if et > lt then Done (et, int (lf_size c))
                else if et \<ge> lt then Done (lt, int loff)
                else obind (getSeqPosition fuel near et ft lt foff loff) (\<lambda>(met, p).
                       Done (case met of None \<Rightarrow> 0 | Some m \<Rightarrow> m, p))) (\<lambda>(met, eoff).
         obind (if met = lt then Done (int (lf_size c))
                else if met = et then
                  obind (getSeqPosition fuel near ((et + 1) mod 2 ^ 64) ft lt foff loff) (\<lambda>(_, p). Done p)
                else Done eoff) (\<lambda>eoff'.
           Done (c\<lparr>lf_st := int st, lf_et := int et, lf_soff := soff, lf_eoff := eoff'\<rparr>)))))"

section \<open>The interface of a file of ordered lines\<close>

text \<open>
  What the search relies on: lines \<open>0\<close> to \<open>n - 1\<close> with growing offsets and times, none longer than half of
  the data read at a time, and a function that gives time and offset of the first line from an offset on.
\<close>

locale line_index =
  fixes near :: "nat \<Rightarrow> (nat \<times> nat) outcome"
    and n :: nat and off :: "nat \<Rightarrow> nat" and tim :: "nat \<Rightarrow> nat"
  assumes off_mono: "i < j \<Longrightarrow> j < n \<Longrightarrow> off i < off j"
    and tim_mono: "i < j \<Longrightarrow> j < n \<Longrightarrow> tim i < tim j"
    and gap: "Suc i < n \<Longrightarrow> off (Suc i) \<le> off i + 511"
    and near_next: "Suc i < n \<Longrightarrow> off i < x \<Longrightarrow> x \<le> off (Suc i) \<Longrightarrow> near x = Done (tim (Suc i), off (Suc i))"
begin

lemma tim_less_iff: "i < n \<Longrightarrow> j < n \<Longrightarrow> tim i < tim j \<longleftrightarrow> i < j"
  using tim_mono by (metis linorder_neqE_nat less_asym)

lemma off_less_iff: "i < n \<Longrightarrow> j < n \<Longrightarrow> off i < off j \<longleftrightarrow> i < j"
  using off_mono by (metis linorder_neqE_nat less_asym)

text \<open>The answer of a search: the first line that is not earlier.\<close>

definition answer :: "nat \<Rightarrow> nat \<Rightarrow> bool" where
  "answer t k \<longleftrightarrow> k < n \<and> t \<le> tim k \<and> (\<forall>j < k. tim j < t)"

lemma scan_lines_finds:
  "fi < li \<Longrightarrow> li < n \<Longrightarrow> tim fi < t \<Longrightarrow> t \<le> tim li \<Longrightarrow> li - fi \<le> f \<Longrightarrow>
   \<exists>k. scan_lines near f t (tim li) (off fi) = Done (tim k, off k) \<and> answer t k"
proof (induction f arbitrary: fi)
  case (Suc f)
  have nx: "Suc fi < n" using Suc.prems(1,2) by simp
  have nr: "near (off fi + 1) = Done (tim (Suc fi), off (Suc fi))"
    using near_next [OF nx, of "off fi + 1"] off_mono [of fi "Suc fi"] nx by simp
  show ?case
  proof (cases "t \<le> tim (Suc fi)")
    case True
    have "tim j < t" if "j < Suc fi" for j
      using that Suc.prems(3) tim_mono [of j fi] nx by (cases "j = fi") auto
    then have "answer t (Suc fi)" using True nx by (simp add: answer_def)
    with True nr show ?thesis by auto
  next
    case False
    then have ne: "tim (Suc fi) \<noteq> tim li" "Suc fi \<noteq> li" using Suc.prems(4) by auto
    then have "\<exists>k. scan_lines near f t (tim li) (off (Suc fi)) = Done (tim k, off k) \<and> answer t k"
      using Suc.prems False by (intro Suc.IH) simp_all
    with False ne nr show ?thesis by simp
  qed
qed simp

text \<open>The middle of a large range lies in front of a line strictly inside the range.\<close>

lemma middle:
  assumes "fi < li" and "li < n" and "\<not> int (off li) - int (off fi) < int DATA_SIZE - 1"
  obtains k where "near ((off fi + off li) div 2) = Done (tim k, off k)" and "fi < k" and "k < li"
proof -
  let ?x = "(off fi + off li) div 2"
  have far: "off fi + 1023 \<le> off li" using assms(3) by (simp add: DATA_SIZE_def)
  have x: "off fi < ?x" "?x + 511 < off li" using far by linarith+
  define k where "k = (LEAST k. ?x \<le> off k)"
  have ex: "?x \<le> off li" using x(2) by simp
  have k1: "?x \<le> off k" unfolding k_def by (rule LeastI [of _ li]) (rule ex)
  have k2: "j < k \<Longrightarrow> off j < ?x" for j unfolding k_def using not_less_Least by (metis not_le)
  have kli: "k \<le> li" unfolding k_def by (rule Least_le) (rule ex)
  have fik: "fi < k"
  proof (rule ccontr)
    assume "\<not> fi < k"
    then have "off k \<le> off fi" using off_mono [of k fi] assms(1,2) by (cases "k = fi") auto
    with k1 x(1) show False by simp
  qed
  then obtain i where i: "k = Suc i" by (cases k) auto
  have "near ?x = Done (tim k, off k)"
    unfolding i using kli assms(2) i k1 k2 [of i] by (intro near_next) simp_all
  moreover have "k \<noteq> li"
  proof
    assume "k = li"
    then have "off li \<le> off i + 511" using gap [of i] i assms(2) by simp
    with k2 [of i] i x(2) show False by simp
  qed
  ultimately show ?thesis using that fik kli by simp
qed

lemma getSeqPosition0_finds:
  "fi < li \<Longrightarrow> li < n \<Longrightarrow> tim fi < t \<Longrightarrow> t < tim li \<Longrightarrow> li - fi \<le> f \<Longrightarrow>
   \<exists>k. getSeqPosition0 f near t (tim fi) (tim li) (off fi) (off li) = Done (Some (tim k), int (off k)) \<and> answer t k"
proof (induction f arbitrary: fi li)
  case (Suc f)
  note P = Suc.prems
  show ?case
  proof (cases "int (off li) - int (off fi) < int DATA_SIZE - 1 \<or> tim li - tim fi \<le> 3")
    case True
    obtain k where "scan_lines near (Suc f) t (tim li) (off fi) = Done (tim k, off k)" "answer t k"
      using scan_lines_finds [OF P(1,2,3) less_imp_le [OF P(4)] P(5)] by blast
    with True P(3,4) show ?thesis by (intro exI [of _ k]) (simp del: scan_lines.simps)
  next
    case False
    then have far: "\<not> int (off li) - int (off fi) < int DATA_SIZE - 1" by simp
    obtain m where m: "near ((off fi + off li) div 2) = Done (tim m, off m)" "fi < m" "m < li"
      by (rule middle [OF P(1,2) far])
    have ne: "off fi \<noteq> off li" using off_mono [OF P(1,2)] by simp
    have step: "getSeqPosition0 (Suc f) near t (tim fi) (tim li) (off fi) (off li) =
        (if tim m = t then Done (Some t, int (off m))
         else if t < tim m then getSeqPosition0 f near t (tim fi) (tim m) (off fi) (off m)
         else getSeqPosition0 f near t (tim m) (tim li) (off m) (off li))"
      using False P(3,4) m(1) ne by simp
    consider "tim m = t" | "t < tim m" | "tim m < t" by linarith
    then show ?thesis
    proof cases
      case 1
      have "\<forall>j < m. tim j < tim m" using tim_mono m(3) P(2) by simp
      then have "answer t m" using 1 m(3) P(2) by (auto simp: answer_def)
      with 1 show ?thesis unfolding step by auto
    next
      case 2
      have "\<exists>k. getSeqPosition0 f near t (tim fi) (tim m) (off fi) (off m) = Done (Some (tim k), int (off k)) \<and> answer t k"
        using m(2,3) P(2,3,5) 2 by (intro Suc.IH) simp_all
      with 2 show ?thesis unfolding step by simp
    next
      case 3
      have "\<exists>k. getSeqPosition0 f near t (tim m) (tim li) (off m) (off li) = Done (Some (tim k), int (off k)) \<and> answer t k"
        using m(2,3) P(2,4,5) 3 by (intro Suc.IH) simp_all
      with 3 show ?thesis unfolding step by simp
    qed
  qed
qed simp

lemma getSeqPosition_finds:
  assumes "0 < n" and "tim 0 \<le> t" and "t \<le> tim (n - 1)" and "n \<le> f"
  shows "\<exists>k. getSeqPosition f near t (tim 0) (tim (n - 1)) (off 0) (off (n - 1)) =
           Done (Some (tim k), int (off k)) \<and> answer t k"
proof -
  consider "t = tim 0" | "tim 0 < t" "t = tim (n - 1)" | "tim 0 < t" "t < tim (n - 1)" using assms by linarith
  then show ?thesis
  proof cases
    case 1
    then have "answer t 0" using assms(1) by (simp add: answer_def)
    with 1 assms(3) show ?thesis by (intro exI [of _ 0]) (simp add: getSeqPosition_def)
  next
    case 2
    have "\<forall>j < n - 1. tim j < t" using 2 tim_mono assms(1) by simp
    then have "answer t (n - 1)" using 2 assms(1) by (simp add: answer_def)
    with 2 show ?thesis by (intro exI [of _ "n - 1"]) (simp add: getSeqPosition_def)
  next
    case 3
    then have "0 < n - 1" using tim_less_iff [of 0 "n - 1"] assms(1) by simp
    moreover have "n - 1 < n" "n - 1 - 0 \<le> f" using assms(1,4) by simp_all
    ultimately obtain k where
      "getSeqPosition0 f near t (tim 0) (tim (n - 1)) (off 0) (off (n - 1)) = Done (Some (tim k), int (off k))" "answer t k"
      using getSeqPosition0_finds [of 0 "n - 1" t f] 3 by blast
    with 3 show ?thesis by (intro exI [of _ k]) (simp add: getSeqPosition_def)
  qed
qed

end

section \<open>Log files\<close>

text \<open>\<open>%08lx\<close> of a time below \<open>2 ^ 32\<close>, and the line \<open>lfs_write_out\<close> writes.\<close>

fun hex_fixed :: "nat \<Rightarrow> nat \<Rightarrow> string" where
  "hex_fixed 0 t = []"
| "hex_fixed (Suc k) t = hex_fixed k (t div 16) @ [hex_digit False (t mod 16)]"

definition log_line :: "nat \<times> string \<Rightarrow> string" where
  "log_line = (\<lambda>(t, body). hex_fixed 8 t @ '','' @ body @ [NEWLINE])"

definition log_file :: "(nat \<times> string) list \<Rightarrow> string" where
  "log_file es = concat (map log_line es)"

definition line_off :: "(nat \<times> string) list \<Rightarrow> nat \<Rightarrow> nat" where
  "line_off es k = length (log_file (take k es))"

text \<open>Ordered times of at most eight digits, lines of at most 511 characters.\<close>

definition log_ok :: "(nat \<times> string) list \<Rightarrow> bool" where
  "log_ok es \<longleftrightarrow> es \<noteq> [] \<and> sorted_wrt (<) (map fst es) \<and>
     (\<forall>(t, body) \<in> set es. t < 2 ^ 32 \<and> NEWLINE \<notin> set body \<and> length body \<le> 501)"

lemma hex_digit_char:
  "d < 16 \<Longrightarrow> hex2num (hex_digit False d) = int d \<and> \<not> white (hex_digit False d) \<and>
     hex_digit False d \<notin> {CHR ''-'', CHR ''+'', CHR ''x'', CHR ''X'', NEWLINE}"
proof -
  have "\<forall>d < 16. hex2num (hex_digit False d) = int d \<and> \<not> white (hex_digit False d) \<and>
     hex_digit False d \<notin> {CHR ''-'', CHR ''+'', CHR ''x'', CHR ''X'', NEWLINE}" by code_simp
  then show "d < 16 \<Longrightarrow> ?thesis" by blast
qed

lemma length_hex_fixed [simp]: "length (hex_fixed k t) = k"
  by (induction k arbitrary: t) simp_all

lemma set_hex_fixed: "c \<in> set (hex_fixed k t) \<Longrightarrow> \<exists>d < 16. c = hex_digit False d"
proof (induction k arbitrary: t)
  case (Suc k)
  from Suc.prems consider "c \<in> set (hex_fixed k (t div 16))" | "c = hex_digit False (t mod 16)" by auto
  then show ?case
  proof cases
    case 2
    then show ?thesis by (intro exI [of _ "t mod 16"]) simp
  qed (rule Suc.IH)
qed simp

lemma newline_not_hex: "NEWLINE \<notin> set (hex_fixed k t)"
  using set_hex_fixed [of NEWLINE k t] hex_digit_char by fastforce

lemma hex_number_fixed:
  "t < 16 ^ k \<Longrightarrow> hex_number (hex_fixed k t @ s) v = hex_number s (v * 16 ^ k + t)"
proof (induction k arbitrary: t s)
  case (Suc k)
  have q: "t div 16 < 16 ^ k" using Suc.prems by (simp add: less_mult_imp_div_less)
  have d: "hex2num (hex_digit False (t mod 16)) = int (t mod 16)" using hex_digit_char [of "t mod 16"] by simp
  have "hex_number (hex_fixed (Suc k) t @ s) v =
      hex_number s (16 * (v * 16 ^ k + t div 16) + t mod 16)"
    using Suc.IH [OF q, of "hex_digit False (t mod 16) # s"] d by simp
  also have "16 * (v * 16 ^ k + t div 16) + t mod 16 = v * 16 ^ Suc k + t" by simp
  finally show ?case .
qed simp

lemma scan_lx_line:
  assumes "t < 2 ^ 32"
  shows "scan_lx (hex_fixed 8 t @ CHR '','' # s) = Some t"
proof -
  obtain a b r where h: "hex_fixed 8 t = a # b # r"
    by (cases "hex_fixed 8 t"; cases "tl (hex_fixed 8 t)") (use length_hex_fixed [of 8 t] in auto)
  obtain d e where de: "d < 16" "a = hex_digit False d" "e < 16" "b = hex_digit False e"
    using set_hex_fixed [of a 8 t] set_hex_fixed [of b 8 t] h by auto
  have a: "hex2num a = int d" "\<not> white a" "a \<noteq> CHR ''-''" "a \<noteq> CHR ''+''" using hex_digit_char [OF de(1)] de(2) by auto
  have b: "b \<noteq> CHR ''x''" "b \<noteq> CHR ''X''" using hex_digit_char [OF de(3)] de(4) by auto
  have c: "hex2num CHR '','' < 0" by code_simp
  have "hex_number (hex_fixed 8 t @ CHR '','' # s) 0 = t"
    using hex_number_fixed [of t 8 "CHR '','' # s" 0] assms c by simp
  then show ?thesis unfolding h using a b assms
    by (simp add: scan_lx_def Let_def ULONG_MAX_def)
qed

lemma log_entry:
  assumes "log_ok es" and "i < length es" and "es ! i = (t, b)"
  shows "t < 2 ^ 32 \<and> NEWLINE \<notin> set b \<and> length b \<le> 501"
proof -
  have "(t, b) \<in> set es" using assms(2,3) nth_mem by fastforce
  with assms(1) show ?thesis by (auto simp: log_ok_def)
qed

lemma line_off_Suc:
  "i < length es \<Longrightarrow> line_off es (Suc i) = line_off es i + length (log_line (es ! i))"
  by (simp add: line_off_def log_file_def take_Suc_conv_app_nth)

lemma log_file_split:
  "i < length es \<Longrightarrow> drop (line_off es i) (log_file es) = log_line (es ! i) @ drop (line_off es (Suc i)) (log_file es)"
proof -
  assume i: "i < length es"
  have "log_file es = log_file (take i es) @ log_line (es ! i) @ log_file (drop (Suc i) es)"
    using i by (metis id_take_nth_drop log_file_def concat.simps(2) concat_append list.simps(9) map_append)
  moreover have "line_off es (Suc i) = length (log_file (take i es)) + length (log_line (es ! i))"
    using line_off_Suc [OF i] by (simp add: line_off_def)
  ultimately show ?thesis by (simp add: line_off_def)
qed

lemma getNearSeq_next:
  assumes "log_ok es" and "Suc i < length es" and "line_off es i < x" and "x \<le> line_off es (Suc i)"
  shows "getNearSeq (log_file es) x = Done (fst (es ! Suc i), line_off es (Suc i))"
proof -
  obtain t0 b0 where e0: "es ! i = (t0, b0)" by (cases "es ! i")
  obtain t1 b1 where e1: "es ! Suc i = (t1, b1)" by (cases "es ! Suc i")
  have ok0: "NEWLINE \<notin> set b0" "length b0 \<le> 501" using log_entry [OF assms(1) _ e0] assms(2) by simp_all
  have ok1: "t1 < 2 ^ 32" using log_entry [OF assms(1,2) e1] by simp
  define body where "body = hex_fixed 8 t0 @ '','' @ b0"
  have line: "log_line (es ! i) = body @ [NEWLINE]" by (simp add: log_line_def e0 body_def)
  have lb: "length body \<le> 510" using ok0(2) by (simp add: body_def)
  have nb: "NEWLINE \<notin> set body"
    using ok0(1) newline_not_hex [of 8 t0] by (simp add: body_def) (simp add: NEWLINE_def)
  define d where "d = x - 1 - line_off es i"
  have x: "x - 1 = d + line_off es i" "d \<le> length body"
    using assms(3,4) line_off_Suc [of i es] assms(2) line by (auto simp: d_def)
  define z where "z = drop (line_off es (Suc (Suc i))) (log_file es)"
  define rest where "rest = log_line (es ! Suc i) @ z"
  have dr: "drop (x - 1) (log_file es) = drop d body @ NEWLINE # rest"
  proof -
    have "drop (x - 1) (log_file es) = drop d (drop (line_off es i) (log_file es))" by (simp only: x(1) drop_drop)
    also have "\<dots> = drop d (body @ NEWLINE # rest)"
      using log_file_split [of i es] log_file_split [of "Suc i" es] assms(2) by (simp add: line rest_def z_def)
    finally show ?thesis using x(2) by simp
  qed
  define u where "u = drop d body"
  have u: "length u \<le> 510" "\<forall>c \<in> set u. c \<noteq> NEWLINE" "length u = length body - d"
    using lb nb by (auto simp: u_def dest: in_set_dropD)
  obtain k where k: "DATA_SIZE - length u = Suc k" "9 \<le> k" using u(1)
    by (cases "DATA_SIZE - length u") (simp_all add: DATA_SIZE_def)
  have dat: "take DATA_SIZE (drop (x - 1) (log_file es)) = u @ NEWLINE # take k rest"
  proof -
    have "take DATA_SIZE u = u" using u(1) by (simp add: DATA_SIZE_def)
    then show ?thesis unfolding dr u_def [symmetric] take_append k(1) by (simp only: take_Suc_Cons)
  qed
  have tw: "takeWhile (\<lambda>c. c \<noteq> NEWLINE) (u @ NEWLINE # take k rest) = u"
    using u(2) by (simp add: takeWhile_append2)
  obtain s where s: "take k rest = hex_fixed 8 t1 @ CHR '','' # s"
  proof -
    define h where "h = hex_fixed 8 t1 @ '',''"
    have "rest = h @ b1 @ [NEWLINE] @ z" by (simp add: rest_def log_line_def e1 h_def del: hex_fixed.simps)
    moreover have "length h = 9" by (simp add: h_def)
    ultimately have "take k rest = h @ take (k - 9) (b1 @ [NEWLINE] @ z)" using k(2) by simp
    with that show ?thesis by (simp add: h_def del: hex_fixed.simps)
  qed
  have "x + length u = line_off es (Suc i)"
    using x u(3) assms(3) line_off_Suc [of i es] assms(2) line by simp
  then show ?thesis
    unfolding getNearSeq_def dat tw Let_def using scan_lx_line [OF ok1, of s] by (simp add: s e1)
qed

text \<open>A well-formed log file provides the interface of the search.\<close>

lemma log_line_index:
  assumes "log_ok es"
  shows "line_index (getNearSeq (log_file es)) (length es) (line_off es) (\<lambda>i. fst (es ! i))"
proof
  have ll: "0 < length (log_line e)" for e by (cases e) (simp add: log_line_def)
  have len: "length (log_line (es ! i)) \<le> 511" if "i < length es" for i
  proof -
    obtain t b where e: "es ! i = (t, b)" by (cases "es ! i")
    show ?thesis using log_entry [OF assms that e] by (simp add: log_line_def e)
  qed
  show "line_off es i < line_off es j" if "i < j" "j < length es" for i j
    using that
  proof (induction j)
    case (Suc j)
    then show ?case using line_off_Suc [of j es] ll [of "es ! j"] by (cases "i = j") auto
  qed simp
  show "fst (es ! i) < fst (es ! j)" if "i < j" "j < length es" for i j
    using assms that sorted_wrt_nth_less [of "(<)" "map fst es" i j] by (simp add: log_ok_def)
  show "line_off es (Suc i) \<le> line_off es i + 511" if "Suc i < length es" for i
    using that line_off_Suc [of i es] len [of i] by simp
  show "getNearSeq (log_file es) x = Done (fst (es ! Suc i), line_off es (Suc i))"
    if "Suc i < length es" "line_off es i < x" "x \<le> line_off es (Suc i)" for i x
    using assms that by (rule getNearSeq_next)
qed

text \<open>The interface on every log file; one that is not well-formed is replaced.\<close>

definition valid_log :: "(nat \<times> string) list \<Rightarrow> (nat \<times> string) list" where
  "valid_log es = (if log_ok es then es else [(0, [])])"

lemma valid_log_ok: "log_ok (valid_log es)"
  by (simp add: valid_log_def log_ok_def)

interpretation lines: line_index "getNearSeq (log_file (valid_log es))" "length (valid_log es)"
    "line_off (valid_log es)" "\<lambda>i. fst (valid_log es ! i)" for es
  by (rule log_line_index [OF valid_log_ok])

text \<open>The number of lines earlier than a time, and the search in these terms.\<close>

definition earlier :: "(nat \<times> string) list \<Rightarrow> nat \<Rightarrow> nat" where
  "earlier es t = length (takeWhile (\<lambda>e. fst e < t) es)"

lemma earlier_eqI:
  assumes "k < length es" and "t \<le> fst (es ! k)" and "\<forall>j < k. fst (es ! j) < t"
  shows "earlier es t = k"
proof -
  have "takeWhile (\<lambda>e. fst e < t) es = take k es"
    using assms by (intro takeWhile_eq_take_P_nth) simp_all
  then show ?thesis using assms(1) by (simp add: earlier_def)
qed

lemma earlier_less: "j < earlier es t \<Longrightarrow> j < length es \<and> fst (es ! j) < t"
  using nth_length_takeWhile length_takeWhile_le nth_mem [of j "takeWhile (\<lambda>e. fst e < t) es"]
  by (metis (mono_tags, lifting) earlier_def order_less_le_trans set_takeWhileD takeWhile_nth)

lemma log_search:
  assumes "log_ok es" and "fst (es ! 0) \<le> t" and "t \<le> fst (es ! (length es - 1))" and "length es \<le> fuel"
  shows "getSeqPosition fuel (getNearSeq (log_file es)) t (fst (es ! 0)) (fst (es ! (length es - 1)))
             0 (line_off es (length es - 1)) = Done (Some (fst (es ! earlier es t)), int (line_off es (earlier es t))) \<and>
           earlier es t < length es \<and> t \<le> fst (es ! earlier es t)"
proof -
  have v: "valid_log es = es" using assms(1) by (simp add: valid_log_def)
  have n: "0 < length es" using assms(1) by (simp add: log_ok_def)
  have z: "line_off es 0 = 0" by (simp add: line_off_def log_file_def)
  obtain k where k: "getSeqPosition fuel (getNearSeq (log_file es)) t (fst (es ! 0)) (fst (es ! (length es - 1)))
             0 (line_off es (length es - 1)) = Done (Some (fst (es ! k)), int (line_off es k))"
      and "line_index.answer (length es) (\<lambda>i. fst (es ! i)) t k"
    using lines.getSeqPosition_finds [of es t fuel] assms n unfolding v z by blast
  then have "k < length es" "t \<le> fst (es ! k)" "\<forall>j < k. fst (es ! j) < t"
    unfolding line_index.answer_def [OF log_line_index [OF assms(1)]] by blast+
  then have "earlier es t = k" by (rule earlier_eqI)
  with k \<open>k < length es\<close> \<open>t \<le> fst (es ! k)\<close> show ?thesis by simp
qed

section \<open>Properties\<close>

text \<open>C23. In a log file of ordered times with lines of at most 511 characters the search ends, and for
  a time between the first and the last it gives the offset and the time of the first line that
  is not earlier.\<close>

theorem log_search_finds_first_line:
  assumes "log_ok es" and "fst (es ! 0) \<le> t" and "t \<le> fst (es ! (length es - 1))" and "length es \<le> fuel"
  shows "\<exists>k < length es. getSeqPosition fuel (getNearSeq (log_file es)) t (fst (es ! 0)) (fst (es ! (length es - 1)))
             0 (line_off es (length es - 1)) = Done (Some (fst (es ! k)), int (line_off es k)) \<and>
           t \<le> fst (es ! k) \<and> (\<forall>j < k. fst (es ! j) < t)"
  using log_search [OF assms] earlier_less [of _ es t] by (intro exI [of _ "earlier es t"]) simp

definition demo_log :: "(nat \<times> string) list" where
  "demo_log = [(16, ''one''), (20, ''two''), (30, ''three''), (48, ''four'')]"

theorem log_search_finds_first_line_witness:
  "getSeqPosition 4 (getNearSeq (log_file demo_log)) 21 16 48 0 41 = Done (Some 30, 26)"
proof -
  have ok: "log_ok demo_log" by (simp add: log_ok_def demo_log_def NEWLINE_def)
  have v: "demo_log ! 0 = (16, ''one'')" "length demo_log = 4" "demo_log ! 1 = (20, ''two'')" "demo_log ! 2 = (30, ''three'')"
    "demo_log ! 3 = (48, ''four'')" by (simp_all add: demo_log_def)
  have off: "line_off demo_log 3 = 41" "line_off demo_log 2 = 26" by code_simp+
  obtain k where k: "k < 4" "getSeqPosition 4 (getNearSeq (log_file demo_log)) 21 16 48 0 41 =
      Done (Some (fst (demo_log ! k)), int (line_off demo_log k))" "21 \<le> fst (demo_log ! k)" "\<forall>j < k. fst (demo_log ! j) < 21"
    using log_search_finds_first_line [OF ok, of 21 4] by (auto simp: v off)
  have "k = 2"
  proof -
    consider "k = 0" | "k = 1" | "k = 2" | "k = 3" using k(1) by linarith
    then show ?thesis using k(3,4) v by cases (auto dest: spec [of _ 2])
  qed
  with k(2) show ?thesis by (simp add: v off)
qed

text \<open>When the middle of a large range lies in the line in front of the last one, the search calls
  itself again with the same range: it never returns, however deep the recursion may go. This
  happens with lines longer than 511 characters.\<close>

lemma log_search_never_ends:
  assumes "near ((foff + loff) div 2) = Done (lt, loff)" and "foff + 1023 \<le> loff" and "ft + 3 < lt"
    and "ft < t" and "t < lt"
  shows "getSeqPosition fuel near t ft lt foff loff = OutOfFuel"
proof -
  have "getSeqPosition0 fuel near t ft lt foff loff = OutOfFuel"
  proof (induction fuel)
    case (Suc n)
    have far: "\<not> (int loff - int foff < int DATA_SIZE - 1 \<or> lt - ft \<le> 3)" "foff \<noteq> loff"
      "\<not> t < ft" "\<not> lt < t" "\<not> t \<le> ft" "\<not> lt \<le> t" "lt \<noteq> t"
      using assms(2-5) by (auto simp: DATA_SIZE_def)
    show ?case unfolding getSeqPosition0.simps if_not_P [OF far(1)] using Suc far assms(1,5) by simp
  qed simp
  with assms show ?thesis by (simp add: getSeqPosition_def)
qed

definition long_log :: "(nat \<times> string) list" where
  "long_log = [(16, replicate 300 CHR ''a''), (20, replicate 800 CHR ''b''), (48, ''c'')]"

lemma log_search_never_ends_witness:
  "\<forall>fuel. getSeqPosition fuel (getNearSeq (log_file long_log)) 30 16 48 0 1120 = OutOfFuel"
proof
  let ?pre = "hex_fixed 8 16 @ '','' @ replicate 300 CHR ''a'' @ [NEWLINE] @ hex_fixed 8 20 @ '',''"
  let ?post = "NEWLINE # hex_fixed 8 48 @ CHR '','' # ''c'' @ [NEWLINE]"
  have "log_file long_log = ?pre @ replicate 800 CHR ''b'' @ ?post"
    by (simp add: log_file_def long_log_def log_line_def del: hex_fixed.simps replicate_Suc)
  then have "drop 559 (log_file long_log) = replicate 560 CHR ''b'' @ ?post"
    by (simp del: hex_fixed.simps replicate_Suc)
  moreover have "length (takeWhile (\<lambda>c. c \<noteq> NEWLINE) (replicate 560 CHR ''b'' @ ?post)) = 560"
    by (subst takeWhile_append2) (auto simp: NEWLINE_def simp del: hex_fixed.simps replicate_Suc)
  ultimately have n: "getNearSeq (log_file long_log) ((0 + 1120) div 2) = Done (48, 1120)"
    using scan_lx_line [of 48 "''c'' @ [NEWLINE]"]
    by (simp add: getNearSeq_def DATA_SIZE_def del: hex_fixed.simps replicate_Suc)
  show "getSeqPosition fuel (getNearSeq (log_file long_log)) 30 16 48 0 1120 = OutOfFuel" for fuel
    by (rule log_search_never_ends [where near = "getNearSeq (log_file long_log)" and foff = 0 and loff = 1120, OF n]) simp_all
qed

end
