(* ===== verification/Lfs_Filter.thy ===== *)
theory Lfs_Filter
  imports Lfs_Search
begin

text \<open>
  Reading and writing a log with logfile/lfs_read.c: \<open>filter2\<close> copies the lines of the range that
  \<open>filter1\<close> found, \<open>outfilter\<close> formats one, \<open>lfs_read_in\<close> is the library's call for both, and
  \<open>lfs_write_out\<close> appends a line. \<open>jss_encode\<close> and \<open>jss_decode\<close> are defined in another library: they
  are parameters.
\<close>

section \<open>One line\<close>

text \<open>The characters of a buffer up to the terminating zero.\<close>

definition cstr :: "string \<Rightarrow> string" where
  "cstr s = takeWhile (\<lambda>c. c \<noteq> CHR 0x00) s"

text \<open>\<open>strstr\<close> finds something.\<close>

definition contains :: "string \<Rightarrow> string \<Rightarrow> bool" where
  "contains hay needle \<longleftrightarrow> (\<exists>i \<in> set [0..<Suc (length hay)]. take (length needle) (drop i hay) = needle)"

text \<open>
  \<open>outfilter\<close>: the text appended to \<open>outbuf\<close>, or printed when there is none (\<open>to_buf\<close> is \<open>False\<close>). \<open>msg\<close> holds
  the line and a terminating zero; behind that it is unset, so \<open>msg + 9\<close> of a shorter line is a \<open>Crash\<close>,
  and so is the use of a time that could not be read.
\<close>

definition outfilter ::
    "bool \<Rightarrow> int \<Rightarrow> string option \<Rightarrow> int \<Rightarrow> string \<Rightarrow> string \<Rightarrow> string outcome" where
  "outfilter to_buf g_debugLevel flt t_offset sep msg =
     obind (case flt of None \<Rightarrow> Done True
            | Some f \<Rightarrow> if length msg < 9 then Crash else Done (contains (cstr (drop 9 msg)) f)) (\<lambda>hit.
       if \<not> hit then Done []
       else (case scan_lx msg of
               None \<Rightarrow> Crash
             | Some t \<Rightarrow>
                 if to_buf \<or> (t mod 16 = 0 \<and> g_debugLevel \<ge> 0) then
                   if length msg < 9 then Crash
                   else Done (percent_lu (nat ((int t + t_offset) mod 2 ^ 64)) @ sep @ cstr (drop 9 msg))
                 else Done []))"

section \<open>The lines of a range\<close>

definition BULK_BUF_SIZE :: nat where "BULK_BUF_SIZE = 0x100000"

text \<open>
  The inner loop of \<open>filter2\<close>: the text for the complete lines of the buffer, and what is left behind the
  last newline. A line that does not fit into \<open>msg\<close> overruns it.
\<close>

function filter_lines :: "(string \<Rightarrow> string outcome) \<Rightarrow> string \<Rightarrow> (string \<times> string) outcome" where
  "filter_lines emit buf =
     (let j = length (takeWhile (\<lambda>c. c \<noteq> NEWLINE) buf)
      in if j \<ge> length buf then Done ([], buf)
         else if j \<ge> DATA_SIZE then Crash
         else obind (emit (take (j + 1) buf)) (\<lambda>out.
                obind (filter_lines emit (drop (j + 1) buf)) (\<lambda>(out', rest). Done (out @ out', rest))))"
  by pat_completeness auto
termination by (relation "measure (\<lambda>(emit, buf). length buf)") auto

declare filter_lines.simps [simp del]

lemma obind_cong [fundef_cong]:
  "m = m' \<Longrightarrow> (\<And>x. m' = Done x \<Longrightarrow> f x = f' x) \<Longrightarrow> obind m f = obind m' f'"
  by (cases m') auto

text \<open>
  The outer loop. \<open>p\<close> is the position of the descriptor and \<open>unbuf\<close> the incomplete line kept at the start of
  the buffer; \<open>off\<close> counts the kept bytes again with every round. It returns the text in the order of output.
\<close>

function filter2_loop ::
    "(string \<Rightarrow> string outcome) \<Rightarrow> string \<Rightarrow> int \<Rightarrow> int \<Rightarrow> nat \<Rightarrow> string \<Rightarrow> string outcome" where
  "filter2_loop emit file eoff off p unbuf =
     (if \<not> off < eoff then Done []
      else
        (let toRead0 = min (int BULK_BUF_SIZE - int (length unbuf) - 1) (eoff - off);
             toRead = (if off mod 512 \<noteq> 0 then toRead0 - (512 - off mod 512) else toRead0)
         in if toRead \<le> 0 then Done []
            else
              (let dat = take (nat toRead) (drop p file)
               in if dat = [] then Done []
                  else obind (filter_lines emit (unbuf @ dat)) (\<lambda>(out, rest).
                         obind (filter2_loop emit file eoff (off + int (length (unbuf @ dat))) (p + length dat) rest)
                           (\<lambda>out'. Done (out @ out'))))))"
  by pat_completeness auto
termination
  by (relation "measure (\<lambda>(emit, file, eoff, off, p, unbuf). nat (eoff - off))")
     (auto simp: Let_def simp flip: length_greater_0_conv)

declare filter2_loop.simps [simp del]

text \<open>\<open>filter2\<close>. \<open>filter1\<close> never leaves a negative start, so \<open>lseek\<close> succeeds.\<close>

definition filter2 ::
    "bool \<Rightarrow> int \<Rightarrow> lfs_ctx \<Rightarrow> string option \<Rightarrow> int \<Rightarrow> string \<Rightarrow> string outcome" where
  "filter2 to_buf g_debugLevel c flt t_offset sep =
     filter2_loop (outfilter to_buf g_debugLevel flt t_offset sep) (lf_file c) (lf_eoff c) (lf_soff c)
       (nat (lf_soff c)) []"

section \<open>The library's calls\<close>

definition MAX_LOGLINE_SIZE :: nat where "MAX_LOGLINE_SIZE = 32768"
definition MAX_LOGLINES_SIZE :: nat where "MAX_LOGLINES_SIZE = 32 * 1024 * 1024"

text \<open>
  \<open>lfs_read_in\<close>: the value returned, what it leaves at the start of \<open>buf\<close>, and the context. \<open>None\<close> is the null
  handle; \<open>jss_decode\<close> gives its value and the characters it writes. Its \<open>malloc\<close> succeeds; text longer than
  the block overruns it.
\<close>

definition lfs_read_in ::
    "nat \<Rightarrow> (string \<Rightarrow> int \<times> string) \<Rightarrow> lfs_ctx option \<Rightarrow> int \<Rightarrow> nat \<Rightarrow> nat \<Rightarrow> string option \<Rightarrow> int \<Rightarrow> string \<Rightarrow> int \<Rightarrow>
     (int \<times> string \<times> lfs_ctx option) outcome" where
  "lfs_read_in fuel jss_decode lfd bufLen st et flt t_offset sep opt =
     (case lfd of
        None \<Rightarrow> Done (-1, [], None)
      | Some c \<Rightarrow>
          (let (st, et, t_offset, flt) =
                 (if opt = 2 then (lf_lt c, (lf_lt c + 1) mod 2 ^ 64, 0, None)
                  else if opt = 1 then (lf_ft c, (lf_ft c + 1) mod 2 ^ 64, 0, None)
                  else (st, et, t_offset, flt))
           in obind (filter1 fuel c (nat ((int st - t_offset) mod 2 ^ 64)) (nat ((int et - t_offset) mod 2 ^ 64))) (\<lambda>c'.
                obind (filter2 True 0 c' flt t_offset sep) (\<lambda>out.
                  if length out \<ge> MAX_LOGLINES_SIZE then Crash
                  else if bufLen < int (length out) then Done (0, [], Some c')
                  else (let (n, text) = jss_decode out
                        in Done (n, text @ (if 0 < n \<and> n < bufLen then [CHR 0x00] else []), Some c'))))))"

text \<open>\<open>%08lx\<close>.\<close>

definition percent_08lx :: "nat \<Rightarrow> string" where
  "percent_08lx t = (if t < 2 ^ 32 then hex_fixed 8 t else dropWhile (\<lambda>c. c = CHR ''0'') (hex_fixed 16 t))"

text \<open>\<open>lfs_write_out\<close> on a file opened with \<open>O_APPEND\<close>; \<open>jss_encode\<close> gives the string it writes.\<close>

definition lfs_write_out :: "(string \<Rightarrow> string) \<Rightarrow> nat \<Rightarrow> string \<Rightarrow> string \<Rightarrow> int \<times> string" where
  "lfs_write_out jss_encode ct dat file =
     (if length dat \<ge> MAX_LOGLINE_SIZE then (0, file)
      else (let line = percent_08lx ct @ '','' @ jss_encode dat @ [NEWLINE]
            in (int (length line), file @ line)))"

end
