(* ===== verification/Lfs_Laws.thy ===== *)
theory Lfs_Laws
  imports Lfs_Filter
begin

text \<open>
  What a reader of a log gets: the context \<open>init_lfs\<close> makes of a well-formed log file, the range
  \<open>filter1\<close> finds in it, the lines \<open>filter2\<close> copies.
\<close>

section \<open>Log files as lists of lines\<close>

lemma log_file_append [simp]: "log_file (xs @ ys) = log_file xs @ log_file ys"
  by (simp add: log_file_def)

lemma log_file_Nil [simp]: "log_file [] = []"
  by (simp add: log_file_def)

lemma log_file_Cons: "log_file (e # es) = log_line e @ log_file es"
  by (simp add: log_file_def)

lemma line_off_0 [simp]: "line_off es 0 = 0"
  by (simp add: line_off_def)

lemma line_off_length: "line_off es (length es) = length (log_file es)"
  by (simp add: line_off_def)

lemma drop_line_off: "drop (line_off es i) (log_file es) = log_file (drop i es)"
proof -
  have "log_file es = log_file (take i es) @ log_file (drop i es)" by (simp flip: log_file_append)
  then show ?thesis by (simp add: line_off_def)
qed

lemma line_off_diff: "i \<le> j \<Longrightarrow> line_off es j = line_off es i + length (log_file (drop i (take j es)))"
proof -
  assume "i \<le> j"
  then have "take j es = take i es @ drop i (take j es)"
    by (metis append_take_drop_id min.absorb1 take_take)
  then show ?thesis unfolding line_off_def by (metis length_append log_file_append)
qed

lemma line_off_mono: "i \<le> j \<Longrightarrow> line_off es i \<le> line_off es j"
  using line_off_diff [of i j es] by simp

lemma line_off_le: "line_off es i \<le> length (log_file es)"
proof -
  have "log_file es = log_file (take i es) @ log_file (drop i es)" by (simp flip: log_file_append)
  then have "length (log_file es) = line_off es i + length (log_file (drop i es))"
    unfolding line_off_def by (metis length_append)
  then show ?thesis by simp
qed

lemma take_segment:
  "i \<le> j \<Longrightarrow> take (line_off es j - line_off es i) (log_file (drop i es)) = log_file (drop i (take j es))"
proof -
  assume i: "i \<le> j"
  have "drop i es = drop i (take j es) @ drop j es" if "j \<le> length es"
    using i that by (metis append_take_drop_id diff_is_0_eq drop_0 drop_append length_take min.absorb2)
  then have "log_file (drop i es) = log_file (drop i (take j es)) @ log_file (drop j es)"
    by (cases "j \<le> length es") (simp_all flip: log_file_append)
  then show ?thesis using line_off_diff [OF i, of es] by simp
qed

definition line_body :: "nat \<times> string \<Rightarrow> string" where
  "line_body e = hex_fixed 8 (fst e) @ '','' @ snd e"

lemma log_line_body: "log_line e = line_body e @ [NEWLINE]"
  by (cases e) (simp add: log_line_def line_body_def del: hex_fixed.simps)

text \<open>An entry of a well-formed log.\<close>

definition entry_ok :: "nat \<times> string \<Rightarrow> bool" where
  "entry_ok e \<longleftrightarrow> fst e < 2 ^ 32 \<and> NEWLINE \<notin> set (snd e) \<and> length (snd e) \<le> 501"

lemma log_ok_entries: "log_ok es \<Longrightarrow> \<forall>e \<in> set es. entry_ok e"
  by (fastforce simp: log_ok_def entry_ok_def)

lemma line_body_facts:
  assumes "entry_ok e"
  shows "NEWLINE \<notin> set (line_body e)" and "9 \<le> length (line_body e)" and "length (line_body e) \<le> 510"
  using assms newline_not_hex [of 8 "fst e"]
  by (auto simp: entry_ok_def line_body_def NEWLINE_def simp del: hex_fixed.simps)

lemma scan_lx_body: "entry_ok e \<Longrightarrow> scan_lx (line_body e @ s) = Some (fst e)"
  using scan_lx_line [of "fst e" "snd e @ s"] by (simp add: entry_ok_def line_body_def del: hex_fixed.simps)

lemma takeWhile_body [simp]:
  "entry_ok e \<Longrightarrow> takeWhile (\<lambda>c. c \<noteq> NEWLINE) (line_body e @ NEWLINE # s) = line_body e"
  using line_body_facts(1) [of e] by (subst takeWhile_append2) auto

section \<open>Copying lines\<close>

lemma filter_lines_log:
  "\<forall>e \<in> set es. entry_ok e \<and> emit (log_line e) = Done (g e) \<Longrightarrow>
   filter_lines emit (log_file es) = Done (concat (map g es), [])"
proof (induction es)
  case Nil
  show ?case by (subst filter_lines.simps) simp
next
  case (Cons e es)
  have e: "entry_ok e" "emit (log_line e) = Done (g e)" using Cons.prems by simp_all
  have f: "log_file (e # es) = line_body e @ NEWLINE # log_file es" by (simp add: log_file_Cons log_line_body)
  have t: "take (Suc (length (line_body e))) (line_body e @ NEWLINE # log_file es) = log_line e"
    by (simp add: log_line_body)
  have IH: "filter_lines emit (log_file es) = Done (concat (map g es), [])" using Cons by simp
  have short: "\<not> DATA_SIZE \<le> length (line_body e)" using line_body_facts(3) [OF e(1)] by (simp add: DATA_SIZE_def)
  show ?case unfolding f by (subst filter_lines.simps) (simp add: Let_def takeWhile_body [OF e(1)] t [unfolded log_line_body] e(2) [unfolded log_line_body] IH short)
qed

text \<open>The loop behind the last line of the range.\<close>

lemma filter2_loop_end:
  "eoff \<le> off \<or> length file \<le> p \<Longrightarrow> filter2_loop emit file eoff off p [] = Done []"
  by (subst filter2_loop.simps) (auto simp: Let_def)

lemma filter2_loop_log:
  assumes ok: "\<forall>e \<in> set es. entry_ok e \<and> emit (log_line e) = Done (g e)"
    and ij: "i \<le> j" "j \<le> length es" and al: "512 dvd line_off es i" and size: "length (log_file es) < BULK_BUF_SIZE"
    and eoff: "eoff = int (line_off es j) \<or> j = length es \<and> int (length (log_file es)) \<le> eoff"
  shows "filter2_loop emit (log_file es) eoff (int (line_off es i)) (line_off es i) [] =
         Done (concat (map g (drop i (take j es))))"
proof -
  let ?seg = "drop i (take j es)"
  have o: "line_off es j = line_off es i + length (log_file ?seg)" by (rule line_off_diff [OF ij(1)])
  have ej: "int (line_off es j) \<le> eoff" using eoff by (auto simp: line_off_length)
  have pj: "line_off es j \<le> length (log_file es)" by (rule line_off_le)
  have seg: "filter_lines emit (log_file ?seg) = Done (concat (map g ?seg), [])"
    using ok by (intro filter_lines_log) (meson in_set_dropD in_set_takeD)
  show ?thesis
  proof (cases "?seg = []")
    case True
    then have "line_off es j = line_off es i" using o by simp
    with eoff have "eoff \<le> int (line_off es i) \<or> length (log_file es) \<le> line_off es i"
      by (auto simp: line_off_length)
    with True show ?thesis by (simp add: filter2_loop_end)
  next
    case False
    then obtain e r where er: "?seg = e # r" by (cases ?seg) auto
    have ne: "log_file ?seg \<noteq> []" by (simp add: er log_file_Cons log_line_body)
    let ?n = "nat (min (int BULK_BUF_SIZE - 1) (eoff - int (line_off es i)))"
    have lt: "int (line_off es i) < eoff" "0 < min (int BULK_BUF_SIZE - 1) (eoff - int (line_off es i))"
    proof -
      have "0 < length (log_file ?seg)" using ne by simp
      then show "int (line_off es i) < eoff" using o ej by linarith
      then show "0 < min (int BULK_BUF_SIZE - 1) (eoff - int (line_off es i))" by (simp add: BULK_BUF_SIZE_def)
    qed
    have dat: "take ?n (drop (line_off es i) (log_file es)) = log_file ?seg"
    proof (cases "eoff = int (line_off es j)")
      case True
      then have "?n = line_off es j - line_off es i" using size pj o by simp
      then show ?thesis by (simp add: drop_line_off take_segment [OF ij(1)])
    next
      case False
      then have j: "j = length es" "int (length (log_file es)) \<le> eoff" using eoff by auto
      then have "length (log_file (drop i es)) \<le> ?n" using size o by (simp add: line_off_length)
      with j(1) show ?thesis by (simp add: drop_line_off)
    qed
    have m: "int (line_off es i) mod 512 = 0" using al by (metis dvd_imp_mod_0 int_dvd_int_iff of_nat_numeral)
    have rest: "filter2_loop emit (log_file es) eoff (int (line_off es i) + int (length (log_file ?seg)))
        (line_off es i + length (log_file ?seg)) [] = Done []"
      using eoff o by (intro filter2_loop_end) (auto simp: line_off_length)
    show ?thesis
      using lt ne dat seg m rest by (subst filter2_loop.simps) (simp add: Let_def)
  qed
qed

section \<open>Opening a log file\<close>

definition log_ctx :: "(nat \<times> string) list \<Rightarrow> lfs_ctx" where
  "log_ctx es = \<lparr>lf_file = log_file es, lf_foff = 0, lf_loff = int (line_off es (length es - 1)),
     lf_ft = fst (es ! 0), lf_lt = fst (es ! (length es - 1)), lf_size = length (log_file es),
     lf_st = 0, lf_et = 0, lf_soff = 0, lf_eoff = 0\<rparr>"

lemma log_file_last_line:
  "log_file (butlast es) = [] \<or> last (log_file (butlast es)) = NEWLINE"
proof (cases "butlast es" rule: rev_cases)
  case (snoc ys e)
  then show ?thesis by (simp add: log_file_Cons log_line_body)
qed simp

lemma last_line_length_log:
  assumes "entry_ok e" and "u = [] \<or> last u = NEWLINE"
  shows "last_line_length (u @ log_line e) = length (log_line e)"
proof -
  have "takeWhile (\<lambda>c. c \<noteq> NEWLINE) (rev (line_body e) @ rev u) = rev (line_body e)"
  proof (cases u rule: rev_cases)
    case Nil
    then show ?thesis using line_body_facts(1) [OF assms(1)] by (simp add: takeWhile_eq_all_conv) blast
  next
    case (snoc v c)
    then show ?thesis using assms(2) line_body_facts(1) [OF assms(1)] by (subst takeWhile_append2) auto
  qed
  then show ?thesis using line_body_facts(2) [OF assms(1)]
    by (simp add: last_line_length_def log_line_body butlast_append)
qed

lemma init_lfs_log:
  assumes "log_ok es"
  shows "init_lfs (log_file es) = Done (log_ctx es)"
proof -
  have n: "es \<noteq> []" using assms by (simp add: log_ok_def)
  let ?e = "last es"
  have e: "entry_ok ?e" using log_ok_entries [OF assms] n by simp
  have split: "log_file es = log_file (butlast es) @ log_line ?e"
    using arg_cong [OF append_butlast_last_id [OF n], of log_file] by (simp add: log_file_Cons)
  have short: "length (log_line ?e) \<le> 511" using line_body_facts(3) [OF e] by (simp add: log_line_body)
  define dat where "dat = (if length (log_file es) \<ge> DATA_SIZE then drop (length (log_file es) - DATA_SIZE) (log_file es)
    else log_file es)"
  obtain u where u: "dat = u @ log_line ?e" "u = [] \<or> last u = NEWLINE"
  proof (cases "length (log_file es) \<ge> DATA_SIZE")
    case True
    let ?k = "length (log_file es) - DATA_SIZE"
    have k: "?k \<le> length (log_file (butlast es))" using short split by (simp add: DATA_SIZE_def)
    have "dat = drop ?k (log_file (butlast es)) @ log_line ?e"
      using True k by (simp only: dat_def if_True) (simp add: split)
    moreover have "drop ?k (log_file (butlast es)) = [] \<or> last (drop ?k (log_file (butlast es))) = NEWLINE"
      using log_file_last_line [of es] by (cases "?k < length (log_file (butlast es))") (auto simp: last_drop)
    ultimately show ?thesis using that by blast
  next
    case False
    then show ?thesis using that split log_file_last_line [of es] by (simp add: dat_def)
  qed
  have ll: "last_line_length dat = length (log_line ?e)" unfolding u(1) by (rule last_line_length_log [OF e u(2)])
  have lt: "scan_lx (drop (length dat - last_line_length dat) dat) = Some (fst ?e)"
    unfolding ll using scan_lx_body [OF e, of "[NEWLINE]"] by (simp add: u(1) log_line_body)
  obtain e0 r where er: "es = e0 # r" using n by (cases es) auto
  have e0: "entry_ok e0" using log_ok_entries [OF assms] er by simp
  have t: "take DATA_SIZE (log_file es) = line_body e0 @ NEWLINE # take (DATA_SIZE - Suc (length (line_body e0))) (log_file r)"
    using line_body_facts(3) [OF e0] by (simp add: er log_file_Cons log_line_body DATA_SIZE_def take_Cons')
  obtain c b where cb: "line_body e0 = c # b" using line_body_facts(2) [OF e0] by (cases "line_body e0") auto
  have tw: "takeWhile (\<lambda>c. c \<noteq> NEWLINE) (b @ NEWLINE # s) = b" for s
    using line_body_facts(1) [OF e0] cb by (subst takeWhile_append2) auto
  have ft: "scan_lx (first_line (take DATA_SIZE (log_file es))) = Some (fst e0)"
    using scan_lx_body [OF e0, of "[NEWLINE]"] by (simp add: t first_line_def cb tw)
  have nc: "\<not> (length dat < last_line_length dat \<or>
      DATA_SIZE \<le> 1 + length (takeWhile (\<lambda>c. c \<noteq> NEWLINE) (tl (take DATA_SIZE (log_file es)))))"
    unfolding t using ll u(1) line_body_facts(3) [OF e0] by (simp add: cb tw) (simp add: DATA_SIZE_def)
  have lo: "int (length (log_file es)) - int (last_line_length dat) = int (line_off es (length es - 1))"
    unfolding ll using arg_cong [OF split, of length] by (simp add: line_off_def butlast_conv_take)
  show ?thesis
    unfolding init_lfs_def dat_def [symmetric] Let_def if_not_P [OF nc] lt ft option.case lo log_ctx_def
    using n by (simp add: er last_conv_nth nth_Cons')
qed

section \<open>The range of a filter\<close>

lemma log_times:
  assumes "log_ok es" and "i < j" and "j < length es"
  shows "fst (es ! i) < fst (es ! j)"
  using assms sorted_wrt_nth_less [of "(<)" "map fst es" i j] by (simp add: log_ok_def)

lemma log_times_le:
  assumes "log_ok es" and "i \<le> j" and "j < length es"
  shows "fst (es ! i) \<le> fst (es ! j)"
  using assms log_times [of es i j] by (cases "i = j") auto

lemma earlier_first: "t \<le> fst (es ! 0) \<Longrightarrow> es \<noteq> [] \<Longrightarrow> earlier es t = 0"
  by (rule earlier_eqI) auto



definition range_end :: "(nat \<times> string) list \<Rightarrow> nat \<Rightarrow> int" where
  "range_end es et =
     (if fst (es ! (length es - 1)) < et then 0xFFFFFFFE
      else if et < fst (es ! 0) then (if et = 0 \<and> fst (es ! 0) = 1 then 0 else -1)
      else if earlier es et = length es - 1 then int (length (log_file es))
      else int (line_off es (earlier es (et + 1))))"

lemma filter1_log:
  assumes ok: "log_ok es" and fuel: "length es \<le> fuel" and et: "et < 2 ^ 64 - 1"
  shows "filter1 fuel (log_ctx es) st et = Done ((log_ctx es)\<lparr>lf_st := int st, lf_et := int et,
     lf_soff := (if st \<le> fst (es ! (length es - 1)) then int (line_off es (earlier es st)) else 0xFFFFFFFE),
     lf_eoff := range_end es et\<rparr>)"
proof -
  let ?near = "getNearSeq (log_file es)" and ?n = "length es" and ?ft = "fst (es ! 0)" and ?lt = "fst (es ! (length es - 1))"
  let ?loff = "line_off es (?n - 1)"
  have n: "es \<noteq> []" "?n - 1 < ?n" using ok by (simp_all add: log_ok_def)
  have fl: "?ft \<le> ?lt" using log_times_le [OF ok, of 0 "?n - 1"] n(2) by simp
  have S: "(if st < ?ft then Done (int 0) else obind (getSeqPosition fuel ?near st ?ft ?lt 0 ?loff) (\<lambda>(_, p). Done p))
      = Done (if st \<le> ?lt then int (line_off es (earlier es st)) else 0xFFFFFFFE)"
  proof (cases "st < ?ft")
    case True
    then show ?thesis using earlier_first [of st es] n(1) fl by simp
  next
    case False
    then show ?thesis using log_search [OF ok, of st fuel] fuel
      by (cases "st \<le> ?lt") (simp_all add: getSeqPosition_def)
  qed
  have E: "obind (if et > ?lt then Done (et, int (length (log_file es)))
                else if et \<ge> ?lt then Done (?lt, int ?loff)
                else obind (getSeqPosition fuel ?near et ?ft ?lt 0 ?loff) (\<lambda>(met, p).
                       Done (case met of None \<Rightarrow> 0 | Some m \<Rightarrow> m, p))) (\<lambda>(met, eoff).
         obind (if met = ?lt then Done (int (length (log_file es)))
                else if met = et then
                  obind (getSeqPosition fuel ?near ((et + 1) mod 2 ^ 64) ?ft ?lt 0 ?loff) (\<lambda>(_, p). Done p)
                else Done eoff) f) = f (range_end es et)" for f :: "int \<Rightarrow> lfs_ctx outcome"
  proof -
    have w: "(et + 1) mod 2 ^ 64 = et + 1" using et by simp
    consider "?lt < et" | "et < ?ft" "et \<le> ?lt" | "et = ?lt" | "?ft \<le> et" "et < ?lt" by linarith
    then show ?thesis
    proof cases
      case 1
      then show ?thesis unfolding w using fl by (simp add: range_end_def getSeqPosition_def)
    next
      case 2
      then have "et < ?lt" using fl by linarith
      with 2 show ?thesis unfolding w by (auto simp: range_end_def getSeqPosition_def)
    next
      case 3
      have "earlier es et = ?n - 1" using n(2) log_times [OF ok, of _ "?n - 1"] 3 by (intro earlier_eqI) auto
      with 3 fl show ?thesis by (simp add: range_end_def)
    next
      case 4
      let ?k = "earlier es et"
      have k: "getSeqPosition fuel ?near et ?ft ?lt 0 ?loff = Done (Some (fst (es ! ?k)), int (line_off es ?k))"
          "?k < ?n" "et \<le> fst (es ! ?k)"
        using log_search [OF ok, of et fuel] 4 fuel by simp_all
      have last: "fst (es ! ?k) = ?lt \<longleftrightarrow> ?k = ?n - 1"
        using log_times [OF ok, of ?k "?n - 1"] k(2) n(2) by (cases "?k < ?n - 1") auto
      have nx: "getSeqPosition fuel ?near (et + 1) ?ft ?lt 0 ?loff =
          Done (Some (fst (es ! earlier es (et + 1))), int (line_off es (earlier es (et + 1))))"
        using log_search [OF ok, of "et + 1" fuel] 4 fuel by simp
      have same: "earlier es (et + 1) = ?k" if "fst (es ! ?k) \<noteq> et"
        using k(2,3) that earlier_less [of _ es et] by (intro earlier_eqI) (auto simp: less_Suc_eq)
      show ?thesis unfolding w using 4 k(1) last nx same by (auto simp: range_end_def)
    qed
  qed
  have c: "lf_file (log_ctx es) = log_file es" "lf_foff (log_ctx es) = 0" "nat (lf_loff (log_ctx es)) = ?loff"
    "lf_ft (log_ctx es) = ?ft" "lf_lt (log_ctx es) = ?lt" "lf_size (log_ctx es) = length (log_file es)"
    by (simp_all add: log_ctx_def)
  show ?thesis unfolding filter1_def Let_def c S obind.simps E ..
qed

section \<open>What is read back\<close>

text \<open>The text for one entry.\<close>

definition shown :: "string option \<Rightarrow> int \<Rightarrow> string \<Rightarrow> nat \<times> string \<Rightarrow> string" where
  "shown flt t_offset sep e =
     (if case flt of None \<Rightarrow> True | Some f \<Rightarrow> contains (snd e @ [NEWLINE]) f
      then percent_lu (nat ((int (fst e) + t_offset) mod 2 ^ 64)) @ sep @ snd e @ [NEWLINE] else [])"

lemma outfilter_log_line:
  assumes "entry_ok e" and "CHR 0x00 \<notin> set (snd e)"
  shows "outfilter True dbg flt t_offset sep (log_line e) = Done (shown flt t_offset sep e)"
proof -
  have l: "length (log_line e) = length (snd e) + 10" by (simp add: log_line_body line_body_def del: hex_fixed.simps)
  have d: "drop 9 (log_line e) = snd e @ [NEWLINE]" by (simp add: log_line_body line_body_def del: hex_fixed.simps)
  have c: "cstr (snd e @ [NEWLINE]) = snd e @ [NEWLINE]"
    using assms(2) unfolding cstr_def by (intro takeWhile_eq_all_conv [THEN iffD2]) (auto simp: NEWLINE_def)
  have t: "scan_lx (log_line e) = Some (fst e)" using scan_lx_body [OF assms(1), of "[NEWLINE]"] by (simp add: log_line_body)
  show ?thesis
    unfolding outfilter_def d c t shown_def using l by (cases flt) simp_all
qed


lemma earlier_mono: "s \<le> t \<Longrightarrow> earlier es s \<le> earlier es t"
proof (induction es)
  case (Cons e es)
  then show ?case by (auto simp: earlier_def)
qed (simp add: earlier_def)

text \<open>Opening a log and copying a range, as a main program does.\<close>

definition read_range ::
    "nat \<Rightarrow> string \<Rightarrow> nat \<Rightarrow> nat \<Rightarrow> string option \<Rightarrow> int \<Rightarrow> string \<Rightarrow> string outcome" where
  "read_range fuel file st et flt t_offset sep =
     obind (init_lfs file) (\<lambda>c. obind (filter1 fuel c st et) (\<lambda>c'. filter2 True 0 c' flt t_offset sep))"

lemma read_range_log:
  assumes "log_ok es" and "length es \<le> fuel" and "et < 2 ^ 64 - 1"
  shows "read_range fuel (log_file es) st et flt t_offset sep =
     (let off = if st \<le> fst (es ! (length es - 1)) then line_off es (earlier es st) else 0xFFFFFFFE
      in filter2_loop (outfilter True 0 flt t_offset sep) (log_file es) (range_end es et) (int off) off [])"
  using init_lfs_log [OF assms(1)] filter1_log [OF assms, of st]
  by (simp add: read_range_def filter2_def log_ctx_def Let_def)

text \<open>A range that starts on a sector boundary and ends behind a segment of lines.\<close>

lemma read_range_segment:
  assumes ok: "log_ok es" "\<forall>e \<in> set es. CHR 0x00 \<notin> set (snd e)" and fuel: "length es \<le> fuel"
    and et: "et < 2 ^ 64 - 1" and size: "length (log_file es) < BULK_BUF_SIZE"
    and al: "512 dvd line_off es (earlier es st)" and st: "st \<le> fst (es ! (length es - 1))"
    and ij: "earlier es st \<le> j" "j \<le> length es"
    and eoff: "range_end es et = int (line_off es j) \<or> j = length es \<and> int (length (log_file es)) \<le> range_end es et"
  shows "read_range fuel (log_file es) st et flt t_offset sep =
         Done (concat (map (shown flt t_offset sep) (drop (earlier es st) (take j es))))"
proof -
  have "\<forall>e \<in> set es. entry_ok e \<and> outfilter True 0 flt t_offset sep (log_line e) = Done (shown flt t_offset sep e)"
    using log_ok_entries [OF ok(1)] ok(2) outfilter_log_line by blast
  then show ?thesis unfolding read_range_log [OF ok(1) fuel et] Let_def if_P [OF st]
    by (rule filter2_loop_log [OF _ ij al size eoff])
qed








lemma decimal_digits_numeral:
  "decimal_digits (numeral k) n =
     (if n < 10 then [''0123456789'' ! n] else decimal_digits (pred_numeral k) (n div 10) @ [''0123456789'' ! (n mod 10)])"
  by (simp add: numeral_eq_Suc)

lemma demo_log_size: "length (log_file demo_log) = 55" "length (log_file demo_log) < BULK_BUF_SIZE" "length demo_log \<le> 4"
proof -
  show l: "length (log_file demo_log) = 55" by code_simp
  then show "length (log_file demo_log) < BULK_BUF_SIZE" by (simp add: BULK_BUF_SIZE_def)
  show "length demo_log \<le> 4" by (simp add: demo_log_def)
qed

section \<open>Properties\<close>



text \<open>In a log of at most 512 bytes a search that starts behind the first line and ends with a line
  of the file finds nothing: \<open>filter2\<close> shortens the amount to read by the distance to the next multiple of
  512, which is more than there is to read.\<close>

lemma small_log_inner_range_is_empty:
  assumes "log_ok es" and "length (log_file es) \<le> 512" and "length es \<le> fuel"
    and "fst (es ! 0) < st" and "st \<le> fst (last es)" and "et \<le> fst (last es)"
  shows "read_range fuel (log_file es) st et flt t_offset sep = Done []"
proof -
  have n: "es \<noteq> []" using assms(1) by (simp add: log_ok_def)
  have lst: "last es = es ! (length es - 1)" using n by (rule last_conv_nth)
  have et: "et < 2 ^ 64 - 1" using assms(6) log_ok_entries [OF assms(1)] last_in_set [OF n] by (auto simp: entry_ok_def dest: bspec)
  let ?k = "earlier es st"
  have k: "?k < length es" using log_search [OF assms(1), of st "length es"] assms(4,5) lst by simp
  have "?k \<noteq> 0" using k n assms(4) by (cases es) (auto simp: earlier_def)
  then have "line_off es (Suc 0) \<le> line_off es ?k" by (intro line_off_mono) simp
  moreover have "line_off es (Suc 0) = length (log_line (es ! 0))" using line_off_Suc [of 0 es] n by simp
  moreover have "line_off es ?k + length (log_line (es ! ?k)) \<le> length (log_file es)"
    using line_off_Suc [OF k] line_off_le [of es "Suc ?k"] by simp
  moreover have "0 < length (log_line (es ! 0))" "0 < length (log_line (es ! ?k))" by (simp_all add: log_line_body)
  ultimately have off: "0 < line_off es ?k" "line_off es ?k < length (log_file es)"
    by linarith+
  have fin: "range_end es et \<le> 512"
    using assms(2,6) lst line_off_le [of es "earlier es (et + 1)"] by (auto simp: range_end_def)
  have m: "int (line_off es ?k) mod 512 = int (line_off es ?k)" using off assms(2) by simp
  show ?thesis
    using fin off m assms(5) lst
    by (simp add: read_range_log [OF assms(1,3) et] Let_def) (subst filter2_loop.simps, simp add: Let_def)
qed

lemma small_log_inner_range_is_empty_witness:
  "read_range 4 (log_file demo_log) 20 30 None 0 '' '' = Done []"
proof -
  have ok: "log_ok demo_log" by (simp add: log_ok_def demo_log_def NEWLINE_def)
  show ?thesis
    by (intro small_log_inner_range_is_empty [OF ok]) (use demo_log_size in \<open>simp_all add: demo_log_def\<close>)
qed

text \<open>C25. When the last line is the first one that is not earlier than the end time, \<open>filter1\<close> takes the end of
  the file for the end of the range: the last line is shown although it is later.\<close>

theorem range_end_shows_later_last_line:
  assumes "log_ok es" and "\<forall>e \<in> set es. CHR 0x00 \<notin> set (snd e)" and "length es \<le> fuel"
    and "length (log_file es) < BULK_BUF_SIZE" and "et < fst (last es)" and "fst (es ! 0) \<le> et"
    and "\<forall>e \<in> set (butlast es). fst e < et" and "st \<le> fst (es ! 0)"
  shows "read_range fuel (log_file es) st et flt t_offset sep = Done (concat (map (shown flt t_offset sep) es))"
proof -
  have n: "es \<noteq> []" using assms(1) by (simp add: log_ok_def)
  have lst: "last es = es ! (length es - 1)" using n by (rule last_conv_nth)
  have et: "et < 2 ^ 64 - 1" using assms(5) log_ok_entries [OF assms(1)] last_in_set [OF n] by (auto simp: entry_ok_def dest: bspec)
  have k: "earlier es st = 0" using assms(8) n by (rule earlier_first)
  have "fst (es ! j) < et" if "j < length es - 1" for j
    using assms(7) that by (metis length_butlast nth_butlast nth_mem)
  then have "earlier es et = length es - 1" using assms(5) lst n by (intro earlier_eqI) auto
  then have re: "range_end es et = int (line_off es (length es))"
    using assms(5,6) lst by (simp add: range_end_def line_off_length)
  have st: "st \<le> fst (es ! (length es - 1))" using assms(5,6,8) lst by simp
  show ?thesis
    using read_range_segment [OF assms(1-3) et assms(4) _ st, of "length es"] k re by simp
qed

theorem range_end_shows_later_last_line_witness:
  "read_range 4 (log_file demo_log) 0 40 None 0 '' '' = Done ''16 one\<newline>20 two\<newline>30 three\<newline>48 four\<newline>''"
proof -
  have ok: "log_ok demo_log" by (simp add: log_ok_def demo_log_def NEWLINE_def)
  have c: "\<forall>e \<in> set demo_log. CHR 0x00 \<notin> set (snd e)" by (simp add: demo_log_def)
  have v: "concat (map (shown None 0 '' '') demo_log) = ''16 one\<newline>20 two\<newline>30 three\<newline>48 four\<newline>''"
    by (simp add: shown_def demo_log_def percent_lu_def decimal_digits_numeral NEWLINE_def)
  show ?thesis
    unfolding v [symmetric]
    by (intro range_end_shows_later_last_line [OF ok c demo_log_size(3,2)]) (simp_all add: demo_log_def)
qed

end
