(* ===== verification/Os_Internal.thy ===== *)
theory Os_Internal
  imports Memory
begin

text \<open>
  The functions of eloop/os_internal.c that replace the C library: copying between overlapping
  areas, filling and comparing memory, C strings, absolute paths. Memory is a block of bytes;
  a string argument is the bytes from its pointer to the end of the block, and a read behind them
  is \<open>Crash\<close>. Characters are signed, as on the target.
\<close>

section \<open>Copying\<close>

text \<open>\<open>while (n--) *d++ = *s++\<close> within one block.\<close>

fun os_memcpy :: "nat \<Rightarrow> nat \<Rightarrow> nat \<Rightarrow> u8 list \<Rightarrow> u8 list outcome" where
  "os_memcpy d s 0 m = Done m"
| "os_memcpy d s (Suc n) m =
     (if d < length m \<and> s < length m then os_memcpy (d + 1) (s + 1) n (m[d := m ! s]) else Crash)"

text \<open>\<open>while (n--) *--d = *--s\<close>; the two pointers start behind the areas.\<close>

fun memcpy_down :: "nat \<Rightarrow> nat \<Rightarrow> nat \<Rightarrow> u8 list \<Rightarrow> u8 list outcome" where
  "memcpy_down d s 0 m = Done m"
| "memcpy_down d s (Suc n) m =
     (if d - 1 < length m \<and> s - 1 < length m then memcpy_down (d - 1) (s - 1) n (m[d - 1 := m ! (s - 1)]) else Crash)"

definition os_memmove :: "nat \<Rightarrow> nat \<Rightarrow> nat \<Rightarrow> u8 list \<Rightarrow> u8 list outcome" where
  "os_memmove dest src n m =
     (if dest < src then os_memcpy dest src n m else memcpy_down (dest + n) (src + n) n m)"

text \<open>\<open>char *p = s; while (n--) *p++ = c\<close>.\<close>

fun os_memset :: "nat \<Rightarrow> int \<Rightarrow> nat \<Rightarrow> u8 list \<Rightarrow> u8 list outcome" where
  "os_memset p c 0 m = Done m"
| "os_memset p c (Suc n) m = (if p < length m then os_memset (p + 1) c n (m[p := word_of_int c]) else Crash)"

text \<open>\<open>os_zalloc\<close> of a block \<open>malloc\<close> gave; \<open>None\<close> is the null pointer.\<close>

definition os_zalloc :: "u8 list option \<Rightarrow> u8 list option outcome" where
  "os_zalloc blk =
     (case blk of None \<Rightarrow> Done None | Some m \<Rightarrow> obind (os_memset 0 0 (length m) m) (\<lambda>m'. Done (Some m')))"

section \<open>Comparing\<close>

fun os_memcmp_loop :: "u8 list \<Rightarrow> u8 list \<Rightarrow> nat \<Rightarrow> int outcome" where
  "os_memcmp_loop (a # as) (b # bs) n =
     (if a = b then (if n - 1 = 0 then Done 0 else os_memcmp_loop as bs (n - 1)) else Done (uint a - uint b))"
| "os_memcmp_loop _ _ n = Crash"

definition os_memcmp :: "u8 list \<Rightarrow> u8 list \<Rightarrow> nat \<Rightarrow> int outcome" where
  "os_memcmp s1 s2 n = (if n = 0 then Done 0 else os_memcmp_loop s1 s2 n)"

fun os_strcmp :: "u8 list \<Rightarrow> u8 list \<Rightarrow> int outcome" where
  "os_strcmp (a # as) (b # bs) =
     (if a = b \<and> a \<noteq> 0 then os_strcmp as bs else Done (sint a - sint b))"
| "os_strcmp _ _ = Crash"

fun os_strncmp_loop :: "u8 list \<Rightarrow> u8 list \<Rightarrow> nat \<Rightarrow> int outcome" where
  "os_strncmp_loop (a # as) (b # bs) n =
     (if a = b then
        (if a = 0 then Done (sint a - sint b)
         else if n - 1 = 0 then Done 0 else os_strncmp_loop as bs (n - 1))
      else Done (sint a - sint b))"
| "os_strncmp_loop _ _ n = Crash"

definition os_strncmp :: "u8 list \<Rightarrow> u8 list \<Rightarrow> nat \<Rightarrow> int outcome" where
  "os_strncmp s1 s2 n = (if n = 0 then Done 0 else os_strncmp_loop s1 s2 n)"

definition os_strcasecmp :: "u8 list \<Rightarrow> u8 list \<Rightarrow> int outcome" where
  "os_strcasecmp = os_strcmp"

definition os_strncasecmp :: "u8 list \<Rightarrow> u8 list \<Rightarrow> nat \<Rightarrow> int outcome" where
  "os_strncasecmp = os_strncmp"

section \<open>Strings\<close>

fun os_strlen :: "u8 list \<Rightarrow> nat outcome" where
  "os_strlen [] = Crash"
| "os_strlen (c # cs) = (if c = 0 then Done 0 else obind (os_strlen cs) (\<lambda>n. Done (n + 1)))"

text \<open>The offset of the character found; \<open>None\<close> is the null pointer.\<close>

fun os_strchr :: "u8 list \<Rightarrow> int \<Rightarrow> nat option outcome" where
  "os_strchr [] c = Crash"
| "os_strchr (x # xs) c =
     (if x = 0 then Done None
      else if sint x = c then Done (Some 0)
      else obind (os_strchr xs c) (\<lambda>r. Done (map_option Suc r)))"

text \<open>The second loop of \<open>os_strrchr\<close>, from offset \<open>n - 1\<close> down.\<close>

fun strrchr_down :: "u8 list \<Rightarrow> int \<Rightarrow> nat \<Rightarrow> nat option" where
  "strrchr_down s c 0 = None"
| "strrchr_down s c (Suc n) = (if sint (s ! n) = c then Some n else strrchr_down s c n)"

definition os_strrchr :: "u8 list \<Rightarrow> int \<Rightarrow> nat option outcome" where
  "os_strrchr s c = obind (os_strlen s) (\<lambda>n. Done (strrchr_down s c n))"

text \<open>\<open>os_strncpy\<close> into the block behind \<open>dest\<close>: nothing is written behind the terminator.\<close>

fun os_strncpy :: "u8 list \<Rightarrow> u8 list \<Rightarrow> nat \<Rightarrow> u8 list outcome" where
  "os_strncpy dest src 0 = Done dest"
| "os_strncpy (d # dest) (c # src) (Suc n) =
     (if c = 0 then Done (c # dest) else obind (os_strncpy dest src n) (\<lambda>r. Done (c # r)))"
| "os_strncpy _ _ (Suc n) = Crash"

fun strstr_loop :: "u8 list \<Rightarrow> u8 list \<Rightarrow> nat \<Rightarrow> nat option outcome" where
  "strstr_loop [] needle len = Crash"
| "strstr_loop (h # haystack) needle len =
     (if h = 0 then Done None
      else
        obind (os_strncmp (h # haystack) needle len) (\<lambda>r.
          if r = 0 then Done (Some 0)
          else obind (strstr_loop haystack needle len) (\<lambda>k. Done (map_option Suc k))))"

definition os_strstr :: "u8 list \<Rightarrow> u8 list \<Rightarrow> nat option outcome" where
  "os_strstr haystack needle = obind (os_strlen needle) (\<lambda>len. strstr_loop haystack needle len)"

text \<open>\<open>os_strdup\<close>: \<open>mem_ok\<close> is whether the block could be allocated; the copy is the block's content.\<close>

definition os_strdup :: "bool \<Rightarrow> u8 list option \<Rightarrow> u8 list option outcome" where
  "os_strdup mem_ok s =
     (case s of
        None \<Rightarrow> Done None
      | Some cs \<Rightarrow>
          obind (os_strlen cs) (\<lambda>len. if mem_ok then obind (mread 0 (len + 1) cs) (\<lambda>r. Done (Some r)) else Done None))"

section \<open>Time and paths\<close>

text \<open>\<open>os_mktime\<close>: \<open>mktime\<close> gets year, month, day, hour, minute and second of \<open>struct tm\<close>.\<close>

definition os_mktime :: "(int \<Rightarrow> int \<Rightarrow> int \<Rightarrow> int \<Rightarrow> int \<Rightarrow> int \<Rightarrow> int) \<Rightarrow> int \<Rightarrow> int \<Rightarrow> int \<Rightarrow> int \<Rightarrow> int \<Rightarrow> int \<Rightarrow> int option" where
  "os_mktime mktime year month day hour minute sec =
     (if year < 1970 \<or> month < 1 \<or> month > 12 \<or> day < 1 \<or> day > 31 \<or> hour < 0 \<or> hour > 23 \<or>
         minute < 0 \<or> minute > 59 \<or> sec < 0 \<or> sec > 60
      then None else Some (mktime (year - 1900) (month - 1) day hour minute sec))"

text \<open>The loop that doubles the buffer until \<open>getcwd\<close> fits; \<open>mem_ok\<close> says which sizes can be allocated.\<close>

function cwd_loop :: "(nat \<Rightarrow> bool) \<Rightarrow> string \<Rightarrow> nat \<Rightarrow> string option" where
  "cwd_loop mem_ok cwd len =
     (if \<not> mem_ok len then None
      else if length cwd < len then Some cwd
      else if len = 0 then None
      else cwd_loop mem_ok cwd (len * 2))"
  by auto
termination by (relation "measure (\<lambda>(_, cwd, len). Suc (length cwd) - len)") auto

declare cwd_loop.simps [simp del]

definition os_rel2abs_path :: "(nat \<Rightarrow> bool) \<Rightarrow> string \<Rightarrow> string \<Rightarrow> string option" where
  "os_rel2abs_path mem_ok cwd rel_path =
     (if rel_path \<noteq> [] \<and> hd rel_path = CHR ''/'' then (if mem_ok (length rel_path + 1) then Some rel_path else None)
      else
        (case cwd_loop mem_ok cwd 128 of
           None \<Rightarrow> None
         | Some c \<Rightarrow> if mem_ok (length c + 1 + length rel_path + 1) then Some (c @ ''/'' @ rel_path) else None))"

section \<open>Overlapping areas\<close>

lemma os_memcpy_forward:
  "d < s \<Longrightarrow> s + n \<le> length m \<Longrightarrow>
   \<exists>m'. os_memcpy d s n m = Done m' \<and> length m' = length m \<and>
     (\<forall>i < length m. m' ! i = (if d \<le> i \<and> i < d + n then m ! (s + (i - d)) else m ! i))"
proof (induction n arbitrary: d s m)
  case (Suc n)
  let ?m1 = "m[d := m ! s]"
  from Suc.prems obtain m' where m': "os_memcpy (d + 1) (s + 1) n ?m1 = Done m'" "length m' = length m"
      "\<forall>i < length m. m' ! i = (if d + 1 \<le> i \<and> i < d + 1 + n then ?m1 ! (s + 1 + (i - (d + 1))) else ?m1 ! i)"
    using Suc.IH [of "d + 1" "s + 1" ?m1] by auto
  have "m' ! i = (if d \<le> i \<and> i < d + Suc n then m ! (s + (i - d)) else m ! i)" if i: "i < length m" for i
    using m'(3) i Suc.prems by (cases "i = d") (auto simp: nth_list_update Suc_diff_Suc)
  with m'(1,2) Suc.prems show ?case by simp
qed auto

lemma memcpy_down_backward:
  "s \<le> d \<Longrightarrow> d + n \<le> length m \<Longrightarrow>
   \<exists>m'. memcpy_down (d + n) (s + n) n m = Done m' \<and> length m' = length m \<and>
     (\<forall>i < length m. m' ! i = (if d \<le> i \<and> i < d + n then m ! (s + (i - d)) else m ! i))"
proof (induction n arbitrary: m)
  case (Suc n)
  let ?m1 = "m[d + n := m ! (s + n)]"
  from Suc.prems have step: "memcpy_down (d + Suc n) (s + Suc n) (Suc n) m = memcpy_down (d + n) (s + n) n ?m1" by simp
  from Suc.prems obtain m' where m': "memcpy_down (d + n) (s + n) n ?m1 = Done m'" "length m' = length m"
      "\<forall>i < length m. m' ! i = (if d \<le> i \<and> i < d + n then ?m1 ! (s + (i - d)) else ?m1 ! i)"
    using Suc.IH [of ?m1] by auto
  have "m' ! i = (if d \<le> i \<and> i < d + Suc n then m ! (s + (i - d)) else m ! i)" if i: "i < length m" for i
    using m'(3) i Suc.prems by (cases "i = d + n") (auto simp: nth_list_update)
  with m'(1,2) show ?case unfolding step by blast
qed auto

section \<open>Searching\<close>

lemma os_strlen_string: "0 \<notin> set s \<Longrightarrow> os_strlen (s @ 0 # r) = Done (length s)"
  by (induction s) auto

lemma sint_diff_0: "sint (a :: u8) - sint b = 0 \<longleftrightarrow> a = b"
  by (auto intro: signed_word_eqI)

lemma os_strncmp_prefix:
  "0 \<notin> set s \<Longrightarrow> 0 \<notin> set nd \<Longrightarrow> nd \<noteq> [] \<Longrightarrow>
   \<exists>v. os_strncmp_loop (s @ 0 # r) (nd @ 0 # r') (length nd) = Done v \<and> (v = 0 \<longleftrightarrow> take (length nd) s = nd)"
proof (induction nd arbitrary: s)
  case (Cons b nd)
  show ?case
  proof (cases s)
    case Nil
    then show ?thesis using Cons.prems sint_diff_0 [of 0 b] by auto
  next
    case (Cons a s')
    show ?thesis
    proof (cases "a = b \<and> nd \<noteq> []")
      case True
      then show ?thesis using Cons.IH [of s'] Cons.prems \<open>s = a # s'\<close> by auto
    next
      case False
      then show ?thesis using Cons.prems \<open>s = a # s'\<close> sint_diff_0 [of a b] by auto
    qed
  qed
qed simp

lemma strstr_loop_finds:
  assumes "0 \<notin> set nd"
  shows "0 \<notin> set hs \<Longrightarrow> strstr_loop (hs @ 0 # r) (nd @ 0 # r') (length nd) =
           Done (find (\<lambda>k. take (length nd) (drop k hs) = nd) [0..<length hs])"
proof (induction hs)
  case (Cons h hs)
  have fs: "find P [0..<Suc (length hs)] = (if P 0 then Some 0 else map_option Suc (find (\<lambda>k. P (Suc k)) [0..<length hs]))" for P
  proof -
    have "[0..<Suc (length hs)] = 0 # map Suc [0..<length hs]" by (simp add: upt_conv_Cons map_Suc_upt del: upt_Suc)
    moreover have "find P (map Suc xs) = map_option Suc (find (\<lambda>k. P (Suc k)) xs)" for xs by (induction xs) auto
    ultimately show ?thesis by simp
  qed
  obtain v where v: "os_strncmp (h # hs @ 0 # r) (nd @ 0 # r') (length nd) = Done v" "v = 0 \<longleftrightarrow> take (length nd) (h # hs) = nd"
  proof (cases "nd = []")
    case True
    then show ?thesis using that [of 0] by (simp add: os_strncmp_def)
  next
    case False
    from os_strncmp_prefix [OF Cons.prems assms False, of r r'] False that show ?thesis by (auto simp: os_strncmp_def)
  qed
  show ?case using v Cons by (simp add: fs del: upt_Suc)
qed simp

section \<open>Properties\<close>

text \<open>C21. Moving a block: whatever the two areas share, the bytes that were in the source are then in
  the destination and the rest of the memory is as it was.\<close>

theorem os_memmove_moves:
  assumes "src + n \<le> length m" and "dest + n \<le> length m"
  shows "os_memmove dest src n m = obind (mread src n m) (\<lambda>bs. mwrite dest bs m)"
proof -
  have "\<exists>m'. os_memmove dest src n m = Done m' \<and> length m' = length m \<and>
     (\<forall>i < length m. m' ! i = (if dest \<le> i \<and> i < dest + n then m ! (src + (i - dest)) else m ! i))"
  proof (cases "dest < src")
    case True
    with os_memcpy_forward [OF True assms(1)] show ?thesis by (simp add: os_memmove_def)
  next
    case False
    with memcpy_down_backward [of src dest n m] assms show ?thesis by (simp add: os_memmove_def)
  qed
  then obtain m' where m': "os_memmove dest src n m = Done m'" "length m' = length m"
     "\<forall>i < length m. m' ! i = (if dest \<le> i \<and> i < dest + n then m ! (src + (i - dest)) else m ! i)" by blast
  obtain bs where bs: "mread src n m = Done bs" "length bs = n" "\<forall>i < n. bs ! i = m ! (src + i)"
    using assms(1) by (auto simp: mread_nth mread_def)
  obtain m2 where m2: "mwrite dest bs m = Done m2" "length m2 = length m"
    by (rule mwrite_total [of dest bs m]) (use assms(2) bs(2) in simp_all)
  have "m' = m2"
    using m'(2,3) m2 bs(2,3) by (intro nth_equalityI) (auto simp: mwrite_nth [OF m2(1)])
  with m'(1) bs(1) m2(1) show ?thesis by simp
qed

theorem os_memmove_moves_witness:
  "os_memmove 1 0 3 [1, 2, 3, 4] = Done [1, 1, 2, 3] \<and> os_memmove 0 1 3 [1, 2, 3, 4] = Done [2, 3, 4, 4]"
  using os_memmove_moves [of 0 3 "[1, 2, 3, 4]" 1] os_memmove_moves [of 1 3 "[1, 2, 3, 4]" 0]
  by (simp add: mread_def mwrite_def eval_nat_numeral)

text \<open>\<open>os_strstr\<close> gives the first place where the needle stands in the haystack, looking only at
  places that hold a character: in an empty haystack not even the empty needle is found.\<close>

lemma os_strstr_finds_first:
  assumes "0 \<notin> set hs" and "0 \<notin> set nd"
  shows "os_strstr (hs @ 0 # r) (nd @ 0 # r') =
           Done (find (\<lambda>k. take (length nd) (drop k hs) = nd) [0..<length hs])"
  using strstr_loop_finds [OF assms(2,1)] os_strlen_string [OF assms(2)] by (simp add: os_strstr_def)

lemma os_strstr_finds_first_witness:
  "os_strstr ([1, 2, 1, 2, 3] @ [0]) ([2, 3] @ [0]) = Done (Some 3)"
proof -
  have "os_strstr ([1, 2, 1, 2, 3] @ [0]) ([2, 3] @ [0]) =
      Done (find (\<lambda>k. take (length [2, 3 :: u8]) (drop k [1, 2, 1, 2, 3 :: u8]) = [2, 3]) [0..<length [1, 2, 1, 2, 3 :: u8]])"
    by (rule os_strstr_finds_first) simp_all
  also have "\<dots> = Done (Some 3)" by code_simp
  finally show ?thesis .
qed

end
