(* ===== verification/Uart.thy ===== *)
theory Uart
  imports Prelude
begin

text \<open>
  The serial receiver of etc/unix_UART.c: \<open>OnSerialReceive\<close> reads what has arrived and puts lines together
  in the static buffer \<open>m_sdRes\<close>; each line goes to \<open>OnSerialMessage\<close>. The opening of the device and
  the diagnostics are left out.
\<close>

section \<open>The receiver\<close>

record uart =
  ur_res :: string
  ur_idx :: nat
  ur_numErr :: nat

text \<open>The static buffer has 512 characters and starts zeroed.\<close>

definition uart_init :: uart where
  "uart_init = \<lparr>ur_res = replicate 512 (CHR 0x00), ur_idx = 0, ur_numErr = 0\<rparr>"

definition uart_set :: "nat \<Rightarrow> char \<Rightarrow> uart \<Rightarrow> uart outcome" where
  "uart_set i c s = (if i < length (ur_res s) then Done (s\<lparr>ur_res := (ur_res s)[i := c]\<rparr>) else Crash)"

text \<open>\<open>strcpy\<close> into \<open>sdRes\<close>, which has 512 characters.\<close>

definition copy_res :: "string \<Rightarrow> string outcome" where
  "copy_res res =
     (let l = takeWhile (\<lambda>c. c \<noteq> CHR 0x00) res in if length l < length res \<and> length l < 512 then Done l else Crash)"

text \<open>The body of the loop for one character: the state and the messages passed on.\<close>

definition uart_char :: "char \<Rightarrow> uart \<Rightarrow> (uart \<times> string list) outcome" where
  "uart_char c s =
     (if ur_idx s < 250 \<and> c \<noteq> CHR 0x00 then
        obind (uart_set (ur_idx s) c s) (\<lambda>s1.
        let s2 = s1\<lparr>ur_idx := ur_idx s1 + 1\<rparr> in
        obind (uart_set (ur_idx s2) (CHR 0x00) s2) (\<lambda>s3.
          if c = CHR 0x0A then
            obind (copy_res (ur_res s3)) (\<lambda>sdRes.
            obind (uart_set 0 (CHR 0x00) s3) (\<lambda>s4. Done (s4\<lparr>ur_idx := 0\<rparr>, [sdRes])))
          else Done (s3, [])))
      else Done (s, []))"

fun uart_chars :: "string \<Rightarrow> uart \<Rightarrow> (uart \<times> string list) outcome" where
  "uart_chars [] s = Done (s, [])"
| "uart_chars (c # cs) s =
     obind (uart_char c s) (\<lambda>(s1, ms). obind (uart_chars cs s1) (\<lambda>(s2, ms'). Done (s2, ms @ ms')))"

text \<open>
  \<open>OnSerialReceive\<close>: the number of bytes that \<open>FIONREAD\<close> reports and the answer of \<open>read\<close> are inputs; \<open>None\<close> is an
  error of \<open>read\<close>. It gives the value returned, the state and the messages.
\<close>

definition OnSerialReceive ::
    "int \<Rightarrow> (nat \<Rightarrow> string option) \<Rightarrow> uart \<Rightarrow> (bool \<times> uart \<times> string list) outcome" where
  "OnSerialReceive fionread read s =
     (if fionread \<le> 0 then Done (True, s, [])
      else
        (let bytes = (if fionread > 250 then 250 else fionread)
         in case read (nat bytes) of
              None \<Rightarrow> Done (False, s\<lparr>ur_numErr := ur_numErr s + 1\<rparr>, [])
            | Some str \<Rightarrow> obind (uart_chars str s) (\<lambda>(s', ms). Done (True, s', ms))))"

text \<open>A history of calls, and what each of them reads.\<close>

type_synonym serial_input = "int \<times> (nat \<Rightarrow> string option)"

fun uart_run :: "serial_input list \<Rightarrow> uart \<Rightarrow> (uart \<times> string list) outcome" where
  "uart_run [] s = Done (s, [])"
| "uart_run ((n, rd) # ins) s =
     obind (OnSerialReceive n rd s) (\<lambda>(_, s1, ms). obind (uart_run ins s1) (\<lambda>(s2, ms'). Done (s2, ms @ ms')))"

definition received :: "serial_input \<Rightarrow> string" where
  "received = (\<lambda>(n, rd). if n \<le> 0 then [] else case rd (nat (if n > 250 then 250 else n)) of None \<Rightarrow> [] | Some str \<Rightarrow> str)"

section \<open>The receiver as a splitter of a stream\<close>

text \<open>The specification: the line collected so far and one later character.\<close>

definition split_char :: "char \<Rightarrow> string \<Rightarrow> string \<times> string list" where
  "split_char c l =
     (if length l < 250 \<and> c \<noteq> CHR 0x00 then if c = CHR 0x0A then ([], [l @ [c]]) else (l @ [c], []) else (l, []))"

fun split_stream :: "string \<Rightarrow> string \<Rightarrow> string \<times> string list" where
  "split_stream [] l = (l, [])"
| "split_stream (c # cs) l =
     (let (l1, ms) = split_char c l; (l2, ms') = split_stream cs l1 in (l2, ms @ ms'))"

text \<open>The buffer holds the line and a terminating zero.\<close>

definition uart_inv :: "uart \<Rightarrow> bool" where
  "uart_inv s \<longleftrightarrow> length (ur_res s) = 512 \<and> ur_idx s \<le> 250 \<and> ur_res s ! ur_idx s = CHR 0x00 \<and>
     CHR 0x00 \<notin> set (take (ur_idx s) (ur_res s))"

definition line_of :: "uart \<Rightarrow> string" where
  "line_of s = take (ur_idx s) (ur_res s)"

lemma uart_inv_init: "uart_inv uart_init"
  by (simp add: uart_inv_def uart_init_def del: replicate_Suc)

lemma line_of_init: "line_of uart_init = []"
  by (simp add: line_of_def uart_init_def)

lemma length_line_of: "uart_inv s \<Longrightarrow> length (line_of s) = ur_idx s"
  by (simp add: uart_inv_def line_of_def)

lemma takeWhile_upto_nth:
  assumes "k < length xs" and "xs ! k = c" and "c \<notin> set (take k xs)"
  shows "takeWhile (\<lambda>x. x \<noteq> c) xs = take k xs"
proof (rule takeWhile_eq_take_P_nth)
  show "xs ! i \<noteq> c" if "i < k" "i < length xs" for i
    using that assms(3) by (metis in_set_conv_nth length_take min_less_iff_conj nth_take)
qed (use assms(2) in simp)

lemma uart_char_split:
  assumes "uart_inv s"
  shows "\<exists>s'. uart_char c s = Done (s', snd (split_char c (line_of s))) \<and> uart_inv s' \<and>
              line_of s' = fst (split_char c (line_of s))"
proof (cases "ur_idx s < 250 \<and> c \<noteq> CHR 0x00")
  case False
  then show ?thesis using assms length_line_of [OF assms] by (auto simp: uart_char_def split_char_def)
next
  case True
  let ?i = "ur_idx s" and ?r = "(ur_res s)[ur_idx s := c, Suc (ur_idx s) := CHR 0x00]"
  have len: "length (ur_res s) = 512" "?i \<le> 250" using assms by (simp_all add: uart_inv_def)
  have tk: "take (Suc ?i) ?r = line_of s @ [c]"
    using len by (simp add: line_of_def take_Suc_conv_app_nth)
  have nz: "CHR 0x00 \<notin> set (line_of s @ [c])" using assms True by (auto simp: uart_inv_def line_of_def)
  have cp: "copy_res ?r = Done (line_of s @ [c])"
  proof -
    have "takeWhile (\<lambda>x. x \<noteq> CHR 0x00) ?r = take (Suc ?i) ?r"
      using len nz unfolding tk [symmetric] by (intro takeWhile_upto_nth) simp_all
    then show ?thesis using len by (simp add: copy_res_def tk length_line_of [OF assms] Let_def)
  qed
  have s3: "uart_set ?i c s = Done (s\<lparr>ur_res := (ur_res s)[?i := c]\<rparr>)" using len by (simp add: uart_set_def)
  show ?thesis
  proof (cases "c = CHR 0x0A")
    case nl: True
    let ?s = "s\<lparr>ur_res := ?r[0 := CHR 0x00], ur_idx := 0\<rparr>"
    have ne: "ur_res s \<noteq> []" using len(1) by auto
    have "uart_char c s = Done (?s, [line_of s @ [c]])"
      using True nl len cp ne by (simp add: uart_char_def s3 Let_def) (simp add: uart_set_def)
    moreover have "uart_inv ?s" "line_of ?s = []" using len by (simp_all add: uart_inv_def line_of_def)
    ultimately show ?thesis using True nl length_line_of [OF assms] by (simp add: split_char_def)
  next
    case False
    let ?s = "s\<lparr>ur_res := ?r, ur_idx := Suc ?i\<rparr>"
    have "uart_char c s = Done (?s, [])"
      using True False len by (simp add: uart_char_def s3 Let_def) (simp add: uart_set_def)
    moreover have "uart_inv ?s" using len True nz tk by (simp add: uart_inv_def)
    moreover have "line_of ?s = line_of s @ [c]" using tk by (simp add: line_of_def)
    ultimately show ?thesis using True False length_line_of [OF assms] by (simp add: split_char_def)
  qed
qed

lemma uart_chars_split:
  "uart_inv s \<Longrightarrow> \<exists>s'. uart_chars cs s = Done (s', snd (split_stream cs (line_of s))) \<and> uart_inv s' \<and>
     line_of s' = fst (split_stream cs (line_of s))"
proof (induction cs arbitrary: s)
  case (Cons c cs)
  obtain s1 where s1: "uart_char c s = Done (s1, snd (split_char c (line_of s)))" "uart_inv s1"
      "line_of s1 = fst (split_char c (line_of s))"
    using uart_char_split [OF Cons.prems] by blast
  obtain s2 where "uart_chars cs s1 = Done (s2, snd (split_stream cs (line_of s1)))" "uart_inv s2"
      "line_of s2 = fst (split_stream cs (line_of s1))"
    using Cons.IH [OF s1(2)] by blast
  with s1 show ?case by (simp add: case_prod_beta Let_def)
qed simp

lemma split_stream_append:
  "split_stream (xs @ ys) l =
     (let (l1, ms) = split_stream xs l; (l2, ms') = split_stream ys l1 in (l2, ms @ ms'))"
  by (induction xs arbitrary: l) (simp_all add: case_prod_beta Let_def)

lemma uart_run_split:
  "uart_inv s \<Longrightarrow> \<exists>s'. uart_run ins s = Done (s', snd (split_stream (concat (map received ins)) (line_of s))) \<and>
     uart_inv s' \<and> line_of s' = fst (split_stream (concat (map received ins)) (line_of s))"
proof (induction ins arbitrary: s)
  case (Cons i ins)
  obtain n rd where i: "i = (n, rd)" by (cases i)
  have "\<exists>b s1. OnSerialReceive n rd s = Done (b, s1, snd (split_stream (received i) (line_of s))) \<and> uart_inv s1 \<and>
      line_of s1 = fst (split_stream (received i) (line_of s))"
  proof (cases "n \<le> 0 \<or> rd (nat (if n > 250 then 250 else n)) = None")
    case True
    have "uart_inv (s\<lparr>ur_numErr := k\<rparr>) \<and> line_of (s\<lparr>ur_numErr := k\<rparr>) = line_of s" for k
      using Cons.prems by (simp add: uart_inv_def line_of_def)
    with True Cons.prems show ?thesis by (auto simp: i received_def OnSerialReceive_def Let_def)
  next
    case False
    then obtain str where str: "rd (nat (if n > 250 then 250 else n)) = Some str" by auto
    obtain s1 where "uart_chars str s = Done (s1, snd (split_stream str (line_of s)))" "uart_inv s1"
        "line_of s1 = fst (split_stream str (line_of s))" using uart_chars_split [OF Cons.prems] by blast
    with False str show ?thesis by (auto simp: i received_def OnSerialReceive_def Let_def)
  qed
  then obtain b s1 where s1: "OnSerialReceive n rd s = Done (b, s1, snd (split_stream (received i) (line_of s)))"
      "uart_inv s1" "line_of s1 = fst (split_stream (received i) (line_of s))" by blast
  obtain s2 where "uart_run ins s1 = Done (s2, snd (split_stream (concat (map received ins)) (line_of s1)))" "uart_inv s2"
      "line_of s2 = fst (split_stream (concat (map received ins)) (line_of s1))" using Cons.IH [OF s1(2)] by blast
  with s1 show ?case by (simp add: i [symmetric] split_stream_append case_prod_beta Let_def) (simp add: i)
qed simp

lemma split_stream_line:
  "CHR 0x00 \<notin> set l \<Longrightarrow> CHR 0x0A \<notin> set l \<Longrightarrow> length a + length l < 250 \<Longrightarrow>
   split_stream (l @ CHR 0x0A # rest) a =
     (let (r, ms) = split_stream rest [] in (r, (a @ l @ [CHR 0x0A]) # ms))"
  by (induction l arbitrary: a) (auto simp: split_char_def case_prod_beta Let_def)

lemma split_stream_lines:
  "\<forall>l \<in> set ls. CHR 0x00 \<notin> set l \<and> CHR 0x0A \<notin> set l \<and> length l < 250 \<Longrightarrow>
   split_stream (concat (map (\<lambda>l. l @ [CHR 0x0A]) ls)) [] = ([], map (\<lambda>l. l @ [CHR 0x0A]) ls)"
  by (induction ls) (simp_all add: split_stream_line)

lemma split_stream_full: "length l = 250 \<Longrightarrow> split_stream cs l = (l, [])"
  by (induction cs) (simp_all add: split_char_def)

lemma split_stream_collect:
  "CHR 0x00 \<notin> set cs \<Longrightarrow> CHR 0x0A \<notin> set cs \<Longrightarrow> length a + length cs \<le> 250 \<Longrightarrow>
   split_stream cs a = (a @ cs, [])"
  by (induction cs arbitrary: a) (auto simp: split_char_def)

section \<open>Properties\<close>

text \<open>C26. However the serial stream is cut into reads, the messages passed on and the line kept are those of the
  specification run over the whole stream; the static buffer is never overrun and stays terminated.\<close>

theorem uart_refines_stream_splitter:
  "\<exists>s'. uart_run ins uart_init = Done (s', snd (split_stream (concat (map received ins)) [])) \<and>
        line_of s' = fst (split_stream (concat (map received ins)) []) \<and> uart_inv s'"
  using uart_run_split [OF uart_inv_init, of ins] by (auto simp: line_of_init)

text \<open>A stream of lines below 250 characters is passed on line by line, in order and complete,
  whatever reads it comes in, and nothing is left in the buffer.\<close>

lemma uart_delivers_lines:
  assumes "\<forall>l \<in> set ls. CHR 0x00 \<notin> set l \<and> CHR 0x0A \<notin> set l \<and> length l < 250"
    and "concat (map received ins) = concat (map (\<lambda>l. l @ [CHR 0x0A]) ls)"
  shows "\<exists>s'. uart_run ins uart_init = Done (s', map (\<lambda>l. l @ [CHR 0x0A]) ls) \<and> ur_idx s' = 0"
proof -
  obtain s' where s': "uart_run ins uart_init = Done (s', snd (split_stream (concat (map received ins)) []))"
      "uart_inv s'" "line_of s' = fst (split_stream (concat (map received ins)) [])"
    using uart_run_split [OF uart_inv_init, of ins] by (auto simp: line_of_init)
  with split_stream_lines [OF assms(1)] length_line_of [OF s'(2)] show ?thesis by (simp add: assms(2))
qed

lemma uart_delivers_lines_witness:
  "\<exists>s'. uart_run [(4, \<lambda>_. Some ''ok\<newline>r''), (0, \<lambda>_. None), (7, \<lambda>_. Some ''eady\<newline>'')] uart_init =
     Done (s', [''ok\<newline>'', ''ready\<newline>'']) \<and> ur_idx s' = 0"
  using uart_delivers_lines [of "[''ok'', ''ready'']" "[(4, \<lambda>_. Some ''ok\<newline>r''), (0, \<lambda>_. None), (7, \<lambda>_. Some ''eady\<newline>'')]"]
  by (simp add: received_def)

text \<open>After 250 characters without a newline the receiver is stuck: the newline is ignored like everything
  else, the index is never reset, and no message is passed on any more.\<close>

lemma uart_long_line_blocks:
  assumes "concat (map received ins) = l" and "length l = 250" and "CHR 0x00 \<notin> set l" and "CHR 0x0A \<notin> set l"
  shows "\<exists>s'. uart_run (ins @ later) uart_init = Done (s', []) \<and> line_of s' = l"
proof -
  obtain s' where s': "uart_run (ins @ later) uart_init = Done (s', snd (split_stream (l @ concat (map received later)) []))"
      "line_of s' = fst (split_stream (l @ concat (map received later)) [])"
    using uart_run_split [OF uart_inv_init, of "ins @ later"] assms(1) by (auto simp: line_of_init)
  have "split_stream (l @ concat (map received later)) [] = (l, [])"
    using split_stream_collect [OF assms(3,4), of "[]"] assms(2)
    by (simp add: split_stream_append split_stream_full)
  with s' show ?thesis by simp
qed

lemma uart_long_line_blocks_witness:
  "\<forall>later. \<exists>s'. uart_run ([(250, \<lambda>_. Some (replicate 250 CHR ''a''))] @ later) uart_init = Done (s', []) \<and>
     line_of s' = replicate 250 CHR ''a''"
proof
  show "\<exists>s'. uart_run ([(250, \<lambda>_. Some (replicate 250 CHR ''a''))] @ later) uart_init = Done (s', []) \<and>
     line_of s' = replicate 250 CHR ''a''" for later
    by (rule uart_long_line_blocks) (simp_all add: received_def)
qed

end
