(* ===== verification/Websock.thy ===== *)
theory Websock
  imports Prelude
begin

text \<open>
  The WebSocket framing of etc/ws_encode.c, etc/ws_decode.c and etc/ws_transcode.c, which share
  \<open>encodeWebSockMsg\<close> and \<open>decodeWebSockMsg\<close>, and the loops of the first two programs. What
  websock_code.h defines is a parameter: it is not part of the repository.
\<close>

record ws_config =
  USE_WEBSOCK_LONG_DATA :: bool
  WEBSOCK_MSKLEN :: nat
  WEBSOCK_MAXLEN :: int

section \<open>Encoding a message\<close>

text \<open>The length field for more than 65535 bytes.\<close>

definition long_length :: "nat \<Rightarrow> u8 list" where
  "long_length msgLen =
     (let m = (of_nat msgLen :: 64 word)
      in [ucast (drop_bit 56 (m AND 0x7f00000000000000)), ucast (drop_bit 48 (m AND 0xff000000000000)),
          ucast (drop_bit 40 (m AND 0xff0000000000)), ucast (drop_bit 32 (m AND 0xff00000000)),
          ucast (drop_bit 24 (m AND 0xff000000)), ucast (drop_bit 16 (m AND 0xff0000)),
          ucast (drop_bit 8 (m AND 0xff00)), ucast (m AND 0xff)])"

definition length_field :: "nat \<Rightarrow> u8 \<times> u8 list" where
  "length_field msgLen =
     (if msgLen > 65535 then (127, long_length msgLen)
      else if msgLen > 125 then
        (126, [ucast (drop_bit 8 ((of_nat msgLen :: u32) AND 0xff00)), ucast ((of_nat msgLen :: u32) AND 0xff)])
      else (of_nat msgLen AND 0x7f, []))"

definition xor_key :: "nat \<Rightarrow> u8 list \<Rightarrow> u8 list \<Rightarrow> u8 list" where
  "xor_key msklen key msg = map (\<lambda>i. msg ! i XOR key ! (i mod msklen)) [0..<length msg]"

text \<open>
  \<open>encodeWebSockMsg\<close>: the value returned and the bytes written. A key shorter than \<open>WEBSOCK_MSKLEN\<close> is read
  past its end.
\<close>

definition encodeWebSockMsg :: "ws_config \<Rightarrow> u8 list \<Rightarrow> int \<Rightarrow> u8 list option \<Rightarrow> (int \<times> u8 list) outcome" where
  "encodeWebSockMsg cfg msg bFinal encKey =
     (let msgLen = length msg; n = WEBSOCK_MSKLEN cfg
      in if case encKey of None \<Rightarrow> False | Some key \<Rightarrow> length key < n then Crash
         else if USE_WEBSOCK_LONG_DATA cfg then
           (let (b1, ext) = length_field msgLen;
                b0 = (if bFinal = 0 then 0x81 else 0x80 OR (word_of_int bFinal AND 0xf));
                frame = (case encKey of
                           Some key \<Rightarrow> [b0, b1 OR 0x80] @ ext @ take n key @ xor_key n key msg
                         | None \<Rightarrow> [b0, b1] @ ext @ msg)
            in Done (int (length frame), frame))
         else if int msgLen > WEBSOCK_MAXLEN cfg then Done (0, [])
         else
           (let b0 = (if bFinal \<noteq> 0 then 0x88 else 0x81);
                frame = (case encKey of
                           Some key \<Rightarrow> [b0, (of_nat msgLen AND 0x7f) OR 0x80] @ take n key @ xor_key n key msg
                         | None \<Rightarrow> [b0, of_nat msgLen] @ msg)
            in Done (int (length frame), frame)))"

section \<open>Decoding a message\<close>

text \<open>The value returned, the bytes written to \<open>msg\<close>, and what is stored through \<open>p_bFinal\<close> and \<open>p_nCtrl\<close>.\<close>

record ws_result =
  ws_ret :: int
  ws_msg :: "u8 list"
  ws_bFinal :: "bool option"
  ws_nCtrl :: nat

text \<open>A sum of type \<open>int\<close>; overflow is undefined.\<close>

definition c_int :: "int \<Rightarrow> int outcome" where
  "c_int x = (if -(2 ^ 31) \<le> x \<and> x < 2 ^ 31 then Done x else Crash)"

text \<open>The payload length behind a first length byte of 126 or 127, and the length of that field.\<close>

definition ext_length :: "u8 list \<Rightarrow> int \<Rightarrow> bool \<Rightarrow> int \<times> nat \<times> int" where
  "ext_length w netLen msk =
     (let len7 = w ! 1 AND 0x7f
      in if len7 = 126 then
           (let need = (if msk then 8 else 4)
            in if netLen < need then (-(need - netLen), 0, 0)
               else (0, 2, uint (push_bit 8 (ucast (w ! 2) :: u32) OR ucast (w ! 3))))
         else if len7 = 127 then
           (let need = (if msk then 14 else 10)
            in if netLen < need then (-(need - netLen), 0, 0)
               else (0, 8, sint (push_bit 24 (ucast (w ! 6) :: u32) OR push_bit 16 (ucast (w ! 7)) OR
                                 push_bit 8 (ucast (w ! 8)) OR ucast (w ! 9))))
         else (0, 0, uint len7))"

definition is_websock_data :: "u8 \<Rightarrow> bool" where
  "is_websock_data b \<longleftrightarrow> b = 0x81 \<or> b = 0x88 \<or> b = 0x8a \<or> b = 0x89"

definition ws_result_of :: "u8 list \<Rightarrow> int \<Rightarrow> u8 list \<Rightarrow> bool option \<Rightarrow> ws_result" where
  "ws_result_of w ret msg bFinal =
     \<lparr>ws_ret = ret, ws_msg = msg, ws_bFinal = bFinal, ws_nCtrl = unat (w ! 0 AND 0xf)\<rparr>"

text \<open>\<open>decode_error\<close>: the buffer is copied as it is.\<close>

definition ws_error :: "u8 list \<Rightarrow> int \<Rightarrow> ws_result outcome" where
  "ws_error w ret = Done (ws_result_of w ret w None)"

definition ws_ok :: "u8 list \<Rightarrow> int \<Rightarrow> u8 list \<Rightarrow> ws_result outcome" where
  "ws_ok w payload_len msg = Done (ws_result_of w payload_len msg (Some (w ! 0 = 0x88)))"

definition decode_long_data :: "nat \<Rightarrow> u8 list \<Rightarrow> bool \<Rightarrow> ws_result outcome" where
  "decode_long_data n w mask_flag =
     (let netLen = int (length w);
          (e, ext, payload_len) = ext_length w netLen mask_flag;
          head_len = 2 + ext + (if mask_flag then n else 0)
      in if e \<noteq> 0 then ws_error w e
         else
           obind (c_int (int head_len + payload_len)) (\<lambda>expected.
             if expected \<noteq> netLen then obind (c_int (netLen - expected)) (ws_error w)
             else ws_ok w payload_len
                    (if mask_flag then xor_key n (drop (head_len - n) w) (drop head_len w) else drop head_len w)))"

text \<open>Without \<open>USE_WEBSOCK_LONG_DATA\<close> the payload of an unmasked frame is copied from the null pointer.\<close>

definition decode_short_data :: "nat \<Rightarrow> int \<Rightarrow> u8 list \<Rightarrow> bool \<Rightarrow> ws_result outcome" where
  "decode_short_data n maxlen w mask_flag =
     (let netLen = int (length w); payload_len = uint (w ! 1 AND 0x7f)
      in if payload_len > maxlen then Done (ws_result_of w 0 [] None)
         else if \<not> mask_flag then
           if payload_len + 2 = netLen then if payload_len = 0 then ws_ok w 0 [] else Crash
           else ws_error w 0
         else if payload_len + 2 + int n = netLen then
           ws_ok w payload_len (xor_key n (drop 2 w) (drop (2 + n) w))
         else ws_error w 0)"

text \<open>\<open>decodeWebSockMsg\<close> on the first \<open>netLen\<close> bytes of the buffer.\<close>

definition decodeWebSockMsg :: "ws_config \<Rightarrow> u8 list \<Rightarrow> ws_result outcome" where
  "decodeWebSockMsg cfg w =
     (let netLen = int (length w)
      in if w = [] then Crash
         else if netLen < 2 then ws_error w (-(2 - netLen))
         else if \<not> is_websock_data (w ! 0) then ws_error w (-9999)
         else if USE_WEBSOCK_LONG_DATA cfg then decode_long_data (WEBSOCK_MSKLEN cfg) w (w ! 1 AND 0x80 \<noteq> 0)
         else decode_short_data (WEBSOCK_MSKLEN cfg) (WEBSOCK_MAXLEN cfg) w (w ! 1 AND 0x80 \<noteq> 0))"

section \<open>The programs\<close>


definition strip_newline :: "u8 list \<Rightarrow> u8 list" where
  "strip_newline str = (if str \<noteq> [] \<and> last str = 0x0A then butlast str else str)"


text \<open>
  The loop of ws_decode.c over the characters of the standard input: \<open>buf\<close> is what has been collected in
  \<open>websockMsg\<close>. It returns the messages; the hexadecimal output ends with the message \<open>EXITEXIT\<close>, the
  option \<open>-f\<close> with the first message.
\<close>

definition EXITEXIT :: "u8 list" where
  "EXITEXIT = [0x45, 0x58, 0x49, 0x54, 0x45, 0x58, 0x49, 0x54]"

fun ws_decode_loop :: "ws_config \<Rightarrow> bool \<Rightarrow> bool \<Rightarrow> u8 list \<Rightarrow> u8 list \<Rightarrow> u8 list list outcome" where
  "ws_decode_loop cfg bHex bFastExit buf [] = Done []"
| "ws_decode_loop cfg bHex bFastExit buf (ch # chs) =
     (if length buf \<ge> 65536 then Crash
      else
        (let buf = buf @ [ch]
         in obind (decodeWebSockMsg cfg buf) (\<lambda>r.
              if ws_ret r < 0 then ws_decode_loop cfg bHex bFastExit buf chs
              else
                (let str = take (nat (ws_ret r)) (ws_msg r)
                 in if (bHex \<and> takeWhile (\<lambda>b. b \<noteq> 0) str = EXITEXIT) \<or> bFastExit then Done [str]
                    else obind (ws_decode_loop cfg bHex bFastExit [] chs) (\<lambda>strs. Done (str # strs))))))"

section \<open>Length fields\<close>

lemma bit_byte_of:
  fixes m :: "'a::len word"
  assumes "LENGTH('a) \<ge> k + 8"
  shows "bit (ucast (drop_bit k (m AND push_bit k (mask 8))) :: u8) i \<longleftrightarrow> i < 8 \<and> bit m (k + i)"
  using assms by (auto simp: bit_simps)

lemma byte_masks:
  "(0xff000000 :: 64 word) = push_bit 24 (mask 8)" "(0xff0000 :: 64 word) = push_bit 16 (mask 8)"
  "(0xff00 :: 64 word) = push_bit 8 (mask 8)" "(0xff :: 64 word) = mask 8"
  "(0xff00 :: u32) = push_bit 8 (mask 8)" "(0xff :: u32) = mask 8"
  by (simp_all add: mask_eq_exp_minus_1 push_bit_eq_mult)

lemma bit_byte_of_0:
  fixes m :: "'a::len word"
  assumes "LENGTH('a) \<ge> 8"
  shows "bit (ucast (m AND mask 8) :: u8) i \<longleftrightarrow> i < 8 \<and> bit m i"
  using bit_byte_of [of 0 m i] assms by simp

lemma bit_of_nat_small: "(l :: nat) < 2 ^ k \<Longrightarrow> bit l i \<Longrightarrow> i < k"
  by (metis bit_take_bit_iff take_bit_nat_eq_self)

lemma length16:
  assumes "l < 65536"
  shows "push_bit 8 (ucast (ucast (drop_bit 8 ((of_nat l :: u32) AND 0xff00)) :: u8) :: u32) OR
         ucast (ucast ((of_nat l :: u32) AND 0xff) :: u8) = of_nat l"
proof (rule bit_word_eqI)
  fix i :: nat
  assume "i < LENGTH(32)"
  then show "bit (push_bit 8 (ucast (ucast (drop_bit 8 ((of_nat l :: u32) AND 0xff00)) :: u8) :: u32) OR
         ucast (ucast ((of_nat l :: u32) AND 0xff) :: u8)) i \<longleftrightarrow> bit (of_nat l :: u32) i"
    using bit_of_nat_small [of l 16 i] assms
    by (auto simp: byte_masks bit_simps)
qed

lemma length32:
  "push_bit 24 (ucast (ucast (drop_bit 24 ((of_nat l :: 64 word) AND 0xff000000)) :: u8) :: u32) OR
   push_bit 16 (ucast (ucast (drop_bit 16 ((of_nat l :: 64 word) AND 0xff0000)) :: u8)) OR
   push_bit 8 (ucast (ucast (drop_bit 8 ((of_nat l :: 64 word) AND 0xff00)) :: u8)) OR
   ucast (ucast ((of_nat l :: 64 word) AND 0xff) :: u8) = of_nat l" (is "?w = _")
proof (rule bit_word_eqI)
  fix i :: nat
  assume "i < LENGTH(32)"
  then show "bit ?w i \<longleftrightarrow> bit (of_nat l :: u32) i"
  proof -
    have p: "bit (push_bit k (ucast b :: u32)) i \<longleftrightarrow> k \<le> i \<and> bit (b :: u8) (i - k)" for k b
      using \<open>i < LENGTH(32)\<close> by (auto simp: bit_push_bit_iff bit_ucast_iff)
    have q: "bit (ucast (b :: u8) :: u32) i \<longleftrightarrow> bit b i" for b
      using \<open>i < LENGTH(32)\<close> by (auto simp: bit_ucast_iff)
    have n: "bit (of_nat l :: 64 word) j \<longleftrightarrow> j < 64 \<and> bit l j" "bit (of_nat l :: u32) j \<longleftrightarrow> j < 32 \<and> bit l j" for j
      by (simp_all add: bit_simps)
    have b: "bit (ucast (drop_bit 24 (m AND push_bit 24 (mask 8))) :: u8) j \<longleftrightarrow> j < 8 \<and> bit m (24 + j)"
      "bit (ucast (drop_bit 16 (m AND push_bit 16 (mask 8))) :: u8) j \<longleftrightarrow> j < 8 \<and> bit m (16 + j)"
      "bit (ucast (drop_bit 8 (m AND push_bit 8 (mask 8))) :: u8) j \<longleftrightarrow> j < 8 \<and> bit m (8 + j)" for m :: "64 word" and j
      by (rule bit_byte_of, simp)+
    have l8: "LENGTH(64) \<ge> 8" by simp
    have i: "i < 8 \<or> i = 8 + (i - 8) \<and> i < 16 \<or> i = 16 + (i - 16) \<and> i < 24 \<or> i = 24 + (i - 24) \<and> i < 32"
      using \<open>i < LENGTH(32)\<close> by auto
    show ?thesis
      unfolding byte_masks bit_or_iff p q b bit_byte_of_0 [OF l8] n using i by (elim disjE) auto
  qed
qed

lemma length7:
  assumes "l < 126"
  shows "((of_nat l AND 0x7f) OR 0x80) AND 0x7f = (of_nat l :: u8)" and "(of_nat l AND 0x7f) AND 0x7f = (of_nat l :: u8)"
    and "((of_nat l AND 0x7f :: u8) OR 0x80) AND 0x80 \<noteq> 0" and "(of_nat l AND 0x7f :: u8) AND 0x80 = 0"
proof -
  have "\<forall>l \<in> set [0..<126]. ((of_nat l AND 0x7f) OR 0x80) AND 0x7f = (of_nat l :: u8) \<and> (of_nat l AND 0x7f) AND 0x7f = (of_nat l :: u8) \<and>
     ((of_nat l AND 0x7f :: u8) OR 0x80) AND 0x80 \<noteq> 0 \<and> (of_nat l AND 0x7f :: u8) AND 0x80 = 0"
    by code_simp
  moreover have "l \<in> set [0..<126]" using assms by simp
  ultimately show "((of_nat l AND 0x7f) OR 0x80) AND 0x7f = (of_nat l :: u8)" "(of_nat l AND 0x7f) AND 0x7f = (of_nat l :: u8)"
    "((of_nat l AND 0x7f :: u8) OR 0x80) AND 0x80 \<noteq> 0" "(of_nat l AND 0x7f :: u8) AND 0x80 = 0" by blast+
qed


lemma ext_length_encoded:
  assumes "length_field l = (b1, ext)" and "l < 2 ^ 31" and "frame = [b0, if mf then b1 OR 0x80 else b1] @ ext @ rest"
    and "2 \<le> k" and "k \<le> length frame"
  shows "ext_length (take k frame) (int k) mf =
     (let need = 2 + length ext + (if mf then 4 else 0)
      in if ext \<noteq> [] \<and> k < need then (int k - int need, 0, 0) else (0, length ext, int l))"
proof -
  have b1: "take k frame ! 1 = (if mf then b1 OR 0x80 else b1)" using assms(3,4) by simp
  have nth: "take k frame ! i = (ext @ rest) ! (i - 2)" if "i < k" "2 \<le> i" for i
    using that assms(3) by (cases i; cases "i - 1") auto
  consider "l \<le> 125" | "125 < l" "l \<le> 65535" | "65535 < l" by linarith
  then show ?thesis
  proof cases
    case 1
    then have e: "b1 = of_nat l AND 0x7f" "ext = []" using assms(1) by (simp_all add: length_field_def)
    have l7: "(if mf then b1 OR 0x80 else b1) AND 0x7f = of_nat l" unfolding e using length7(1,2) [of l] 1 by simp
    have "uint (of_nat l :: u8) = int l" using 1 by (simp add: uint_nat unat_of_nat)
    moreover from this 1 have "(of_nat l :: u8) \<noteq> 126" "(of_nat l :: u8) \<noteq> 127" by auto
    ultimately show ?thesis using e(2) unfolding ext_length_def b1 l7 by (simp add: Let_def)
  next
    case 2
    then have e: "b1 = 126" "ext = [ucast (drop_bit 8 ((of_nat l :: u32) AND 0xff00)), ucast ((of_nat l :: u32) AND 0xff)]"
      using assms(1) by (simp_all add: length_field_def)
    have l7: "(if mf then b1 OR 0x80 else b1) AND 0x7f = 126" by (simp add: e(1))
    have "uint (of_nat l :: u32) = int l" using 2 by (simp add: uint_nat unat_of_nat)
    moreover have "push_bit 8 (ucast (take k frame ! 2)) OR ucast (take k frame ! 3) = (of_nat l :: u32)"
      if "\<not> k < 2 + length ext"
      using that length16 [of l] 2 nth [of 2] nth [of 3] by (simp add: e(2))
    ultimately show ?thesis unfolding ext_length_def b1 l7 by (auto simp: Let_def e(2))
  next
    case 3
    then have e: "b1 = 127" "ext = long_length l" using assms(1) by (simp_all add: length_field_def)
    have len: "length ext = 8" by (simp add: e(2) long_length_def Let_def)
    have l7: "(if mf then b1 OR 0x80 else b1) AND 0x7f = 127" by (simp add: e(1))
    have "sint (of_nat l :: u32) = int l" using assms(2) by (simp add: signed_of_nat signed_take_bit_int_eq_self)
    moreover have "push_bit 24 (ucast (take k frame ! 6)) OR push_bit 16 (ucast (take k frame ! 7)) OR
        push_bit 8 (ucast (take k frame ! 8)) OR ucast (take k frame ! 9) = (of_nat l :: u32)"
      if "\<not> k < 10"
      using that length32 [of l] nth [of 6] nth [of 7] nth [of 8] nth [of 9]
      by (simp add: e(2) long_length_def Let_def)
    ultimately show ?thesis using len unfolding ext_length_def b1 l7 by (auto simp: Let_def)
  qed
qed

text \<open>The key of a masked frame is found in front of the payload, and applied twice it cancels out.\<close>

lemma length_xor_key [simp]: "length (xor_key n key msg) = length msg"
  by (simp add: xor_key_def)

lemma xor_key_twice: "xor_key n key (xor_key n key msg) = msg"
  by (rule nth_equalityI) (simp_all add: xor_key_def xor.assoc)

lemma xor_key_take: "0 < n \<Longrightarrow> n \<le> length key \<Longrightarrow> xor_key n (take n key @ xs) msg = xor_key n key msg"
  by (simp add: xor_key_def nth_append)

lemma mask_bit:
  assumes "length_field l = (b1, ext)"
  shows "(b1 OR 0x80) AND 0x80 \<noteq> 0" and "b1 AND 0x80 = 0"
proof -
  consider "l < 126" | "125 < l" by linarith
  then have "(b1 OR 0x80) AND 0x80 \<noteq> 0 \<and> b1 AND 0x80 = 0"
  proof cases
    case 1
    then have "b1 = of_nat l AND 0x7f" using assms by (simp add: length_field_def)
    then show ?thesis using length7(3,4) [OF 1] by blast
  next
    case 2
    then have "b1 = 126 \<or> b1 = 127" using assms by (auto simp: length_field_def split: if_splits)
    then show ?thesis by auto
  qed
  then show "(b1 OR 0x80) AND 0x80 \<noteq> 0" "b1 AND 0x80 = 0" by simp_all
qed

lemma decode_long_data_eq:
  assumes "ext_length w (int (length w)) mf = (e, x, p)"
  shows "decode_long_data n w mf =
     (let head_len = 2 + x + (if mf then n else 0)
      in if e \<noteq> 0 then ws_error w e
         else obind (c_int (int head_len + p)) (\<lambda>expected.
                if expected \<noteq> int (length w) then obind (c_int (int (length w) - expected)) (ws_error w)
                else ws_ok w p (if mf then xor_key n (drop (head_len - n) w) (drop head_len w) else drop head_len w)))"
  unfolding decode_long_data_def Let_def assms by simp

text \<open>A prefix of a frame of the long format decodes to an error, the whole frame to the message.\<close>

lemma decode_encoded_prefix:
  assumes cfg: "USE_WEBSOCK_LONG_DATA cfg" "WEBSOCK_MSKLEN cfg = 4" and key: "case encKey of None \<Rightarrow> True | Some key \<Rightarrow> 4 \<le> length key"
    and b0: "is_websock_data b0" and lf: "length_field (length msg) = (b1, ext)"
    and frame: "frame = (case encKey of Some key \<Rightarrow> [b0, b1 OR 0x80] @ ext @ take 4 key @ xor_key 4 key msg
                         | None \<Rightarrow> [b0, b1] @ ext @ msg)"
    and small: "length frame < 2 ^ 31" and k: "0 < k" "k \<le> length frame"
  shows "\<exists>r. decodeWebSockMsg cfg (take k frame) = Done r \<and>
           (k < length frame \<longrightarrow> ws_ret r < 0) \<and>
           (k = length frame \<longrightarrow> ws_ret r = int (length msg) \<and> ws_msg r = msg \<and> ws_bFinal r = Some (b0 = 0x88))"
proof (cases "k = 1")
  case True
  have "take 1 frame = [b0]" by (cases encKey) (simp_all add: frame)
  moreover have "1 < length frame" by (cases encKey) (simp_all add: frame)
  ultimately show ?thesis using True by (simp add: decodeWebSockMsg_def ws_error_def ws_result_of_def)
next
  case False
  then have k2: "2 \<le> k" using k(1) by simp
  define mf where "mf = (encKey \<noteq> None)"
  define rest where "rest = (case encKey of Some key \<Rightarrow> take 4 key @ xor_key 4 key msg | None \<Rightarrow> msg)"
  have fr: "frame = [b0, if mf then b1 OR 0x80 else b1] @ ext @ rest" by (cases encKey) (simp_all add: frame mf_def rest_def)
  have lr: "length rest = (if mf then 4 else 0) + length msg" using key by (cases encKey) (simp_all add: mf_def rest_def)
  let ?h = "2 + length ext + (if mf then 4 else 0)" and ?w = "take k frame"
  have total: "length frame = ?h + length msg" using fr lr by simp
  then have lm: "length msg < 2 ^ 31" using small by simp
  have w: "?w \<noteq> []" "length ?w = k" "?w ! 0 = b0" "?w ! 1 = (if mf then b1 OR 0x80 else b1)" using k k2 fr by auto
  have msk: "(?w ! 1 AND 0x80 \<noteq> 0) = mf" unfolding w(4) using mask_bit [OF lf] by simp
  have dec: "decodeWebSockMsg cfg ?w = decode_long_data 4 ?w mf"
    unfolding decodeWebSockMsg_def Let_def w(2,3) msk using w(1) k2 b0 cfg by simp
  note el = ext_length_encoded [OF lf lm fr k2 k(2)]
  have c: "c_int (int ?h + int (length msg)) = Done (int (length frame))" using total small by (simp add: c_int_def)
  have c': "c_int (int k - int (length frame)) = Done (int k - int (length frame))" using k small by (simp add: c_int_def)
  show ?thesis
  proof (cases "ext \<noteq> [] \<and> k < ?h")
    case True
    have "ext_length ?w (int (length ?w)) mf = (int k - int ?h, 0, 0)"
      unfolding w(2) el Let_def if_P [OF True] ..
    from decode_long_data_eq [OF this, of 4] True have "decodeWebSockMsg cfg ?w = ws_error ?w (int k - int ?h)"
      unfolding dec by auto
    with True total show ?thesis by (simp add: ws_error_def ws_result_of_def)
  next
    case False
    have "ext_length ?w (int (length ?w)) mf = (0, length ext, int (length msg))"
      unfolding w(2) el Let_def if_not_P [OF False] ..
    note D = decode_long_data_eq [OF this, of 4, folded dec, unfolded Let_def w(2) c obind.simps]
    show ?thesis
    proof (cases "k = length frame")
      case True
      have dr: "drop ?h frame = (case encKey of Some key \<Rightarrow> xor_key 4 key msg | None \<Rightarrow> msg)"
      proof (cases encKey)
        case None
        then show ?thesis by (simp add: fr mf_def rest_def)
      next
        case (Some ky)
        let ?p = "[b0, b1 OR 0x80] @ ext @ take 4 ky"
        have "frame = ?p @ xor_key 4 ky msg" "length ?p = ?h" using key by (simp_all add: Some fr mf_def rest_def)
        then have "drop ?h frame = xor_key 4 ky msg" by (metis append_eq_conv_conj)
        with Some show ?thesis by simp
      qed
      have dk: "drop (?h - 4) frame = rest" if mf using that by (simp add: fr)
      have tk: "?w = frame" using True by simp
      have m0: "(if mf then xor_key 4 (drop (?h - 4) frame) (drop ?h frame) else drop ?h frame) = msg"
      proof (cases encKey)
        case (Some ky)
        then have "mf" by (simp add: mf_def)
        then show ?thesis using key unfolding dk [OF \<open>mf\<close>] dr by (simp add: Some rest_def xor_key_take xor_key_twice)
      next
        case None
        then have "\<not> mf" by (simp add: mf_def)
        with dr None show ?thesis by simp
      qed
      have m: "(if mf then xor_key 4 (drop (?h - 4) ?w) (drop ?h ?w) else drop ?h ?w) = msg"
        unfolding tk by (rule m0)
      have "decodeWebSockMsg cfg ?w = ws_ok ?w (int (length msg)) msg"
        unfolding D m using True by simp
      with True w(3) show ?thesis by (simp add: ws_ok_def ws_result_of_def)
    next
      case ne: False
      have "decodeWebSockMsg cfg ?w = ws_error ?w (int k - int (length frame))"
        unfolding D using ne c' by simp
      with ne k show ?thesis by (simp add: ws_error_def ws_result_of_def)
    qed
  qed
qed

lemma encode_long:
  assumes "USE_WEBSOCK_LONG_DATA cfg" and "WEBSOCK_MSKLEN cfg = 4"
    and "case encKey of None \<Rightarrow> True | Some key \<Rightarrow> 4 \<le> length key" and "length_field (length msg) = (b1, ext)"
  shows "encodeWebSockMsg cfg msg bFinal encKey =
     (let b0 = (if bFinal = 0 then 0x81 else 0x80 OR (word_of_int bFinal AND 0xf));
          frame = (case encKey of Some key \<Rightarrow> [b0, b1 OR 0x80] @ ext @ take 4 key @ xor_key 4 key msg
                   | None \<Rightarrow> [b0, b1] @ ext @ msg)
      in Done (int (length frame), frame))"
  using assms(3) by (simp add: encodeWebSockMsg_def assms(1,2,4) Let_def split: option.splits)

text \<open>The kinds of message that the decoder accepts.\<close>

definition decodable :: "int \<Rightarrow> bool" where
  "decodable bFinal \<longleftrightarrow> bFinal = 0 \<or> bFinal mod 16 \<in> {1, 8, 9, 10}"

lemma first_byte_data:
  assumes "decodable bFinal"
  shows "is_websock_data (if bFinal = 0 then 0x81 else 0x80 OR (word_of_int bFinal AND 0xf))"
proof (cases "bFinal = 0")
  case False
  have "(word_of_int bFinal AND 0xf :: u8) = word_of_int (bFinal mod 16)"
  proof -
    have "(0xf :: u8) = mask 4" by (simp add: mask_eq_exp_minus_1)
    then have "word_of_int bFinal AND 0xf = take_bit 4 (word_of_int bFinal :: u8)" by (simp add: take_bit_eq_mask)
    also have "\<dots> = word_of_int (take_bit 4 bFinal)" by (rule bit_word_eqI) (auto simp: bit_simps)
    finally show ?thesis by (simp add: take_bit_eq_mod)
  qed
  moreover have "bFinal mod 16 \<in> {1, 8, 9, 10}" using assms False by (simp add: decodable_def)
  ultimately show ?thesis using False by (auto simp: is_websock_data_def)
qed (simp add: is_websock_data_def)




lemma strip_newline_line [simp]: "strip_newline (l @ [0x0A]) = l"
  by (simp add: strip_newline_def)


text \<open>A buffer that starts with another byte is only extended.\<close>

lemma ws_garbage:
  "buf \<noteq> [] \<Longrightarrow> \<not> is_websock_data (buf ! 0) \<Longrightarrow> length buf \<le> 65536 \<Longrightarrow> 65536 < length buf + length chs \<Longrightarrow>
   ws_decode_loop cfg bHex bFastExit buf chs = Crash"
proof (induction chs arbitrary: buf)
  case (Cons ch chs)
  show ?case
  proof (cases "65536 \<le> length buf")
    case False
    let ?b = "buf @ [ch]"
    have "2 \<le> length ?b" using Cons.prems(1) by (cases buf) auto
    moreover have "\<not> is_websock_data (?b ! 0)" using Cons.prems(1,2) by (simp add: nth_append)
    ultimately have d: "decodeWebSockMsg cfg ?b = Done (ws_result_of ?b (-9999) ?b None)"
      using Cons.prems(1) by (simp add: decodeWebSockMsg_def ws_error_def)
    have "ws_decode_loop cfg bHex bFastExit ?b chs = Crash"
      using Cons.prems False by (intro Cons.IH) (simp_all add: nth_append)
    with False d show ?thesis by (simp add: Let_def ws_result_of_def)
  qed simp
qed simp

lemma ws_short_pair:
  assumes "\<not> USE_WEBSOCK_LONG_DATA cfg" and "is_websock_data a"
  shows "ws_decode_loop cfg False False [] (a # b # rest) =
         obind (ws_decode_loop cfg False False [] rest) (\<lambda>strs. Done ([] # strs))"
  using assms
  by (simp add: Let_def decodeWebSockMsg_def decode_short_data_def ws_error_def ws_ok_def ws_result_of_def xor_key_def)

section \<open>Properties\<close>

text \<open>In the configuration with long messages a frame decodes to the message it was made from, for every
  length below 2 ^ 31, with or without a key; every shorter nonempty prefix of it is answered with a
  negative value.\<close>

lemma websocket_frame_roundtrip:
  assumes "USE_WEBSOCK_LONG_DATA cfg" and "WEBSOCK_MSKLEN cfg = 4"
    and "case encKey of None \<Rightarrow> True | Some key \<Rightarrow> 4 \<le> length key" and "decodable bFinal"
    and "encodeWebSockMsg cfg msg bFinal encKey = Done (n, frame)" and "n < 2 ^ 31" and "0 < k" and "k \<le> length frame"
  shows "\<exists>r. decodeWebSockMsg cfg (take k frame) = Done r \<and> n = int (length frame) \<and>
           (k < length frame \<longrightarrow> ws_ret r < 0) \<and>
           (k = length frame \<longrightarrow> ws_ret r = int (length msg) \<and> ws_msg r = msg)"
proof -
  obtain b1 ext where lf: "length_field (length msg) = (b1, ext)" by fastforce
  let ?b0 = "if bFinal = 0 then 0x81 else 0x80 OR (word_of_int bFinal AND 0xf)"
  have fr: "frame = (case encKey of Some key \<Rightarrow> [?b0, b1 OR 0x80] @ ext @ take 4 key @ xor_key 4 key msg
                   | None \<Rightarrow> [?b0, b1] @ ext @ msg)" "n = int (length frame)"
    using assms(5) unfolding encode_long [OF assms(1-3) lf] Let_def by auto
  have "length frame < 2 ^ 31" using assms(6) fr(2) by simp
  from decode_encoded_prefix [OF assms(1-3) first_byte_data [OF assms(4)] lf fr(1) this assms(7,8)] fr(2)
  show ?thesis by blast
qed

lemma websocket_frame_roundtrip_witness:
  "\<exists>r. decodeWebSockMsg \<lparr>USE_WEBSOCK_LONG_DATA = True, WEBSOCK_MSKLEN = 4, WEBSOCK_MAXLEN = 125\<rparr>
         (take 8 [0x89, 0x82, 1, 2, 3, 4, 0x49, 0x6b]) = Done r \<and> ws_msg r = [0x48, 0x69]"
proof -
  let ?cfg = "\<lparr>USE_WEBSOCK_LONG_DATA = True, WEBSOCK_MSKLEN = 4, WEBSOCK_MAXLEN = 125\<rparr>"
  have e: "encodeWebSockMsg ?cfg [0x48, 0x69] 9 (Some [1, 2, 3, 4]) = Done (8, [0x89, 0x82, 1, 2, 3, 4, 0x49, 0x6b])"
    by (simp add: encodeWebSockMsg_def length_field_def xor_key_def upt_rec)
  obtain r where "decodeWebSockMsg ?cfg (take 8 [0x89, 0x82, 1, 2, 3, 4, 0x49, 0x6b]) = Done r"
      "8 = length [0x89, 0x82, 1, 2, 3, 4, 0x49, 0x6b :: u8] \<longrightarrow> ws_msg r = [0x48, 0x69]"
    using websocket_frame_roundtrip [OF _ _ _ _ e, of 8] by (auto simp: decodable_def)
  then show ?thesis by auto
qed



text \<open>Input that does not start with a known first byte is never dropped: ws_decode.c collects it until it
  writes behind its buffer of 65536 bytes.\<close>

lemma websocket_garbage_overruns_buffer:
  assumes "\<not> is_websock_data ch" and "65536 \<le> length chs"
  shows "ws_decode_loop cfg bHex bFastExit [] (ch # chs) = Crash"
proof -
  have "ws_decode_loop cfg bHex bFastExit [] (ch # chs) = ws_decode_loop cfg bHex bFastExit [ch] chs"
    by (simp add: Let_def decodeWebSockMsg_def ws_error_def ws_result_of_def)
  with ws_garbage [of "[ch]" chs] assms show ?thesis by simp
qed

lemma websocket_garbage_overruns_buffer_witness:
  "ws_decode_loop \<lparr>USE_WEBSOCK_LONG_DATA = True, WEBSOCK_MSKLEN = 4, WEBSOCK_MAXLEN = 125\<rparr> False False []
     (0 # replicate 65536 0) = Crash"
  by (rule websocket_garbage_overruns_buffer) (simp_all add: is_websock_data_def del: replicate_Suc)

end
