(* ===== verification/Jss.thy ===== *)
theory Jss
  imports Lfs_Search
begin

text \<open>
  The JSON string filters etc/jss_encode.c and etc/jss_decode.c: programs that copy their standard input
  to their standard output and add or remove the escapes.
\<close>

section \<open>Encoding\<close>






section \<open>Decoding\<close>









section \<open>Properties\<close>











end
