(* ===== verification/Task.thy ===== *)
theory Task
  imports Eloop_Run
begin

text \<open>
  The fibers of eloop/context.c (\<open>USE_LIBTASK_LITE\<close>): task contexts with stacks of their own that run until
  they hand control back to the default context, on which the event loop runs. A task is resumed
  by the handler that the event loop calls for its sockets and timeouts.
\<close>

section \<open>Making a task\<close>

definition DEFAULT_TASK_STACK_SIZE :: int where "DEFAULT_TASK_STACK_SIZE = 16384"

text \<open>
  The stack that \<open>make_task\<close> hands to \<open>makecontext\<close>, for a block at \<open>addr\<close>: start and size. The size is a
  \<open>size_t\<close>.
\<close>

definition task_stack :: "int \<Rightarrow> int \<Rightarrow> int \<Rightarrow> int \<times> int" where
  "task_stack addr ctxSize stkSize =
     (let sp = addr + ctxSize + 4 * 8;
          (sp1, stk1) = (if sp mod 8 \<noteq> 0 then (sp + 8 - sp mod 8, stkSize - (8 - sp mod 8)) else (sp, stkSize));
          stk2 = (if stk1 mod 8 \<noteq> 0 then stk1 - (8 - stk1 mod 8) else stk1)
      in (sp1, (stk2 - 64) mod 2 ^ 64))"

text \<open>The sizes after the defaults for 0; \<open>base_size\<close> is the size of \<open>baseTaskCtx\<close>.\<close>

definition task_sizes :: "int \<Rightarrow> bool \<Rightarrow> int \<Rightarrow> int \<Rightarrow> int \<times> int" where
  "task_sizes base_size has_routine ctxSize stkSize =
     (if ctxSize = 0 then base_size else ctxSize,
      if has_routine \<and> stkSize = 0 then DEFAULT_TASK_STACK_SIZE else stkSize)"

section \<open>Contexts\<close>

text \<open>
  What a task does next, seen from its routine: calls of the task library and of the event loop. The
  addresses and clocks are the results of the library functions the calls use.
\<close>

datatype task_op =
    Sleep ptr "nat \<Rightarrow> os_time" "nat \<Rightarrow> os_time" u32 u32 ptr ptr  \<comment> \<open>block, clocks, secs, usecs, callback, callback_ctx\<close>
  | Callback ptr ptr                                      \<comment> \<open>callback_on_defaultloop\<close>
  | Sched                                                 \<comment> \<open>sched_defaultloop\<close>
  | Exit ptr ptr                                          \<comment> \<open>exit_task\<close>
  | Start ptr                                             \<comment> \<open>start_task of another context\<close>
  | Api api_call
  | is_Return: Return                                     \<comment> \<open>the routine returns\<close>

text \<open>
  A context; the saved registers are the position in the routine and the call the task is
  suspended in.
\<close>

record task_ctx =
  tk_bCompleted :: bool
  tk_bIsTimeout :: int
  tk_callback :: ptr
  tk_callback_ctx :: ptr
  tk_pc :: nat
  tk_suspended :: "task_op option"

datatype task_event = Resumed ptr int | CalledBack ptr ptr ptr | Destroyed ptr

record tsys =
  ts_default :: ptr
  ts_cur :: ptr
  ts_onexit :: ptr
  ts_ctx :: "ptr \<Rightarrow> task_ctx option"
  ts_loop :: sys
  ts_log :: "task_event list"

definition new_ctx :: task_ctx where
  "new_ctx = \<lparr>tk_bCompleted = False, tk_bIsTimeout = 0, tk_callback = NULL, tk_callback_ctx = NULL, tk_pc = 0,
     tk_suspended = None\<rparr>"

text \<open>An access to a context: one that was freed is a \<open>Crash\<close>.\<close>

definition with_ctx :: "ptr \<Rightarrow> tsys \<Rightarrow> (task_ctx \<Rightarrow> 'a outcome) \<Rightarrow> 'a outcome" where
  "with_ctx ctx s f = (case ts_ctx s ctx of None \<Rightarrow> Crash | Some t \<Rightarrow> f t)"

definition put_ctx :: "ptr \<Rightarrow> task_ctx \<Rightarrow> tsys \<Rightarrow> tsys" where
  "put_ctx ctx t s = s\<lparr>ts_ctx := (ts_ctx s)(ctx := Some t)\<rparr>"

definition log_task :: "task_event \<Rightarrow> tsys \<Rightarrow> tsys" where
  "log_task e s = s\<lparr>ts_log := ts_log s @ [e]\<rparr>"

text \<open>\<open>make_task\<close>; \<open>p\<close> is the block \<open>malloc\<close> returns, which \<open>memset\<close> clears without a test.\<close>

definition make_task :: "ptr \<Rightarrow> tsys \<Rightarrow> (ptr \<times> tsys) outcome" where
  "make_task p s = (if p = NULL then Crash else Done (p, put_ctx p new_ctx s))"

definition destroy_task :: "ptr \<Rightarrow> tsys \<Rightarrow> tsys outcome" where
  "destroy_task ctx s =
     (if ctx = NULL then Done s
      else with_ctx ctx s (\<lambda>_. Done (log_task (Destroyed ctx) (s\<lparr>ts_ctx := (ts_ctx s)(ctx := None)\<rparr>))))"

definition make_default_task :: "ptr \<Rightarrow> tsys \<Rightarrow> tsys outcome" where
  "make_default_task p s =
     (if ts_default s = NULL then obind (make_task p s) (\<lambda>(q, s'). Done (s'\<lparr>ts_default := q\<rparr>)) else Done s)"

definition destroy_default_task :: "tsys \<Rightarrow> tsys outcome" where
  "destroy_default_task s =
     (if ts_default s \<noteq> NULL then obind (destroy_task (ts_default s) s) (\<lambda>s'. Done (s'\<lparr>ts_default := NULL\<rparr>)) else Done s)"

definition defaultloop_task_init :: "ptr \<Rightarrow> ptr \<Rightarrow> tsys \<Rightarrow> tsys outcome" where
  "defaultloop_task_init p onexit s =
     obind (make_default_task p s) (\<lambda>s1.
       Done (s1\<lparr>ts_onexit := onexit, ts_cur := (if ts_cur s1 = NULL then ts_default s1 else ts_cur s1)\<rparr>))"

definition defaultloop_task_final :: "tsys \<Rightarrow> tsys outcome" where
  "defaultloop_task_final s =
     obind (destroy_default_task s) (\<lambda>s1. Done (s1\<lparr>ts_onexit := NULL, ts_cur := NULL\<rparr>))"

section \<open>On the context of a task\<close>

type_synonym routine = "ptr \<Rightarrow> nat \<Rightarrow> tsys \<Rightarrow> task_op"

text \<open>\<open>callback_on_defaultloop\<close> up to the switch.\<close>

definition set_callback :: "ptr \<Rightarrow> ptr \<Rightarrow> ptr \<Rightarrow> task_ctx \<Rightarrow> task_ctx" where
  "set_callback ctx callback callback_ctx t =
     t\<lparr>tk_callback_ctx := (if callback_ctx \<noteq> NULL then callback_ctx else ctx), tk_callback := callback\<rparr>"

text \<open>
  An operation up to the call of \<open>sched_defaultloop\<close>; the flag tells whether it makes one. The context runs,
  so it is the current one and not the default one: \<open>start_task\<close> changes nothing. \<open>tmo\<close> is the address
  of \<open>defaultloop_timeout_handler_for_task\<close>.
\<close>

fun begin_op :: "ptr \<Rightarrow> ptr \<Rightarrow> task_op \<Rightarrow> task_ctx \<Rightarrow> tsys \<Rightarrow> bool \<times> tsys" where
  "begin_op tmo ctx (Sleep p clk clk' secs usecs callback callback_ctx) t s =
     (True, put_ctx ctx (set_callback ctx callback callback_ctx (t\<lparr>tk_bIsTimeout := -1\<rparr>))
        (s\<lparr>ts_loop := snd (eloop_register_timeout p clk secs usecs tmo ctx callback_ctx (ts_loop s))\<rparr>))"
| "begin_op tmo ctx (Callback callback callback_ctx) t s =
     (True, put_ctx ctx (set_callback ctx callback callback_ctx t) s)"
| "begin_op tmo ctx Sched t s = (True, s)"
| "begin_op tmo ctx (Exit callback callback_ctx) t s =
     (True, put_ctx ctx (set_callback ctx callback callback_ctx (t\<lparr>tk_bCompleted := True\<rparr>)) s)"
| "begin_op tmo ctx (Start other) t s = (False, s)"
| "begin_op tmo ctx (Api c) t s = (False, s\<lparr>ts_loop := api_exec c (ts_loop s)\<rparr>)"
| "begin_op tmo ctx Return t s = (False, s)"

text \<open>The same operation after the task was resumed: the value it returns.\<close>

fun finish_op :: "ptr \<Rightarrow> ptr \<Rightarrow> task_op \<Rightarrow> task_ctx \<Rightarrow> tsys \<Rightarrow> int \<times> tsys" where
  "finish_op tmo ctx (Sleep p clk clk' secs usecs callback callback_ctx) t s =
     (tk_bIsTimeout t,
      if tk_bIsTimeout t \<noteq> 1
      then s\<lparr>ts_loop := snd (eloop_cancel_timeout clk' tmo ctx callback_ctx (ts_loop s))\<rparr> else s)"
| "finish_op tmo ctx op t s = (0, s)"

text \<open>
  A task runs until it switches: \<open>switch2task(ctx, default_ctx)\<close> makes the default context the current one. A
  routine that returns ends the thread. The first argument bounds the operations between two switches.
\<close>

fun run_task :: "nat \<Rightarrow> ptr \<Rightarrow> routine \<Rightarrow> ptr \<Rightarrow> tsys \<Rightarrow> tsys outcome" where
  "run_task 0 tmo rt ctx s = OutOfFuel"
| "run_task (Suc n) tmo rt ctx s =
     with_ctx ctx s (\<lambda>t.
       let op = rt ctx (tk_pc t) s
       in if is_Return op then ExitProcess 0
          else
            (let (sw, s1) = begin_op tmo ctx op t s
             in with_ctx ctx s1 (\<lambda>t1.
                  if sw then Done ((put_ctx ctx (t1\<lparr>tk_suspended := Some op\<rparr>) s1)\<lparr>ts_cur := ts_default s1\<rparr>)
                  else run_task n tmo rt ctx (put_ctx ctx (t1\<lparr>tk_pc := tk_pc t1 + 1\<rparr>) s1))))"

text \<open>
  \<open>swapcontext\<close> to a task: it goes on behind the call it is suspended in. A switch of the default context to
  itself comes back at once.
\<close>

definition resume_task :: "nat \<Rightarrow> ptr \<Rightarrow> routine \<Rightarrow> ptr \<Rightarrow> tsys \<Rightarrow> tsys outcome" where
  "resume_task n tmo rt ctx s =
     with_ctx ctx s (\<lambda>t.
       if ctx = ts_default s then Done s
       else case tk_suspended t of
         None \<Rightarrow> run_task n tmo rt ctx s
       | Some op \<Rightarrow>
           (let (ret, s1) = finish_op tmo ctx op t s
            in run_task n tmo rt ctx
                 (log_task (Resumed ctx ret) (put_ctx ctx (t\<lparr>tk_suspended := None, tk_pc := tk_pc t + 1\<rparr>) s1))))"

section \<open>On the default context\<close>

text \<open>What a callback does there.\<close>

datatype default_op = DStart ptr | DDestroy ptr | DApi api_call

type_synonym callbacks = "ptr \<Rightarrow> ptr \<Rightarrow> ptr \<Rightarrow> tsys \<Rightarrow> default_op list"

text \<open>
  The operations of a callback and \<open>ifCompleted_task\<close>. \<open>sched\<close> is what \<open>sched_task\<close> does: \<open>start_task\<close> in a callback
  finds the default context made and resumes the task; \<open>run\<close> are the operations of a callback.
\<close>

fun default_ops :: "(ptr \<Rightarrow> tsys \<Rightarrow> tsys outcome) \<Rightarrow> default_op list \<Rightarrow> tsys \<Rightarrow> tsys outcome" where
  "default_ops sched [] s = Done s"
| "default_ops sched (DStart ctx # ops) s = obind (sched ctx s) (default_ops sched ops)"
| "default_ops sched (DDestroy ctx # ops) s = obind (destroy_task ctx s) (default_ops sched ops)"
| "default_ops sched (DApi c # ops) s = default_ops sched ops (s\<lparr>ts_loop := api_exec c (ts_loop s)\<rparr>)"

definition ifCompleted_task ::
    "(default_op list \<Rightarrow> tsys \<Rightarrow> tsys outcome) \<Rightarrow> callbacks \<Rightarrow> ptr \<Rightarrow> tsys \<Rightarrow> tsys outcome" where
  "ifCompleted_task run cbs ctx s =
     with_ctx ctx s (\<lambda>t.
       obind (if tk_callback t \<noteq> NULL then
                obind (run (cbs (tk_callback t) ctx (tk_callback_ctx t) s)
                         (log_task (CalledBack (tk_callback t) ctx (tk_callback_ctx t)) s)) (\<lambda>s1.
                  with_ctx ctx s1 (\<lambda>t1. Done (put_ctx ctx (t1\<lparr>tk_callback := NULL, tk_callback_ctx := NULL\<rparr>) s1)))
              else Done s) (\<lambda>s2.
         with_ctx ctx s2 (\<lambda>t2.
           if tk_bCompleted t2 then
             obind (if tk_callback t = NULL \<and> ts_onexit s2 \<noteq> NULL then
                      run (cbs (ts_onexit s2) ctx NULL s2) (log_task (CalledBack (ts_onexit s2) ctx NULL) s2)
                    else Done s2) (destroy_task ctx)
           else Done s2)))"

text \<open>
  \<open>sched_task\<close>, that is \<open>switch2task(default_ctx, ctx)\<close>. The first argument bounds how deep callbacks resume
  tasks, and the operations between two switches.
\<close>

fun sched_task :: "nat \<Rightarrow> ptr \<Rightarrow> routine \<Rightarrow> callbacks \<Rightarrow> ptr \<Rightarrow> tsys \<Rightarrow> tsys outcome" where
  "sched_task 0 tmo rt cbs ctx s = OutOfFuel"
| "sched_task (Suc n) tmo rt cbs ctx s =
     (if ts_cur s = ts_default s then
        obind (resume_task n tmo rt ctx (s\<lparr>ts_cur := ctx\<rparr>)) (\<lambda>s1.
          if ts_cur s1 = ts_default s1
          then ifCompleted_task (default_ops (\<lambda>c s. sched_task n tmo rt cbs c s)) cbs ctx s1 else Done s1)
      else Done s)"

definition start_task :: "nat \<Rightarrow> ptr \<Rightarrow> routine \<Rightarrow> callbacks \<Rightarrow> ptr \<Rightarrow> ptr \<Rightarrow> tsys \<Rightarrow> tsys outcome" where
  "start_task n tmo rt cbs p ctx s = obind (make_default_task p s) (sched_task n tmo rt cbs ctx)"

text \<open>
  \<open>defaultloop_handler_for_task\<close>, which the event loop calls with the context as the data of the registration: a
  timeout is told by 1 or by the lower half of the user data.
\<close>

definition defaultloop_handler_for_task ::
    "nat \<Rightarrow> ptr \<Rightarrow> routine \<Rightarrow> callbacks \<Rightarrow> ptr \<Rightarrow> ptr \<Rightarrow> ptr \<Rightarrow> bool \<Rightarrow> tsys \<Rightarrow> tsys outcome" where
  "defaultloop_handler_for_task n tmo rt cbs p ctx user_data bTimeout s =
     obind (make_default_task p s) (\<lambda>s1.
       with_ctx ctx s1 (\<lambda>t.
         sched_task n tmo rt cbs ctx
           (put_ctx ctx (t\<lparr>tk_bIsTimeout :=
              (if bTimeout then if user_data \<noteq> NULL then sint (ucast user_data :: u32) else 1 else 0)\<rparr>) s1)))"

text \<open>What the process calls on the default context, in order.\<close>

datatype task_call =
    TInit ptr ptr                 \<comment> \<open>defaultloop_task_init, with the block make_task gets\<close>
  | TMake ptr                     \<comment> \<open>make_task\<close>
  | TStart ptr ptr                \<comment> \<open>start_task\<close>
  | THandler ptr ptr ptr bool     \<comment> \<open>the event loop calls the handler\<close>
  | TLoop api_call                \<comment> \<open>a call of the event loop\<close>

fun exec_task_call :: "nat \<Rightarrow> ptr \<Rightarrow> routine \<Rightarrow> callbacks \<Rightarrow> task_call \<Rightarrow> tsys \<Rightarrow> tsys outcome" where
  "exec_task_call n tmo rt cbs (TInit p onexit) s = defaultloop_task_init p onexit s"
| "exec_task_call n tmo rt cbs (TMake p) s = obind (make_task p s) (\<lambda>(_, s'). Done s')"
| "exec_task_call n tmo rt cbs (TStart p ctx) s = start_task n tmo rt cbs p ctx s"
| "exec_task_call n tmo rt cbs (THandler p ctx user_data bTimeout) s =
     defaultloop_handler_for_task n tmo rt cbs p ctx user_data bTimeout s"
| "exec_task_call n tmo rt cbs (TLoop c) s = Done (s\<lparr>ts_loop := api_exec c (ts_loop s)\<rparr>)"

fun task_calls :: "nat \<Rightarrow> ptr \<Rightarrow> routine \<Rightarrow> callbacks \<Rightarrow> task_call list \<Rightarrow> tsys \<Rightarrow> tsys outcome" where
  "task_calls n tmo rt cbs [] s = Done s"
| "task_calls n tmo rt cbs (c # cs) s = obind (exec_task_call n tmo rt cbs c s) (task_calls n tmo rt cbs cs)"

end
