(* ===== verification/Task_Laws.thy ===== *)
theory Task_Laws
  imports Task
begin

text \<open>
  What holds of the tasks: the stack lies in the block of the task, control always comes back to the event
  loop with no finished task left, a sleeping task is resumed once, and what goes wrong when a task
  ends while something still refers to it.
\<close>

section \<open>Control comes back\<close>


lemma put_ctx_simps [simp]:
  "ts_ctx (put_ctx ctx t s) = (ts_ctx s)(ctx := Some t)" "ts_default (put_ctx ctx t s) = ts_default s"
  "ts_cur (put_ctx ctx t s) = ts_cur s" "ts_loop (put_ctx ctx t s) = ts_loop s" "ts_log (put_ctx ctx t s) = ts_log s"
  "ts_onexit (put_ctx ctx t s) = ts_onexit s"
  by (simp_all add: put_ctx_def)

lemma log_task_simps [simp]:
  "ts_ctx (log_task e s) = ts_ctx s" "ts_default (log_task e s) = ts_default s" "ts_cur (log_task e s) = ts_cur s"
  "ts_loop (log_task e s) = ts_loop s" "ts_log (log_task e s) = ts_log s @ [e]" "ts_onexit (log_task e s) = ts_onexit s"
  by (simp_all add: log_task_def)


lemma with_ctx_Some: "ts_ctx s ctx = Some t \<Longrightarrow> with_ctx ctx s f = f t"
  by (simp add: with_ctx_def)

lemma with_ctx_None: "ts_ctx s ctx = None \<Longrightarrow> with_ctx ctx s f = Crash"
  by (simp add: with_ctx_def)

text \<open>
  The default context is the current one, the null pointer is no context, and outside a set of contexts that
  are being worked on no task is finished and no callback waits.
\<close>

definition no_leftover :: "ptr set \<Rightarrow> tsys \<Rightarrow> bool" where
  "no_leftover A s \<longleftrightarrow> (\<forall>ctx t. ctx \<notin> A \<and> ts_ctx s ctx = Some t \<longrightarrow> \<not> tk_bCompleted t \<and> tk_callback t = NULL)"

definition at_home :: "ptr set \<Rightarrow> tsys \<Rightarrow> bool" where
  "at_home A s \<longleftrightarrow> ts_cur s = ts_default s \<and> ts_default s \<noteq> NULL \<and> ts_ctx s NULL = None \<and> no_leftover A s"







lemma at_home_frame [simp]:
  "at_home A (log_task e s) = at_home A s" "at_home A (s\<lparr>ts_loop := l\<rparr>) = at_home A s"
  by (auto simp: at_home_def no_leftover_def)





lemma sched_task_step:
  "ts_cur s = ts_default s \<Longrightarrow> resume_task n tmo rt ctx (s\<lparr>ts_cur := ctx\<rparr>) = Done s1 \<Longrightarrow> ts_cur s1 = ts_default s1 \<Longrightarrow>
   sched_task (Suc n) tmo rt cbs ctx s = ifCompleted_task (default_ops (sched_task n tmo rt cbs)) cbs ctx s1"
  by simp


section \<open>Properties\<close>

text \<open>A task of at least 78 bytes of stack gets an area inside the block that was allocated behind its
  context, with an aligned start; the end is a multiple of 8 exactly when the size was one or was 4 off,
  because \<open>make_task\<close> subtracts the distance to the next multiple instead of the remainder.\<close>

lemma task_stack_inside_block:
  assumes "78 \<le> stkSize" and "stkSize < 2 ^ 31"
  shows "\<exists>sp size. task_stack addr ctxSize stkSize = (sp, size) \<and> addr + ctxSize + 32 \<le> sp \<and> 0 \<le> size \<and>
           sp + size \<le> addr + ctxSize + stkSize - 32 \<and> sp mod 8 = 0 \<and>
           ((sp + size) mod 8 = 0 \<longleftrightarrow> (stkSize - (sp - (addr + ctxSize + 32))) mod 8 \<in> {0, 4})"
proof -
  define b where "b = addr + ctxSize + 32"
  define a where "a = (if b mod 8 \<noteq> 0 then 8 - b mod 8 else 0)"
  define k where "k = stkSize - a"
  define d where "d = (if k mod 8 \<noteq> 0 then 8 - k mod 8 else 0)"
  have am: "a = (- b) mod 8" and dm: "d = (- k) mod 8" by (simp_all add: a_def d_def zmod_zminus1_eq_if)
  have a: "0 \<le> a" "a < 8" "(b + a) mod 8 = 0" unfolding am by (simp_all add: mod_add_right_eq)
  have d: "0 \<le> d" "d < 8" unfolding dm by simp_all
  have sz: "0 \<le> k - d - 64" "k - d - 64 < 2 ^ 64" using a d assms by (simp_all add: k_def)
  have t: "task_stack addr ctxSize stkSize = (b + a, k - d - 64)"
  proof -
    have e0: "addr + ctxSize + 4 * 8 = b" by (simp add: b_def)
    have e1: "(if b mod 8 \<noteq> 0 then (b + 8 - b mod 8, stkSize - (8 - b mod 8)) else (b, stkSize)) = (b + a, k)"
      by (simp add: a_def k_def)
    have e2: "(if k mod 8 \<noteq> 0 then k - (8 - k mod 8) else k) = k - d" by (simp add: d_def)
    have e3: "(k - d - 64) mod 2 ^ 64 = k - d - 64" using sz by (rule mod_pos_pos_trivial)
    show ?thesis unfolding task_stack_def Let_def e0 e1 prod.case e2 e3 ..
  qed
  have "(b + a + (k - d - 64)) mod 8 = ((b + a) mod 8 + (k - d - 64) mod 8) mod 8" by (simp only: mod_add_eq)
  also have "\<dots> = (k - d - 64) mod 8" using a(3) by simp
  also have "\<dots> = (k - 64 - (- k) mod 8) mod 8" unfolding dm by (rule arg_cong [where f = "\<lambda>x. x mod 8"]) simp
  also have "\<dots> = (k - 64 - - k) mod 8" by (rule mod_diff_right_eq)
  also have "\<dots> = (2 * k) mod 8" by presburger
  finally have "(b + a + (k - d - 64)) mod 8 = (2 * k) mod 8" .
  moreover have "(2 * k) mod 8 = 0 \<longleftrightarrow> k mod 8 \<in> {0, 4}" unfolding insert_iff empty_iff by presburger
  moreover have "stkSize - (b + a - (addr + ctxSize + 32)) = k" by (simp add: b_def k_def)
  moreover have "addr + ctxSize + 32 \<le> b + a" "b + a + (k - d - 64) \<le> addr + ctxSize + stkSize - 32"
    using a d by (simp_all add: b_def k_def)
  ultimately show ?thesis
    unfolding t using a(3) sz(1) by (intro exI [of _ "b + a"] exI [of _ "k - d - 64"] conjI) (rule refl | assumption | simp)+
qed

lemma task_stack_inside_block_witness:
  "\<exists>sp size. task_stack 4096 1000 2048 = (sp, size) \<and> 5128 \<le> sp \<and> sp + size \<le> 7112"
  using task_stack_inside_block [of 2048 4096 1000] by force

lemma make_default_task_home: "at_home A s \<Longrightarrow> make_default_task p s = Done s"
  by (simp add: at_home_def make_default_task_def)




text \<open>C30. A task that sleeps is resumed by one call of its handler: \<open>sleep_task_on_defaultloop\<close> returns what
  the handler noted, the timeout is cancelled unless that is 1, and when the task goes to sleep again the new
  timeout is registered and control is back. A timeout with user data gives the lower 32 bits of that
  pointer instead of 1.\<close>

theorem sleeping_task_resumes_once:
  assumes home: "at_home {} s" and t: "ts_ctx s ctx = Some t" and c: "ctx \<noteq> ts_default s"
    and "tk_suspended t = Some (Sleep p clk clk' secs usecs cb d)"
    and "\<And>s'. rt ctx (tk_pc t + 1) s' = Sleep p2 clk2 clk2' secs2 usecs2 NULL d2"
  shows "\<exists>v s'. defaultloop_handler_for_task (n + 2) tmo rt cbs q ctx user_data bTimeout s = Done s' \<and>
     v = (if bTimeout then if user_data \<noteq> NULL then sint (ucast user_data :: u32) else 1 else 0) \<and>
     ts_log s' = ts_log s @ [Resumed ctx v] \<and>
     ts_loop s' = snd (eloop_register_timeout p2 clk2 secs2 usecs2 tmo ctx d2
        (if v = 1 then ts_loop s else snd (eloop_cancel_timeout clk' tmo ctx d (ts_loop s)))) \<and>
     ts_ctx s' = (ts_ctx s)(ctx \<mapsto> t\<lparr>tk_pc := tk_pc t + 1, tk_bIsTimeout := -1,
        tk_callback_ctx := (if d2 \<noteq> NULL then d2 else ctx), tk_callback := NULL,
        tk_suspended := Some (Sleep p2 clk2 clk2' secs2 usecs2 NULL d2)\<rparr>) \<and>
     ts_cur s' = ts_default s"
proof -
  define v where "v = (if bTimeout then if user_data \<noteq> NULL then sint (ucast user_data :: u32) else 1 else 0)"
  define l where "l = (if v = 1 then ts_loop s else snd (eloop_cancel_timeout clk' tmo ctx d (ts_loop s)))"
  let ?s0 = "put_ctx ctx (t\<lparr>tk_bIsTimeout := v\<rparr>) s"
  let ?s1 = "s\<lparr>ts_cur := ctx, ts_loop := l,
     ts_ctx := (ts_ctx s)(ctx \<mapsto> t\<lparr>tk_bIsTimeout := v, tk_suspended := None, tk_pc := tk_pc t + 1\<rparr>), ts_log := ts_log s @ [Resumed ctx v]\<rparr>"
  let ?op = "Sleep p2 clk2 clk2' secs2 usecs2 NULL d2"
  let ?t2 = "t\<lparr>tk_pc := tk_pc t + 1, tk_bIsTimeout := -1, tk_callback_ctx := (if d2 \<noteq> NULL then d2 else ctx),
     tk_callback := NULL, tk_suspended := Some ?op\<rparr>"
  let ?s2 = "s\<lparr>ts_log := ts_log s @ [Resumed ctx v],
     ts_loop := snd (eloop_register_timeout p2 clk2 secs2 usecs2 tmo ctx d2 l),
     ts_ctx := (ts_ctx s)(ctx \<mapsto> ?t2), ts_cur := ts_default s\<rparr>"
  have free: "\<not> tk_bCompleted t" "tk_callback t = NULL" and cur: "ts_cur s = ts_default s"
    using home t unfolding at_home_def no_leftover_def by blast+
  have run: "run_task (Suc n) tmo rt ctx ?s1 = Done ?s2"
    using assms(5) by (simp add: with_ctx_def put_ctx_def set_callback_def del: run_task.simps(1))
  have "resume_task (Suc n) tmo rt ctx (?s0\<lparr>ts_cur := ctx\<rparr>) = run_task (Suc n) tmo rt ctx ?s1"
    using assms(4) c by (simp add: resume_task_def with_ctx_def put_ctx_def log_task_def l_def del: run_task.simps)
  with run have "resume_task (Suc n) tmo rt ctx (?s0\<lparr>ts_cur := ctx\<rparr>) = Done ?s2" by (simp only:)
  moreover have "ifCompleted_task run cbs ctx ?s2 = Done ?s2" for run
    using free by (simp add: ifCompleted_task_def with_ctx_def)
  ultimately have "sched_task (n + 2) tmo rt cbs ctx ?s0 = Done ?s2"
    using cur by (simp add: numeral_2_eq_2)
  then have "defaultloop_handler_for_task (n + 2) tmo rt cbs q ctx user_data bTimeout s = Done ?s2"
    by (simp only: defaultloop_handler_for_task_def make_default_task_home [OF home] obind.simps with_ctx_Some [OF t] v_def)
  then show ?thesis by (intro exI [of _ v] exI [of _ ?s2]) (simp add: v_def [symmetric] l_def)
qed

theorem sleeping_task_resumes_once_witness:
  "\<forall>l clk clk'. \<exists>s'. defaultloop_handler_for_task 2 9 (\<lambda>_ _ _. Sleep 32 clk clk' 1 0 NULL NULL) (\<lambda>_ _ _ _. []) 0 8 7 True
     \<lparr>ts_default = 4, ts_cur = 4, ts_onexit = 0,
      ts_ctx = [8 \<mapsto> new_ctx\<lparr>tk_suspended := Some (Sleep 16 clk clk' 1 0 NULL NULL)\<rparr>], ts_loop = l, ts_log = []\<rparr> = Done s' \<and>
     ts_log s' = [Resumed 8 7] \<and> ts_cur s' = 4"
proof (intro allI)
  fix l clk clk'
  let ?t = "new_ctx\<lparr>tk_suspended := Some (Sleep 16 clk clk' 1 0 NULL NULL)\<rparr>"
  let ?s = "\<lparr>ts_default = 4, ts_cur = 4, ts_onexit = 0, ts_ctx = [8 \<mapsto> ?t], ts_loop = l, ts_log = []\<rparr>"
  have "at_home {} ?s" by (simp add: at_home_def no_leftover_def new_ctx_def)
  from sleeping_task_resumes_once [OF this, of 8 ?t 16 clk clk' 1 0 NULL NULL "\<lambda>_ _ _. Sleep 32 clk clk' 1 0 NULL NULL"
      32 clk clk' 1 0 NULL 0 9 "\<lambda>_ _ _ _. []" 0 7 True]
  show "\<exists>s'. defaultloop_handler_for_task 2 9 (\<lambda>_ _ _. Sleep 32 clk clk' 1 0 NULL NULL) (\<lambda>_ _ _ _. []) 0 8 7 True ?s = Done s' \<and>
     ts_log s' = [Resumed 8 7] \<and> ts_cur s' = 4"
    by (auto simp del: add_2_eq_Suc')
qed

text \<open>\<open>exit_task\<close> frees the task and leaves the event loop as it is: its sockets and timeouts stay
  registered, and the first handler that is called for one of them uses the freed context.\<close>

lemma exited_task_leaves_handlers:
  assumes home: "at_home {} s" and t: "ts_ctx s ctx = Some t" and c: "ctx \<noteq> ts_default s"
    and "tk_suspended t = None" and "ts_onexit s = NULL"
    and "\<And>s'. rt ctx (tk_pc t) s' = Exit NULL d"
  shows "\<exists>s'. start_task (n + 2) tmo rt cbs p ctx s = Done s' \<and> ts_ctx s' ctx = None \<and> ts_loop s' = ts_loop s \<and>
     ts_log s' = ts_log s @ [Destroyed ctx] \<and>
     (\<forall>m q user_data bTimeout. defaultloop_handler_for_task m tmo rt cbs q ctx user_data bTimeout s' = Crash)"
proof -
  let ?t1 = "t\<lparr>tk_bCompleted := True, tk_callback_ctx := (if d \<noteq> NULL then d else ctx), tk_callback := NULL,
     tk_suspended := Some (Exit NULL d)\<rparr>"
  let ?s1 = "s\<lparr>ts_ctx := (ts_ctx s)(ctx \<mapsto> ?t1), ts_cur := ts_default s\<rparr>"
  let ?s2 = "log_task (Destroyed ctx) (s\<lparr>ts_ctx := (ts_ctx s)(ctx := None), ts_cur := ts_default s\<rparr>)"
  have cur: "ts_cur s = ts_default s" "ts_default s \<noteq> NULL" "ctx \<noteq> NULL"
    using home t unfolding at_home_def by auto
  have "resume_task (Suc n) tmo rt ctx (s\<lparr>ts_cur := ctx\<rparr>) = Done ?s1"
    using assms(4,6) t c by (simp add: resume_task_def with_ctx_def put_ctx_def set_callback_def del: run_task.simps(1))
  moreover have "ifCompleted_task run cbs ctx ?s1 = Done ?s2" for run
    using assms(5) cur by (simp add: ifCompleted_task_def with_ctx_def destroy_task_def log_task_def)
  ultimately have "sched_task (n + 2) tmo rt cbs ctx s = Done ?s2"
    using cur by (simp add: numeral_2_eq_2)
  then have "start_task (n + 2) tmo rt cbs p ctx s = Done ?s2"
    by (simp only: start_task_def make_default_task_home [OF home] obind.simps)
  moreover have "defaultloop_handler_for_task m tmo rt cbs q ctx user_data bTimeout ?s2 = Crash" for m q user_data bTimeout
    using cur by (simp add: defaultloop_handler_for_task_def make_default_task_def with_ctx_def)
  ultimately show ?thesis by (intro exI [of _ ?s2]) simp
qed

lemma exited_task_leaves_handlers_witness:
  "\<forall>l. \<exists>s'. start_task 2 9 (\<lambda>_ _ _. Exit NULL NULL) (\<lambda>_ _ _ _. []) 0 8
     \<lparr>ts_default = 4, ts_cur = 4, ts_onexit = 0, ts_ctx = [8 \<mapsto> new_ctx], ts_loop = l, ts_log = []\<rparr> = Done s' \<and>
     ts_loop s' = l \<and> defaultloop_handler_for_task 2 9 (\<lambda>_ _ _. Exit NULL NULL) (\<lambda>_ _ _ _. []) 0 8 0 True s' = Crash"
proof
  fix l
  let ?s = "\<lparr>ts_default = 4, ts_cur = 4, ts_onexit = 0, ts_ctx = [8 \<mapsto> new_ctx], ts_loop = l, ts_log = []\<rparr>"
  have "at_home {} ?s" by (simp add: at_home_def no_leftover_def new_ctx_def)
  from exited_task_leaves_handlers [OF this, of 8 new_ctx "\<lambda>_ _ _. Exit NULL NULL" NULL 0 9 "\<lambda>_ _ _ _. []" 0]
  show "\<exists>s'. start_task 2 9 (\<lambda>_ _ _. Exit NULL NULL) (\<lambda>_ _ _ _. []) 0 8 ?s = Done s' \<and>
     ts_loop s' = l \<and> defaultloop_handler_for_task 2 9 (\<lambda>_ _ _. Exit NULL NULL) (\<lambda>_ _ _ _. []) 0 8 0 True s' = Crash"
    by (auto simp: new_ctx_def simp del: add_2_eq_Suc')
qed

text \<open>A callback of a task may run while the task is between two switches, and may start it again: if the
  task then exits it is freed, and \<open>ifCompleted_task\<close> of the first switch goes on with the freed context.\<close>

lemma callback_restarts_own_task:
  assumes home: "at_home {} s" and t: "ts_ctx s ctx = Some t" and c: "ctx \<noteq> ts_default s"
    and "tk_suspended t = None" and "ts_onexit s = NULL" and cb: "cb \<noteq> NULL"
    and "\<And>s'. rt ctx (tk_pc t) s' = Callback cb d" and "\<And>s'. rt ctx (tk_pc t + 1) s' = Exit NULL d'"
    and "\<And>d s'. cbs cb ctx d s' = [DStart ctx]"
  shows "start_task (n + 3) tmo rt cbs p ctx s = Crash"
proof -
  let ?x = "if d \<noteq> NULL then d else ctx"
  let ?t1 = "t\<lparr>tk_callback_ctx := ?x, tk_callback := cb, tk_suspended := Some (Callback cb d)\<rparr>"
  let ?s1 = "s\<lparr>ts_ctx := (ts_ctx s)(ctx \<mapsto> ?t1), ts_cur := ts_default s\<rparr>"
  let ?s1' = "log_task (CalledBack cb ctx ?x) ?s1"
  let ?t2 = "t\<lparr>tk_pc := tk_pc t + 1, tk_bCompleted := True, tk_callback_ctx := (if d' \<noteq> NULL then d' else ctx),
     tk_callback := NULL, tk_suspended := Some (Exit NULL d')\<rparr>"
  let ?s2 = "s\<lparr>ts_log := ts_log s @ [CalledBack cb ctx ?x, Resumed ctx 0],
     ts_ctx := (ts_ctx s)(ctx \<mapsto> ?t2), ts_cur := ts_default s\<rparr>"
  let ?s3 = "log_task (Destroyed ctx) (?s2\<lparr>ts_ctx := (ts_ctx s)(ctx := None)\<rparr>)"
  have cur: "ts_cur s = ts_default s" "ctx \<noteq> NULL" using home t unfolding at_home_def by auto
  have r1: "resume_task (Suc m) tmo rt ctx (s\<lparr>ts_cur := ctx\<rparr>) = Done ?s1" for m
    using assms(4,7) t c by (simp add: resume_task_def with_ctx_def put_ctx_def set_callback_def)
  have r2: "resume_task (Suc m) tmo rt ctx (?s1'\<lparr>ts_cur := ctx\<rparr>) = Done ?s2" for m
    using assms(8) c by (simp add: resume_task_def with_ctx_def put_ctx_def set_callback_def log_task_def)
  have "ifCompleted_task run cbs ctx ?s2 = Done ?s3" for run
    using assms(5) cur by (simp add: ifCompleted_task_def with_ctx_def destroy_task_def log_task_def)
  then have "sched_task (Suc (Suc n)) tmo rt cbs ctx ?s1' = Done ?s3"
    by (subst sched_task_step [OF _ r2]) simp_all
  then have "default_ops (sched_task (Suc (Suc n)) tmo rt cbs) [DStart ctx] ?s1' = Done ?s3"
    by (simp del: sched_task.simps)
  then have "ifCompleted_task (default_ops (sched_task (Suc (Suc n)) tmo rt cbs)) cbs ctx ?s1 = Crash"
    using cb assms(9) by (simp add: ifCompleted_task_def with_ctx_def del: default_ops.simps sched_task.simps)
  then have "sched_task (Suc (Suc (Suc n))) tmo rt cbs ctx s = Crash"
    by (subst sched_task_step [OF cur(1) r1]) simp_all
  then have "sched_task (n + 3) tmo rt cbs ctx s = Crash" by (simp only: numeral_3_eq_3 add_Suc_right add_0_right)
  then show ?thesis by (simp only: start_task_def make_default_task_home [OF home] obind.simps)
qed

lemma callback_restarts_own_task_witness:
  "\<forall>l. start_task 3 9 (\<lambda>_ pc _. if pc = 0 then Callback 5 NULL else Exit NULL NULL) (\<lambda>_ ctx _ _. [DStart ctx]) 0 8
     \<lparr>ts_default = 4, ts_cur = 4, ts_onexit = 0, ts_ctx = [8 \<mapsto> new_ctx], ts_loop = l, ts_log = []\<rparr> = Crash"
proof
  fix l
  let ?s = "\<lparr>ts_default = 4, ts_cur = 4, ts_onexit = 0, ts_ctx = [8 \<mapsto> new_ctx], ts_loop = l, ts_log = []\<rparr>"
  have "at_home {} ?s" by (simp add: at_home_def no_leftover_def new_ctx_def)
  from callback_restarts_own_task [OF this, of 8 new_ctx 5 "\<lambda>_ pc _. if pc = 0 then Callback 5 NULL else Exit NULL NULL" NULL NULL
      "\<lambda>_ ctx _ _. [DStart ctx]" 0 9 0]
  show "start_task 3 9 (\<lambda>_ pc _. if pc = 0 then Callback 5 NULL else Exit NULL NULL) (\<lambda>_ ctx _ _. [DStart ctx]) 0 8 ?s = Crash"
    by (simp add: new_ctx_def del: sched_task.simps)
qed


end
