(* ===== verification/Log_Server.thy ===== *)
theory Log_Server
  imports Lfs_Filter
begin

text \<open>
  The log server of etc/ns_log_server.c: requests that end with a zero byte, taken from a TCP stream or a
  datagram, a ping, an echo, and the commands that save a log entry or load a log. The network library, the
  JSON library, the two test functions of the stream and the log files themselves are parameters.
\<close>

section \<open>Requests of a stream\<close>

abbreviation NUL :: char where "NUL \<equiv> CHR 0x00"

text \<open>
  The do-while loop over the zero bytes of what was received: the bytes left in the buffer of the connection, the bytes that
  are left of what was received (\<open>None\<close> after \<open>goto EndProc\<close>), and the requests passed on. \<open>n\<close> is the number of zero bytes
  still expected; when none is there, \<open>strlen\<close> leaves the buffer.
\<close>

fun null_requests :: "nat \<Rightarrow> (string \<Rightarrow> bool) \<Rightarrow> nat \<Rightarrow> string \<Rightarrow> string \<Rightarrow> (string \<times> string option \<times> string list) outcome" where
  "null_requests cap term n io tcp =
     (if NUL \<notin> set io then Crash
      else
        (let str = takeWhile (\<lambda>c. c \<noteq> NUL) io @ [NUL]; rest = drop (length str) io
         in if length tcp + length str > cap then Done ([], None, [])
            else
              (let req = tcp @ str; ms = (if term req then [req] else [])
               in case n of
                    Suc (Suc m) \<Rightarrow>
                      if rest \<noteq> [] then obind (null_requests cap term (Suc m) rest []) (\<lambda>(t, r, ms'). Done (t, r, ms @ ms'))
                      else Done ([], Some rest, ms)
                  | _ \<Rightarrow> Done ([], Some rest, ms))))"

declare null_requests.simps [simp del]

text \<open>\<open>NS_RECV\<close> of \<open>logServ_TCP_ev_handler\<close>: the new contents of the buffer and the requests passed on.\<close>

definition tcp_received :: "nat \<Rightarrow> (string \<Rightarrow> int) \<Rightarrow> (string \<Rightarrow> bool) \<Rightarrow> string \<Rightarrow> string \<Rightarrow> (string \<times> string list) outcome" where
  "tcp_received cap countNull term io tcp =
     (if countNull io \<ge> 1 then
        obind (null_requests cap term (nat (countNull io)) io tcp) (\<lambda>(t, r, ms).
          case r of
            None \<Rightarrow> Done (t, ms)
          | Some rest \<Rightarrow>
              if rest \<noteq> [] then if length t + length rest > cap then Done ([], ms) else Done (t @ rest, ms)
              else Done (t, ms))
      else if length tcp + length io > cap then Done ([], [])
      else if term (tcp @ io) then Done ([], [tcp @ io])
      else Done (tcp @ io, []))"

definition TCP_BUF_SIZE :: nat where "TCP_BUF_SIZE = 32000000"

section \<open>A request\<close>

text \<open>
  \<open>memcmp(data, key, strlen(key)) == 0\<close>; the comparison stops at the first difference, and bytes behind the data
  are unknown.
\<close>

fun memcmp_start :: "string \<Rightarrow> string \<Rightarrow> bool outcome" where
  "memcmp_start [] data = Done True"
| "memcmp_start (k # ks) [] = Crash"
| "memcmp_start (k # ks) (c # cs) = (if k = c then memcmp_start ks cs else Done False)"

datatype json_type = JSON_TYPE_EOF | JSON_TYPE_STRING | JSON_TYPE_OBJECT | JSON_TYPE_OTHER

text \<open>A token: the text from its start to the end of the request, its length and the number of its descendants.\<close>

record json_token =
  jt_type :: json_type
  jt_ptr :: string
  jt_len :: nat
  jt_num_desc :: int

definition zero_token :: json_token where
  "zero_token = \<lparr>jt_type = JSON_TYPE_EOF, jt_ptr = [], jt_len = 0, jt_num_desc = 0\<rparr>"

text \<open>
  The libraries: \<open>parse_json\<close> (its result and the tokens it fills), \<open>jstrcpy\<close> and \<open>UnquoteJsonString\<close> on the text of a token,
  \<open>mktime\<close>, the seconds east of Greenwich, and \<open>LoadLogFromVGWEMSfile\<close> (its result and what it writes).
\<close>

record log_env =
  parse_json :: "string \<Rightarrow> int \<times> json_token list"
  jstrcpy :: "string \<Rightarrow> string"
  UnquoteJsonString :: "string \<Rightarrow> string"
  le_mktime :: "int \<Rightarrow> int \<Rightarrow> int \<Rightarrow> int \<Rightarrow> int \<Rightarrow> int \<Rightarrow> int"
  GET_SECEAST_NS :: int
  LoadLog :: "string \<Rightarrow> string \<Rightarrow> int \<Rightarrow> int \<Rightarrow> int \<Rightarrow> string \<Rightarrow> int \<times> string"
  HB_LOGDATA_LEN_MAX :: int

text \<open>\<open>%02d\<close> and \<open>%04d\<close> of \<open>sscanf\<close>: white space, a sign and digits up to the width.\<close>

definition scan_d :: "nat \<Rightarrow> string \<Rightarrow> (int \<times> string) option" where
  "scan_d w s =
     (let s1 = dropWhile white s;
          (sg, s2, w') = (case s1 of [] \<Rightarrow> (1, s1, w)
             | c # r \<Rightarrow> if c = CHR ''-'' then (-1, r, w - 1) else if c = CHR ''+'' then (1, r, w - 1) else (1, s1, w));
          ds = takeWhile (\<lambda>c. c \<in> set ''0123456789'') (take w' s2)
      in if ds = [] then None
         else Some (sg * foldl (\<lambda>v c. 10 * v + (int (of_char c) - 48)) 0 ds, drop (length ds) s2))"

definition literal_char :: "char \<Rightarrow> string \<Rightarrow> string option" where
  "literal_char c s = (case s of [] \<Rightarrow> None | x # r \<Rightarrow> if x = c then Some r else None)"

text \<open>
  \<open>get_unixtime_from_timestamp\<close>; the fields a short text does not give are not set. The month counts from 0 and
  the year from 1900.
\<close>

definition get_unixtime_from_timestamp :: "log_env \<Rightarrow> string \<Rightarrow> int outcome" where
  "get_unixtime_from_timestamp env ts =
     (case scan_d 4 ts of None \<Rightarrow> Crash | Some (y, s1) \<Rightarrow>
     case Option.bind (literal_char CHR ''-'' s1) (scan_d 2) of None \<Rightarrow> Crash | Some (mo, s2) \<Rightarrow>
     case Option.bind (literal_char CHR ''-'' s2) (scan_d 2) of None \<Rightarrow> Crash | Some (d, s3) \<Rightarrow>
     case scan_d 2 (dropWhile white s3) of None \<Rightarrow> Crash | Some (h, s4) \<Rightarrow>
     case Option.bind (literal_char CHR '':'' s4) (scan_d 2) of None \<Rightarrow> Crash | Some (mi, s5) \<Rightarrow>
     case Option.bind (literal_char CHR '':'' s5) (scan_d 2) of None \<Rightarrow> Crash | Some (sec, s6) \<Rightarrow>
       Done (le_mktime env (y - 1900) (mo - 1) d h mi sec))"

text \<open>The local variables; \<open>None\<close> is one that was not set.\<close>

record log_request =
  rq_command :: string
  rq_device :: "string option"
  rq_st :: "int option"
  rq_et :: "int option"
  rq_userId :: "nat option"
  rq_logdata :: "string option"

definition no_request :: log_request where
  "no_request = \<lparr>rq_command = [], rq_device = None, rq_st = None, rq_et = None, rq_userId = None, rq_logdata = None\<rparr>"

text \<open>A token copied into an array of \<open>dim\<close> characters.\<close>

definition copy_token :: "log_env \<Rightarrow> nat \<Rightarrow> json_token \<Rightarrow> string outcome" where
  "copy_token env dim t =
     (let str = jstrcpy env (take (jt_len t) (jt_ptr t)) in if length str < dim then Done str else Crash)"

text \<open>One key and its value; \<open>None\<close> for an unknown key.\<close>

definition set_member :: "log_env \<Rightarrow> json_token \<Rightarrow> json_token \<Rightarrow> log_request \<Rightarrow> log_request option outcome" where
  "set_member env k v rq =
     obind (memcmp_start ''command'' (jt_ptr k)) (\<lambda>b. if b then
       obind (copy_token env 128 v) (\<lambda>s. Done (Some (rq\<lparr>rq_command := s\<rparr>))) else
     obind (memcmp_start ''device'' (jt_ptr k)) (\<lambda>b. if b then
       obind (copy_token env 128 v) (\<lambda>s. Done (Some (rq\<lparr>rq_device := Some s\<rparr>))) else
     obind (memcmp_start ''st'' (jt_ptr k)) (\<lambda>b. if b then
       obind (copy_token env 64 v) (\<lambda>s. obind (get_unixtime_from_timestamp env s) (\<lambda>t. Done (Some (rq\<lparr>rq_st := Some t\<rparr>)))) else
     obind (memcmp_start ''et'' (jt_ptr k)) (\<lambda>b. if b then
       obind (copy_token env 64 v) (\<lambda>s. obind (get_unixtime_from_timestamp env s) (\<lambda>t. Done (Some (rq\<lparr>rq_et := Some t\<rparr>)))) else
     obind (memcmp_start ''userId'' (jt_ptr k)) (\<lambda>b. if b then
       obind (copy_token env 32 v) (\<lambda>s.
         Done (Some (case scan_lx (take 8 (dropWhile white s)) of None \<Rightarrow> rq | Some u \<Rightarrow> rq\<lparr>rq_userId := Some u\<rparr>))) else
     obind (memcmp_start ''data'' (jt_ptr k)) (\<lambda>b. if b then
       Done (Some (rq\<lparr>rq_logdata := Some (takeWhile (\<lambda>c. c \<noteq> NUL) (UnquoteJsonString env (take (jt_len v) (jt_ptr v))))\<rparr>))
     else Done None))))))"

text \<open>
  The loop over the members: \<open>ts\<close> are the tokens from \<open>params[i + 1]\<close> on, \<open>n\<close> is \<open>num_desc - i\<close>. \<open>None\<close> is
  \<open>goto EndProc\<close>.
\<close>

fun members :: "log_env \<Rightarrow> int \<Rightarrow> json_token list \<Rightarrow> log_request \<Rightarrow> log_request option outcome" where
  "members env n ts rq =
     (if n \<le> 0 then Done (Some rq)
      else case ts of
          [] \<Rightarrow> Crash
        | [k] \<Rightarrow> if jt_type k \<noteq> JSON_TYPE_STRING then Done None else Crash
        | k # v # ts' \<Rightarrow>
            if jt_type k \<noteq> JSON_TYPE_STRING then Done None
            else obind (set_member env k v rq) (\<lambda>r. case r of None \<Rightarrow> Done None | Some rq' \<Rightarrow> members env (n - 2) ts' rq'))"

declare members.simps [simp del]

datatype log_output = NsSend string | SaveLog string string string

definition log_path :: "string \<Rightarrow> string" where
  "log_path name = ''../db/'' @ name @ ''_vgw128_kt_log.xml''"

text \<open>\<open>LOGLOAD\<close>: the variables are used whether they were set or not; the reply is sent from a block that holds what was written.\<close>

definition log_load :: "log_env \<Rightarrow> bool \<Rightarrow> log_request \<Rightarrow> string \<Rightarrow> log_output list outcome" where
  "log_load env appendNULL rq logdata =
     (case (rq_device rq, rq_userId rq, rq_st rq, rq_et rq) of
        (Some device, Some userId, Some st, Some et) \<Rightarrow>
          if length logdata \<ge> 1024 then Crash
          else
            (let head = ''dbmanager '' @ percent_08lx userId @ '' '' @ device @ '' '';
                 tz = GET_SECEAST_NS env;
                 (len, text) = LoadLog env (log_path device) (log_path ''def'')
                   (HB_LOGDATA_LEN_MAX env - 2 * int (length head)) (st + tz) (et + tz) logdata;
                 k = nat (int (length head) + (if len = -1 then 0 else len) + (if appendNULL then 1 else 0));
                 block = head @ text @ [NUL]
             in if k > length block then Crash else Done [NsSend (take k block)])
      | _ \<Rightarrow> Crash)"

definition proc_LOG_service :: "log_env \<Rightarrow> string \<Rightarrow> bool \<Rightarrow> log_output list outcome" where
  "proc_LOG_service env data appendNULL =
     (if data = [] then Crash
      else
        (let str = (if last data \<noteq> NUL then data else butlast data);
             (n, toks) = parse_json env str;
             params = take 32 (toks @ replicate 32 zero_token);
             p0 = hd params
         in if n \<le> 0 then Done []
            else if jt_type p0 = JSON_TYPE_OBJECT \<and> jt_num_desc p0 \<ge> 6 then
              obind (members env (jt_num_desc p0) (tl params) no_request) (\<lambda>r.
                case r of
                  None \<Rightarrow> Done []
                | Some rq \<Rightarrow>
                    (case rq_logdata rq of
                       None \<Rightarrow> Done []
                     | Some logdata \<Rightarrow>
                         if rq_command rq = ''LOGLOAD'' then log_load env appendNULL rq logdata
                         else if rq_command rq = ''LOGSAVE'' then
                           (case rq_device rq of
                              None \<Rightarrow> Crash
                            | Some device \<Rightarrow> Done [SaveLog (log_path device) (log_path ''def'') logdata])
                         else Done []))
            else Done []))"

text \<open>\<open>OnTCPLogServDataReceived\<close> (with \<open>appendNULL\<close>) and \<open>OnUDPLogServDataReceived\<close> (without).\<close>

definition OnLogServDataReceived :: "log_env \<Rightarrow> bool \<Rightarrow> string \<Rightarrow> log_output list outcome" where
  "OnLogServDataReceived env appendNULL data =
     obind (memcmp_start ''{'' data) (\<lambda>b.
       if b \<or> hd data = CHR ''['' then proc_LOG_service env data appendNULL
       else obind (memcmp_start ''PING'' data) (\<lambda>p. Done [NsSend (if p then ''PONG'' @ [NUL] else data)]))"

section \<open>Connections\<close>

datatype ns_event =
    NS_ACCEPT bool         \<comment> \<open>whether \<open>calloc\<close> succeeds\<close>
  | NS_RECV string
  | NS_CLOSE
  | NS_POLL

fun serve_all :: "(string \<Rightarrow> log_output list outcome) \<Rightarrow> string list \<Rightarrow> log_output list outcome" where
  "serve_all serve [] = Done []"
| "serve_all serve (m # ms) = obind (serve m) (\<lambda>os. obind (serve_all serve ms) (\<lambda>os'. Done (os @ os')))"

text \<open>\<open>logServ_TCP_ev_handler\<close>; the state is the buffer behind \<open>nc->user_data\<close>.\<close>

fun logServ_TCP_ev_handler ::
    "nat \<Rightarrow> (string \<Rightarrow> int) \<Rightarrow> (string \<Rightarrow> bool) \<Rightarrow> (string \<Rightarrow> log_output list outcome) \<Rightarrow> ns_event \<Rightarrow> string option \<Rightarrow>
     (string option \<times> log_output list) outcome" where
  "logServ_TCP_ev_handler cap countNull term serve (NS_ACCEPT ok) cp = (if ok then Done (Some [], []) else Crash)"
| "logServ_TCP_ev_handler cap countNull term serve (NS_RECV io) cp =
     (case cp of
        None \<Rightarrow> Crash
      | Some tcp \<Rightarrow>
          obind (tcp_received cap countNull term io tcp) (\<lambda>(t, ms). obind (serve_all serve ms) (\<lambda>os. Done (Some t, os))))"
| "logServ_TCP_ev_handler cap countNull term serve NS_CLOSE cp = Done (None, [])"
| "logServ_TCP_ev_handler cap countNull term serve NS_POLL cp = Done (cp, [])"

fun tcp_events ::
    "nat \<Rightarrow> (string \<Rightarrow> int) \<Rightarrow> (string \<Rightarrow> bool) \<Rightarrow> (string \<Rightarrow> log_output list outcome) \<Rightarrow> ns_event list \<Rightarrow> string option \<Rightarrow>
     (string option \<times> log_output list) outcome" where
  "tcp_events cap countNull term serve [] cp = Done (cp, [])"
| "tcp_events cap countNull term serve (e # es) cp =
     obind (logServ_TCP_ev_handler cap countNull term serve e cp) (\<lambda>(cp1, os).
       obind (tcp_events cap countNull term serve es cp1) (\<lambda>(cp2, os'). Done (cp2, os @ os')))"

text \<open>\<open>logServ_UDP_ev_handler\<close>: every datagram is a request.\<close>

fun logServ_UDP_ev_handler :: "log_env \<Rightarrow> ns_event \<Rightarrow> log_output list outcome" where
  "logServ_UDP_ev_handler env (NS_RECV io) = OnLogServDataReceived env False io"
| "logServ_UDP_ev_handler env e = Done []"

end
