(* ===== verification/Log_Server_Laws.thy ===== *)
theory Log_Server_Laws
  imports Log_Server
begin

text \<open>
  What holds of the log server: a stream is cut at its zero bytes whatever pieces it arrives in, as long as the requests
  fit the buffer of the connection; what happens to one that does not; and how a log entry is saved.
\<close>

section \<open>The stream cut at its zero bytes\<close>

text \<open>The specification: the stream cut behind every zero byte.\<close>

abbreviation nul_split :: "string \<Rightarrow> string \<Rightarrow> string \<times> string list" where
  "nul_split \<equiv> split_after NUL"

definition count_nul :: "string \<Rightarrow> int" where
  "count_nul s = int (length (filter (\<lambda>c. c = NUL) s))"

definition ends_with_nul :: "string \<Rightarrow> bool" where
  "ends_with_nul s \<longleftrightarrow> s \<noteq> [] \<and> last s = NUL"

lemma split_at_nul:
  assumes "NUL \<in> set s"
  obtains a r where "s = a @ NUL # r" "NUL \<notin> set a" "takeWhile (\<lambda>c. c \<noteq> NUL) s = a"
proof -
  let ?a = "takeWhile (\<lambda>c. c \<noteq> NUL) s"
  have "dropWhile (\<lambda>c. c \<noteq> NUL) s \<noteq> []" using assms by (simp add: dropWhile_eq_Nil_conv)
  then obtain c r where r: "dropWhile (\<lambda>c. c \<noteq> NUL) s = c # r" by (cases "dropWhile (\<lambda>c. c \<noteq> NUL) s") auto
  then have "c = NUL" by (simp add: dropWhile_eq_Cons_conv)
  with r have "s = ?a @ NUL # r" by (metis takeWhile_dropWhile_id)
  moreover have "NUL \<notin> set ?a" by (auto dest: set_takeWhileD)
  ultimately show ?thesis using that by blast
qed

lemma count_nul_zero: "NUL \<notin> set s \<Longrightarrow> count_nul s = 0"
  unfolding count_nul_def by (induction s) auto

lemma not_ends_with_nul: "NUL \<notin> set s \<Longrightarrow> \<not> ends_with_nul s"
  unfolding ends_with_nul_def using last_in_set by metis

lemma null_requests_split:
  "count_nul io = int n \<Longrightarrow> n > 0 \<Longrightarrow> \<forall>m \<in> set (snd (nul_split io tcp)). length m \<le> cap \<Longrightarrow>
   null_requests cap ends_with_nul n io tcp = Done ([], Some (fst (nul_split io tcp)), snd (nul_split io tcp))"
proof (induction n arbitrary: io tcp)
  case (Suc m)
  have "NUL \<in> set io" using Suc.prems(1) count_nul_zero [of io] by fastforce
  then obtain a r where io: "io = a @ NUL # r" "NUL \<notin> set a" and tw: "takeWhile (\<lambda>c. c \<noteq> NUL) io = a"
    by (rule split_at_nul)
  have none: "filter (\<lambda>c. c = NUL) a = []" using io(2) by (auto simp: filter_empty_conv)
  have cnt: "count_nul r = int m" using Suc.prems(1) none by (simp add: io(1) count_nul_def)
  note sp = split_after_first [OF io(2)]
  have fits: "length tcp + length (a @ [NUL]) \<le> cap" and rest: "\<forall>m \<in> set (snd (nul_split r [])). length m \<le> cap"
    using Suc.prems(3) by (simp_all add: io(1) sp)
  have closed: "ends_with_nul (tcp @ a @ [NUL])" by (simp add: ends_with_nul_def)
  have dr: "drop (length (a @ [NUL])) io = r" by (simp add: io(1))
  show ?case
  proof (cases m)
    case 0
    with cnt have "NUL \<notin> set r" by (auto simp: count_nul_def filter_empty_conv)
    then show ?thesis
      using fits closed by (subst null_requests.simps) (simp add: 0 tw dr Let_def, simp add: io(1) sp split_after_none)
  next
    case (Suc k)
    with cnt have "r \<noteq> []" by (auto simp: count_nul_def)
    moreover have "null_requests cap ends_with_nul m r [] = Done ([], Some (fst (nul_split r [])), snd (nul_split r []))"
      using Suc.IH [OF cnt _ rest] Suc by simp
    ultimately show ?thesis
      using fits closed by (subst null_requests.simps) (simp add: Suc tw dr Let_def, simp add: io(1) sp)
  qed
qed simp

lemma tcp_received_split:
  assumes "NUL \<notin> set tcp" and "\<forall>m \<in> set (snd (nul_split io tcp)). length m \<le> cap"
    and "length (fst (nul_split io tcp)) \<le> cap"
  shows "tcp_received cap count_nul ends_with_nul io tcp = Done (nul_split io tcp)"
proof (cases "NUL \<in> set io")
  case True
  then have "count_nul io \<ge> 1" by (auto simp: count_nul_def filter_empty_conv neq_Nil_conv Suc_le_eq)
  moreover from this have "null_requests cap ends_with_nul (nat (count_nul io)) io tcp =
      Done ([], Some (fst (nul_split io tcp)), snd (nul_split io tcp))"
    using assms(2) by (intro null_requests_split) auto
  ultimately show ?thesis using assms(3) by (auto simp: tcp_received_def prod_eq_iff)
next
  case False
  then have "count_nul io = 0" by (rule count_nul_zero)
  moreover have "\<not> ends_with_nul (tcp @ io)" using False assms(1) by (intro not_ends_with_nul) simp
  ultimately show ?thesis using assms(3) False by (simp add: tcp_received_def split_after_none)
qed



section \<open>Properties\<close>



text \<open>A request that does not fit is dropped, but only what has arrived: what comes behind it up to its zero byte
  is served as a request of its own.\<close>

lemma oversized_request_tail_is_served:
  assumes "NUL \<notin> set a" and "NUL \<notin> set b" and "NUL \<notin> set c"
    and "length a \<le> cap" and "length a + length b > cap" and "length c < cap"
  shows "tcp_events cap count_nul ends_with_nul serve
      [NS_ACCEPT True, NS_RECV a, NS_RECV b, NS_RECV (c @ [NUL])] cp =
    obind (serve (c @ [NUL])) (\<lambda>os. Done (Some [], os))"
proof -
  have a: "tcp_received cap count_nul ends_with_nul a [] = Done (a, [])"
    using tcp_received_split [of "[]" a cap] assms(1,4) by (simp add: split_after_none)
  have b: "tcp_received cap count_nul ends_with_nul b a = Done ([], [])"
    using assms(5) by (simp add: tcp_received_def count_nul_zero [OF assms(2)])
  have c: "tcp_received cap count_nul ends_with_nul (c @ [NUL]) [] = Done ([], [c @ [NUL]])"
    using tcp_received_split [of "[]" "c @ [NUL]" cap] assms(6) split_after_first [OF assms(3), of "[]" "[]"] by simp
  show ?thesis by (cases "serve (c @ [NUL])") (simp_all add: a b c)
qed

lemma oversized_request_tail_is_served_witness:
  "tcp_events 6 count_nul ends_with_nul (OnLogServDataReceived env True)
      [NS_ACCEPT True, NS_RECV ''long'', NS_RECV ''long'', NS_RECV (''PING'' @ [NUL])] None =
    Done (Some [], [NsSend (''PONG'' @ [NUL])])"
  using oversized_request_tail_is_served [of "''long''" "''long''" "''PING''" 6 "OnLogServDataReceived env True" None]
  by (simp add: OnLogServDataReceived_def)

lemma no_nul_takeWhile: "NUL \<notin> set d \<Longrightarrow> takeWhile (\<lambda>c. c \<noteq> NUL) d = d"
  by (induction d) auto

lemma set_member_LOGSAVE:
  "jt_ptr k = ''command'' @ x \<Longrightarrow> jstrcpy env (take (jt_len v) (jt_ptr v)) = ''LOGSAVE'' \<Longrightarrow>
   set_member env k v rq = Done (Some (rq\<lparr>rq_command := ''LOGSAVE''\<rparr>))"
  "jt_ptr k = ''device'' @ x \<Longrightarrow> jstrcpy env (take (jt_len v) (jt_ptr v)) = dev \<Longrightarrow> length dev < 128 \<Longrightarrow>
   set_member env k v rq = Done (Some (rq\<lparr>rq_device := Some dev\<rparr>))"
  "jt_ptr k = ''data'' @ x \<Longrightarrow> UnquoteJsonString env (take (jt_len v) (jt_ptr v)) = d \<Longrightarrow> NUL \<notin> set d \<Longrightarrow>
   set_member env k v rq = Done (Some (rq\<lparr>rq_logdata := Some d\<rparr>))"
  by (simp_all add: set_member_def copy_token_def no_nul_takeWhile)

lemma members_Cons:
  "n > 0 \<Longrightarrow> jt_type k = JSON_TYPE_STRING \<Longrightarrow> set_member env k v rq = Done (Some rq') \<Longrightarrow>
   members env n (k # v # ts) rq = members env (n - 2) ts rq'"
  by (subst members.simps) simp

lemma members_end: "members env 0 ts rq = Done (Some rq)"
  by (subst members.simps) simp

lemma members_three:
  assumes "\<forall>(k, v) \<in> {(k1, v1), (k2, v2), (k3, v3)}. jt_type k = JSON_TYPE_STRING"
    and "set_member env k1 v1 rq = Done (Some r1)" "set_member env k2 v2 r1 = Done (Some r2)"
    and "set_member env k3 v3 r2 = Done (Some r3)"
  shows "members env 6 ([k1, v1, k2, v2, k3, v3] @ ts) rq = Done (Some r3)"
  using assms by (simp add: members_Cons [where v = v1] members_Cons [where v = v2] members_Cons [where v = v3] members_end)

lemma three_in_any_order:
  assumes "{p, q, r} = {a, b, c}" and "a \<noteq> b" and "a \<noteq> c" and "b \<noteq> c"
  shows "(p, q, r) \<in> {(a, b, c), (a, c, b), (b, a, c), (b, c, a), (c, a, b), (c, b, a)}"
proof -
  have mem: "p \<in> {a, b, c}" "q \<in> {a, b, c}" "r \<in> {a, b, c}" "a \<in> {p, q, r}" "b \<in> {p, q, r}" "c \<in> {p, q, r}"
    using assms(1) by blast+
  show ?thesis using mem(1)
  proof (elim insertE emptyE)
    assume "p = a" with mem assms(2-) show ?thesis by auto
  next
    assume "p = b" with mem assms(2-) show ?thesis by auto
  next
    assume "p = c" with mem assms(2-) show ?thesis by auto
  qed
qed

text \<open>A request to save a log entry is obeyed in whatever order its members come: the unquoted data goes to the file
  of the device.\<close>

lemma log_save_in_any_order:
  assumes "data = CHR ''{'' # req @ [NUL]"
    and parsed: "parse_json env (CHR ''{'' # req) = (n, p0 # concat (map (\<lambda>(k, v). [k, v]) ps))" "n > 0"
    and p0: "jt_type p0 = JSON_TYPE_OBJECT" "jt_num_desc p0 = 6"
    and ps: "length ps = 3" "set ps = {(kc, vc), (kd, vd), (kx, vx)}" "\<forall>(k, v) \<in> set ps. jt_type k = JSON_TYPE_STRING"
    and kc: "jt_ptr kc = ''command'' @ c" "jstrcpy env (take (jt_len vc) (jt_ptr vc)) = ''LOGSAVE''"
    and kd: "jt_ptr kd = ''device'' @ e" "jstrcpy env (take (jt_len vd) (jt_ptr vd)) = dev" "length dev < 128"
    and kx: "jt_ptr kx = ''data'' @ x" "UnquoteJsonString env (take (jt_len vx) (jt_ptr vx)) = d" "NUL \<notin> set d"
  shows "OnLogServDataReceived env appendNULL data = Done [SaveLog (log_path dev) (log_path ''def'') d]"
proof -
  have ne: "kc \<noteq> kd" "kc \<noteq> kx" "kd \<noteq> kx" using kc(1) kd(1) kx(1) by auto
  obtain p1 p2 p3 where ps3: "ps = [p1, p2, p3]" using ps(1) by (auto simp: length_Suc_conv numeral_3_eq_3)
  have mem: "(p1, p2, p3) \<in> {((kc, vc), (kd, vd), (kx, vx)), ((kc, vc), (kx, vx), (kd, vd)), ((kd, vd), (kc, vc), (kx, vx)),
      ((kd, vd), (kx, vx), (kc, vc)), ((kx, vx), (kc, vc), (kd, vd)), ((kx, vx), (kd, vd), (kc, vc))}"
    using ps(2) ne unfolding ps3 by (intro three_in_any_order) simp_all
  have ty: "jt_type kc = JSON_TYPE_STRING" "jt_type kd = JSON_TYPE_STRING" "jt_type kx = JSON_TYPE_STRING"
    using ps(2,3) by auto
  note sm = set_member_LOGSAVE(1) [OF kc] set_member_LOGSAVE(2) [OF kd] set_member_LOGSAVE(3) [OF kx]
  let ?rq = "\<lparr>rq_command = ''LOGSAVE'', rq_device = Some dev, rq_st = None, rq_et = None, rq_userId = None, rq_logdata = Some d\<rparr>"
  have "members env 6 ([fst p1, snd p1, fst p2, snd p2, fst p3, snd p3] @ ts) no_request = Done (Some ?rq)" for ts
    using mem ty by (elim insertE emptyE; intro members_three) (simp_all add: sm no_request_def, simp_all)
  then have m: "members env 6 (concat (map (\<lambda>(k, v). [k, v]) ps) @ ts) no_request = Done (Some ?rq)" for ts
    by (simp add: ps3 case_prod_beta)
  have "length (concat (map (\<lambda>(k, v). [k, v]) ps)) = 6" by (simp add: ps3 case_prod_beta)
  then have "take 32 ((p0 # concat (map (\<lambda>(k, v). [k, v]) ps)) @ replicate 32 zero_token) =
      p0 # concat (map (\<lambda>(k, v). [k, v]) ps) @ replicate 25 zero_token" by simp
  then have "proc_LOG_service env data appendNULL = Done [SaveLog (log_path dev) (log_path ''def'') d]"
    using parsed(2) p0 unfolding proc_LOG_service_def assms(1)
    by (simp add: parsed(1) m del: append.simps replicate.simps take_append)
  then show ?thesis by (simp add: OnLogServDataReceived_def assms(1))
qed

definition demo_key :: "string \<Rightarrow> json_token" where
  "demo_key s = \<lparr>jt_type = JSON_TYPE_STRING, jt_ptr = s @ ''\"'', jt_len = length s, jt_num_desc = 0\<rparr>"

definition demo_env :: log_env where
  "demo_env = \<lparr>parse_json = (\<lambda>_. (7, \<lparr>jt_type = JSON_TYPE_OBJECT, jt_ptr = [], jt_len = 0, jt_num_desc = 6\<rparr> #
       map demo_key [''data'', ''started'', ''device'', ''gw1'', ''command'', ''LOGSAVE''])),
     jstrcpy = (\<lambda>s. s), UnquoteJsonString = (\<lambda>s. s), le_mktime = (\<lambda>_ _ _ _ _ _. 0), GET_SECEAST_NS = 0,
     LoadLog = (\<lambda>_ _ _ _ _ _. (0, [])), HB_LOGDATA_LEN_MAX = 1000\<rparr>"

lemma log_save_in_any_order_witness:
  "OnLogServDataReceived demo_env True (''{...}'' @ [NUL]) =
     Done [SaveLog ''../db/gw1_vgw128_kt_log.xml'' ''../db/def_vgw128_kt_log.xml'' ''started'']"
  using log_save_in_any_order [of "''{...}'' @ [NUL]" "''...}''" demo_env 7
      "\<lparr>jt_type = JSON_TYPE_OBJECT, jt_ptr = [], jt_len = 0, jt_num_desc = 6\<rparr>"
      "[(demo_key ''data'', demo_key ''started''), (demo_key ''device'', demo_key ''gw1''), (demo_key ''command'', demo_key ''LOGSAVE'')]"
      "demo_key ''command''" "demo_key ''LOGSAVE''" "demo_key ''device''" "demo_key ''gw1''"
      "demo_key ''data''" "demo_key ''started''" "''\"''" "''\"''" "''gw1''" "''\"''" "''started''" True]
  by (auto simp: demo_env_def demo_key_def log_path_def)

end
