(* ===== verification/Netcat.thy ===== *)
theory Netcat
  imports Websock
begin

text \<open>
  The netcat utility etc/nc.c: its options, the thread that reads the standard input, the buffer in which the
  input is collected, and the event handler. The network library calls \<open>on_stdin_read\<close> for every connection it
  has when the thread broadcasts a character; the connections it has at that time are an argument.
\<close>

section \<open>Options\<close>

record nc_options =
  is_listening :: bool
  b_useRx :: bool
  b_useTx :: bool
  b_srvMode :: bool
  b_wsMode :: bool
  g_bufferedSend :: bool
  g_recvTimeout :: int
  g_closeDelay :: int
  g_destAddr :: "string option"
  hexdump_file :: "string option"

definition nc_defaults :: nc_options where
  "nc_defaults = \<lparr>is_listening = False, b_useRx = True, b_useTx = True, b_srvMode = False, b_wsMode = False,
     g_bufferedSend = True, g_recvTimeout = 0, g_closeDelay = 0, g_destAddr = None, hexdump_file = None\<rparr>"

definition decimal_digit :: "char \<Rightarrow> bool" where
  "decimal_digit c \<longleftrightarrow> c \<in> set ''0123456789''"

text \<open>\<open>atoi\<close>\<close>

definition nc_atoi :: "string \<Rightarrow> int" where
  "nc_atoi s =
     (let s1 = dropWhile (\<lambda>c. c = CHR '' '' \<or> c \<in> {CHR 0x09, CHR 0x0A, CHR 0x0B, CHR 0x0C, CHR 0x0D}) s;
          (sg, s2) = (case s1 of [] \<Rightarrow> (1, s1)
             | c # r \<Rightarrow> if c = CHR ''-'' then (-1, r) else if c = CHR ''+'' then (1, r) else (1, s1))
      in sg * foldl (\<lambda>v c. 10 * v + (int (of_char c) - 48)) 0 (takeWhile decimal_digit s2))"

text \<open>
  The loop over the options: the options and the arguments left, \<open>None\<close> when the usage is shown and the program ends. An
  option that wants a value and has none is an unknown one.
\<close>

fun nc_parse :: "string list \<Rightarrow> nc_options \<Rightarrow> (nc_options \<times> string list) option" where
  "nc_parse [] opt = Some (opt, [])"
| "nc_parse (a # as) opt =
     (if a = [] \<or> hd a \<noteq> CHR ''-'' then Some (opt, a # as)
      else if a = ''-l'' then nc_parse as (opt\<lparr>is_listening := True, b_useRx := True, b_useTx := False\<rparr>)
      else if a = ''-A'' \<and> as \<noteq> [] then
        nc_parse (tl as) (opt\<lparr>is_listening := True, b_useRx := True, b_useTx := True, g_destAddr := Some (hd as)\<rparr>)
      else if a = ''-t'' \<and> as \<noteq> [] then
        nc_parse (tl as) (opt\<lparr>is_listening := True, b_useRx := False, b_useTx := True, g_destAddr := Some (hd as)\<rparr>)
      else if a = ''-L'' then nc_parse as (opt\<lparr>is_listening := True, b_useRx := True, b_useTx := True\<rparr>)
      else if a = ''-r'' then nc_parse as (opt\<lparr>is_listening := True, b_useRx := True, b_useTx := False\<rparr>)
      else if a = ''-T'' then nc_parse as (opt\<lparr>is_listening := False, b_useRx := False, b_useTx := True\<rparr>)
      else if a = ''-c'' then nc_parse as (opt\<lparr>is_listening := False, b_useRx := False, b_useTx := True\<rparr>)
      else if a = ''-s'' then nc_parse as (opt\<lparr>b_srvMode := True\<rparr>)
      else if a = ''-W'' then nc_parse as (opt\<lparr>b_wsMode := True\<rparr>)
      else if a = ''-C'' then nc_parse as (opt\<lparr>g_bufferedSend := False\<rparr>)
      else if a = ''-w'' \<and> as \<noteq> [] then nc_parse (tl as) (opt\<lparr>g_recvTimeout := nc_atoi (hd as)\<rparr>)
      else if a = ''-q'' \<and> as \<noteq> [] then nc_parse (tl as) (opt\<lparr>g_closeDelay := nc_atoi (hd as)\<rparr>)
      else if a = ''-d'' \<and> as \<noteq> [] then nc_parse (tl as) (opt\<lparr>hexdump_file := Some (hd as)\<rparr>)
      else None)"

text \<open>What \<open>main\<close> does with them: the address to serve, listen on or connect to, or \<open>None\<close> for the usage.\<close>

datatype nc_mode = Serve string | Listen string "string option" | Connect string

definition nc_main_mode :: "string list \<Rightarrow> (nc_options \<times> nc_mode) option" where
  "nc_main_mode argv =
     (case nc_parse argv nc_defaults of
        None \<Rightarrow> None
      | Some (opt, rest) \<Rightarrow>
          if b_srvMode opt then Some (opt, Serve (case rest of [a] \<Rightarrow> a | _ \<Rightarrow> ''9001''))
          else (case rest of
              [a] \<Rightarrow> Some (opt, if is_listening opt then Listen a (g_destAddr opt) else Connect a)
            | _ \<Rightarrow> None))"

section \<open>The standard input\<close>

text \<open>
  \<open>Buf\<close> and \<open>BufPos\<close> are one list; \<open>nc_sent\<close> are the calls of \<open>ns_send\<close>, with the connection, \<open>nc_out\<close> is what was written
  to the standard output, and \<open>nc_threads\<close> counts the threads that read the standard input.
\<close>

type_synonym conn = nat

record nc_state =
  nc_Buf :: "u8 list"
  nc_sent :: "(conn \<times> u8 list) list"
  nc_out :: "u8 list"
  s_received_signal :: bool
  g_afterRecv :: bool
  nc_eof :: bool
  nc_threads :: nat

definition nc_init :: nc_state where
  "nc_init = \<lparr>nc_Buf = [], nc_sent = [], nc_out = [], s_received_signal = False, g_afterRecv = False, nc_eof = False,
     nc_threads = 0\<rparr>"

definition isWSpacket :: "ws_config \<Rightarrow> u8 list \<Rightarrow> bool outcome" where
  "isWSpacket cfg w = obind (decodeWebSockMsg cfg w) (\<lambda>r. Done (ws_ret r \<ge> 0))"

text \<open>\<open>on_stdin_read\<close> for one connection; \<open>None\<close> is the character -1 that asks for a flush.\<close>

definition on_stdin_read :: "ws_config \<Rightarrow> nc_options \<Rightarrow> u8 option \<Rightarrow> conn \<Rightarrow> nc_state \<Rightarrow> nc_state outcome" where
  "on_stdin_read cfg opt ch nc s =
     (case ch of
        None \<Rightarrow>
          Done (if g_bufferedSend opt \<and> nc_Buf s \<noteq> [] then s\<lparr>nc_Buf := [], nc_sent := nc_sent s @ [(nc, nc_Buf s)]\<rparr> else s)
      | Some c \<Rightarrow>
          if g_bufferedSend opt then
            if length (nc_Buf s) \<ge> 65536 then Crash
            else
              (let buf = nc_Buf s @ [c]
               in obind (if b_wsMode opt then isWSpacket cfg buf else Done (c = 0x0A)) (\<lambda>flush.
                    Done (if flush then s\<lparr>nc_Buf := [], nc_sent := nc_sent s @ [(nc, buf)]\<rparr> else s\<lparr>nc_Buf := buf\<rparr>)))
          else Done (s\<lparr>nc_sent := nc_sent s @ [(nc, [c])]\<rparr>))"

text \<open>\<open>ns_broadcast\<close> on the connections there are.\<close>

fun ns_broadcast :: "ws_config \<Rightarrow> nc_options \<Rightarrow> u8 option \<Rightarrow> conn list \<Rightarrow> nc_state \<Rightarrow> nc_state outcome" where
  "ns_broadcast cfg opt ch [] s = Done s"
| "ns_broadcast cfg opt ch (nc # ncs) s = obind (on_stdin_read cfg opt ch nc s) (ns_broadcast cfg opt ch ncs)"

section \<open>The program\<close>

text \<open>
  What happens in order: the thread reads a character or the end of the input, or looks again whether it may
  end; a connection is made, receives data or is closed; a signal comes; \<open>main\<close> goes round its loop.
\<close>

datatype nc_event = Stdin u8 | StdinEof | ThreadLooks | Connected | Received "u8 list" | Closed | Signal

fun nc_step :: "ws_config \<Rightarrow> nc_options \<Rightarrow> conn list \<Rightarrow> nc_event \<Rightarrow> nc_state \<Rightarrow> nc_state outcome" where
  "nc_step cfg opt conns (Stdin c) s = ns_broadcast cfg opt (Some c) conns s"
| "nc_step cfg opt conns StdinEof s =
     obind (if g_bufferedSend opt \<and> nc_Buf s \<noteq> [] then ns_broadcast cfg opt None conns s else Done s) (\<lambda>s1.
       Done (s1\<lparr>nc_eof := True\<rparr>))"
| "nc_step cfg opt conns ThreadLooks s =
     Done (if nc_eof s \<and> \<not> (b_useRx opt \<and> \<not> g_afterRecv s) then s\<lparr>s_received_signal := True\<rparr> else s)"
| "nc_step cfg opt conns Connected s = Done (s\<lparr>nc_threads := nc_threads s + 1\<rparr>)"
| "nc_step cfg opt conns (Received d) s = Done (s\<lparr>nc_out := nc_out s @ d, g_afterRecv := True\<rparr>)"
| "nc_step cfg opt conns Closed s = Done (s\<lparr>s_received_signal := True\<rparr>)"
| "nc_step cfg opt conns Signal s = Done (s\<lparr>s_received_signal := True\<rparr>)"

fun nc_steps :: "ws_config \<Rightarrow> nc_options \<Rightarrow> conn list \<Rightarrow> nc_event list \<Rightarrow> nc_state \<Rightarrow> nc_state outcome" where
  "nc_steps cfg opt conns [] s = Done s"
| "nc_steps cfg opt conns (e # es) s = obind (nc_step cfg opt conns e s) (nc_steps cfg opt conns es)"

text \<open>\<open>main\<close> starts a thread itself when it listens and sends; its loop ends on a signal, or after data for a receiver only.\<close>

definition nc_start :: "nc_options \<Rightarrow> nc_state \<Rightarrow> nc_state" where
  "nc_start opt s = (if is_listening opt \<and> b_useTx opt then s\<lparr>nc_threads := nc_threads s + 1\<rparr> else s)"

definition nc_ended :: "nc_options \<Rightarrow> nc_state \<Rightarrow> bool" where
  "nc_ended opt s \<longleftrightarrow> s_received_signal s \<or> \<not> b_useTx opt \<and> g_afterRecv s"

section \<open>Lemmas\<close>

lemma nc_steps_append:
  "nc_steps cfg opt conns (es @ es') s = obind (nc_steps cfg opt conns es s) (nc_steps cfg opt conns es')"
proof (induction es arbitrary: s)
  case (Cons e es)
  then show ?case by (cases "nc_step cfg opt conns e s") auto
qed simp

text \<open>Text on one connection.\<close>

lemma nc_steps_lines:
  assumes "g_bufferedSend opt" and "\<not> b_wsMode opt"
  shows "0x0A \<notin> set (nc_Buf s) \<Longrightarrow> \<forall>m \<in> set (snd (split_after 0x0A cs (nc_Buf s))). length m \<le> 65536 \<Longrightarrow>
    length (fst (split_after 0x0A cs (nc_Buf s))) \<le> 65536 \<Longrightarrow>
    nc_steps cfg opt [nc] (map Stdin cs) s =
      Done (s\<lparr>nc_Buf := fst (split_after 0x0A cs (nc_Buf s)),
        nc_sent := nc_sent s @ map (Pair nc) (snd (split_after 0x0A cs (nc_Buf s)))\<rparr>)"
proof (induction cs arbitrary: s)
  case (Cons c cs)
  let ?s = "if c = 0x0A then s\<lparr>nc_Buf := [], nc_sent := nc_sent s @ [(nc, nc_Buf s @ [c])]\<rparr> else s\<lparr>nc_Buf := nc_Buf s @ [c]\<rparr>"
  have "Suc (length (nc_Buf s)) \<le> 65536"
    using length_split_after_mono [of "nc_Buf s @ [c]" "0x0A" cs] Cons.prems(2,3)
    by (cases "c = 0x0A") (auto simp: case_prod_beta Let_def dest: le_trans)
  then have step: "nc_step cfg opt [nc] (Stdin c) s = Done ?s"
    using assms by (simp add: on_stdin_read_def)
  show ?case
  proof (cases "c = 0x0A")
    case True
    then show ?thesis using Cons.IH [of ?s] Cons.prems step by (simp add: case_prod_beta Let_def del: nc_step.simps)
  next
    case False
    then show ?thesis using Cons.IH [of ?s] Cons.prems step by (simp add: case_prod_beta Let_def del: nc_step.simps)
  qed
qed simp



lemma ns_broadcast_two:
  assumes "g_bufferedSend opt" and "\<not> b_wsMode opt" and "c \<noteq> 0x0A" and "length (nc_Buf s) < 65535"
  shows "ns_broadcast cfg opt (Some c) [n1, n2] s = Done (s\<lparr>nc_Buf := nc_Buf s @ [c, c]\<rparr>)"
  using assms by (simp add: on_stdin_read_def Let_def)

section \<open>Properties\<close>

text \<open>On one connection the text read from the standard input is sent line by line, complete and in order, and what
  has no newline at the end is sent when the input ends; lines, and that rest, of at most 65536 characters.\<close>

lemma nc_sends_lines:
  assumes "g_bufferedSend opt" and "\<not> b_wsMode opt"
    and "\<forall>m \<in> set (snd (split_after 0x0A cs [])). length m \<le> 65536" and "length (fst (split_after 0x0A cs [])) \<le> 65536"
  shows "\<exists>s. nc_steps cfg opt [nc] (map Stdin cs @ [StdinEof]) nc_init = Done s \<and>
     nc_sent s = map (Pair nc) (snd (split_after 0x0A cs []) @
       (if fst (split_after 0x0A cs []) = [] then [] else [fst (split_after 0x0A cs [])])) \<and>
     concat (map snd (nc_sent s)) = cs \<and> nc_eof s"
proof -
  have all: "concat (snd (split_after x cs l)) @ fst (split_after x cs l) = l @ cs" for x l
    by (induction x cs l rule: split_after.induct) (auto simp: case_prod_beta Let_def)
  have "nc_steps cfg opt [nc] (map Stdin cs) nc_init =
      Done (nc_init\<lparr>nc_Buf := fst (split_after 0x0A cs []), nc_sent := map (Pair nc) (snd (split_after 0x0A cs []))\<rparr>)"
    using nc_steps_lines [OF assms(1,2), of nc_init cs cfg nc] assms(3,4) by (simp add: nc_init_def)
  then show ?thesis
    using assms(1) all [of "0x0A" "[]"] by (auto simp: nc_steps_append on_stdin_read_def nc_init_def comp_def)
qed

lemma nc_sends_lines_witness:
  "\<exists>s. nc_steps \<lparr>USE_WEBSOCK_LONG_DATA = True, WEBSOCK_MSKLEN = 4, WEBSOCK_MAXLEN = 125\<rparr> nc_defaults [1] (map Stdin [0x61, 0x0A, 0x62] @ [StdinEof]) nc_init = Done s \<and>
     nc_sent s = [(1, [0x61, 0x0A]), (1, [0x62])]"
  using nc_sends_lines [of nc_defaults "[0x61, 0x0A, 0x62]" "\<lparr>USE_WEBSOCK_LONG_DATA = True, WEBSOCK_MSKLEN = 4, WEBSOCK_MAXLEN = 125\<rparr>" 1] by (auto simp: nc_defaults_def)



text \<open>The buffer of the input is shared by all connections, and every character is put there once for each: with two
  of them a line arrives doubled at the first, and an empty line at the second.\<close>

lemma nc_two_connections_double_characters:
  assumes "g_bufferedSend opt" and "\<not> b_wsMode opt" and "0x0A \<notin> set l" and "length l < 32768"
  shows "\<exists>s. nc_steps cfg opt [n1, n2] (map Stdin (l @ [0x0A])) nc_init = Done s \<and>
     nc_sent s = [(n1, concat (map (\<lambda>c. [c, c]) l) @ [0x0A]), (n2, [0x0A])]"
proof -
  have len: "length (concat (map (\<lambda>c. [c, c]) l)) = 2 * length l" for l :: "u8 list" by (induction l) simp_all
  have "nc_steps cfg opt [n1, n2] (map Stdin l) s = Done (s\<lparr>nc_Buf := nc_Buf s @ concat (map (\<lambda>c. [c, c]) l)\<rparr>)"
    if "length (nc_Buf s) + 2 * length l < 65536" "0x0A \<notin> set l" for s l
    using that
  proof (induction l arbitrary: s)
    case (Cons c l)
    have "nc_step cfg opt [n1, n2] (Stdin c) s = Done (s\<lparr>nc_Buf := nc_Buf s @ [c, c]\<rparr>)"
      using ns_broadcast_two [OF assms(1,2), of c s] Cons.prems by (simp del: ns_broadcast.simps)
    then show ?case using Cons.IH [of "s\<lparr>nc_Buf := nc_Buf s @ [c, c]\<rparr>"] Cons.prems by (simp del: nc_step.simps)
  qed simp
  from this [of nc_init l] assms(3,4) have "nc_steps cfg opt [n1, n2] (map Stdin l) nc_init =
      Done (nc_init\<lparr>nc_Buf := concat (map (\<lambda>c. [c, c]) l)\<rparr>)" by (simp add: nc_init_def)
  then show ?thesis using assms(1,2,4) len [of l] by (simp add: nc_steps_append on_stdin_read_def Let_def nc_init_def)
qed

lemma nc_two_connections_double_characters_witness:
  "\<exists>s. nc_steps cfg nc_defaults [1, 2] (map Stdin [0x68, 0x69, 0x0A]) nc_init = Done s \<and>
     nc_sent s = [(1, [0x68, 0x68, 0x69, 0x69, 0x0A]), (2, [0x0A])]"
  using nc_two_connections_double_characters [of nc_defaults "[0x68, 0x69]" cfg 1 2] by (simp add: nc_defaults_def)

text \<open>Once the input has ended the program ends by itself when it does not receive; otherwise it waits for data, a
  close or a signal, however often the thread looks.\<close>

lemma nc_end_of_input:
  assumes "nc_eof s" and "\<not> nc_ended opt s"
  shows "(\<exists>n s'. nc_steps cfg opt conns (replicate n ThreadLooks) s = Done s' \<and> nc_ended opt s') \<longleftrightarrow>
         \<not> b_useRx opt \<or> g_afterRecv s"
proof (cases "\<not> b_useRx opt \<or> g_afterRecv s")
  case True
  then have "nc_steps cfg opt conns (replicate 1 ThreadLooks) s = Done (s\<lparr>s_received_signal := True\<rparr>)"
    using assms(1) by auto
  with True show ?thesis unfolding nc_ended_def by fastforce
next
  case False
  then have "nc_steps cfg opt conns (replicate n ThreadLooks) s = Done s" for n by (induction n) auto
  with False assms(2) show ?thesis by simp
qed

lemma nc_end_of_input_witness:
  "\<exists>n s'. nc_steps cfg (nc_defaults\<lparr>b_useRx := False\<rparr>) [1] (replicate n ThreadLooks) (nc_init\<lparr>nc_eof := True\<rparr>) = Done s' \<and>
     nc_ended (nc_defaults\<lparr>b_useRx := False\<rparr>) s'"
  using nc_end_of_input [of "nc_init\<lparr>nc_eof := True\<rparr>" "nc_defaults\<lparr>b_useRx := False\<rparr>" cfg "[1]"]
  by (simp add: nc_init_def nc_defaults_def nc_ended_def)

end
