(* ===== verification/Callback_Itf.thy ===== *)
theory Callback_Itf
  imports Task_Laws
begin

text \<open>
  The C++ interfaces of eloop/eloop_callback_itf.h: static functions that are registered with the event loop and
  forward its callbacks to a method of an object, found in a pair (\<open>EloopIntFuncPair\<close>) on the heap, or to a
  virtual method of the object itself; and the class that runs a task.
\<close>

section \<open>Pairs and interfaces\<close>

text \<open>The two unions hold one object pointer and one method pointer.\<close>

record func_pair =
  fp_obj :: ptr
  fp_method :: ptr
  uiHandled :: u32

text \<open>The addresses of the static functions, and the virtual getters of the objects.\<close>

record itf =
  OnSignalFuncDynamic :: ptr
  OnSignalFunc :: ptr
  OnSocketReceiveFuncDynamic :: ptr
  OnSocketWriteFuncDynamic :: ptr
  OnSocketReceiveFunc :: ptr
  OnSocketWriteFunc :: ptr
  OnTimeoutCallbackFuncDynamic :: ptr
  OnTimeoutCallbackFunc :: ptr
  itf_wdt_handler :: ptr
  GetSignalNo :: "ptr \<Rightarrow> int"
  GetSocketFd :: "ptr \<Rightarrow> int"
  GetSocketCtx :: "ptr \<Rightarrow> ptr"
  GetTimeoutCtx :: "ptr \<Rightarrow> ptr"
  GetWatchdogTimeoutCtx :: "ptr \<Rightarrow> ptr"

text \<open>A call of a method: the object, the method (\<open>None\<close> for the virtual one), the number and the context it gets.\<close>

datatype method_call = MethodCall ptr "ptr option" int ptr

record cb_sys =
  cs_pair :: "ptr \<Rightarrow> func_pair option"
  cs_loop :: sys
  cs_calls :: "method_call list"

text \<open>
  The pair of a registration: the one of the caller, or a new one at \<open>p\<close>, which is null when there is no memory.
\<close>

definition fill_pair :: "ptr \<Rightarrow> ptr \<Rightarrow> ptr \<Rightarrow> ptr \<Rightarrow> cb_sys \<Rightarrow> (ptr \<times> cb_sys) outcome" where
  "fill_pair p ctx obj fn s =
     (let c = (if ctx = NULL then p else ctx)
      in if c = NULL then Done (NULL, s)
         else if ctx \<noteq> NULL \<and> cs_pair s ctx = None then Crash
         else Done (c, s\<lparr>cs_pair := (cs_pair s)(c \<mapsto> \<lparr>fp_obj = obj, fp_method = fn, uiHandled = 0\<rparr>)\<rparr>))"

definition delete_pair :: "ptr \<Rightarrow> cb_sys \<Rightarrow> cb_sys outcome" where
  "delete_pair c s = (if cs_pair s c = None then Crash else Done (s\<lparr>cs_pair := (cs_pair s)(c := None)\<rparr>))"

text \<open>What follows the call of the event loop: a pair that could not be registered is deleted.\<close>

definition registered :: "ptr \<Rightarrow> int \<times> sys \<Rightarrow> cb_sys \<Rightarrow> (ptr \<times> cb_sys) outcome" where
  "registered c r s =
     (let s1 = s\<lparr>cs_loop := snd r\<rparr>
      in if fst r \<noteq> 0 then obind (delete_pair c s1) (\<lambda>s2. Done (NULL, s2)) else Done (c, s1))"

definition drop_pair :: "ptr \<Rightarrow> bool \<Rightarrow> cb_sys \<Rightarrow> cb_sys outcome" where
  "drop_pair ctx bCtxFree s = (if ctx \<noteq> NULL \<and> bCtxFree then delete_pair ctx s else Done s)"

section \<open>Signals\<close>

definition SignalRegisterCb :: "itf \<Rightarrow> ptr \<Rightarrow> bool \<Rightarrow> ptr \<Rightarrow> ptr \<Rightarrow> int \<Rightarrow> ptr \<Rightarrow> cb_sys \<Rightarrow> (ptr \<times> cb_sys) outcome" where
  "SignalRegisterCb itf p ok obj fn sig ctx s =
     obind (fill_pair p ctx obj fn s) (\<lambda>(c, s1).
       if c = NULL then Done (NULL, s1)
       else registered c (eloop_register_signal ok (if sig = -1 then GetSignalNo itf obj else sig)
              (OnSignalFuncDynamic itf) c (cs_loop s1)) s1)"

definition SignalUnregisterCb :: "ptr \<Rightarrow> bool \<Rightarrow> cb_sys \<Rightarrow> cb_sys outcome" where
  "SignalUnregisterCb ctx bCtxFree s = drop_pair ctx bCtxFree s"

definition SignalRegister :: "itf \<Rightarrow> bool \<Rightarrow> ptr \<Rightarrow> int \<Rightarrow> cb_sys \<Rightarrow> int \<times> cb_sys" where
  "SignalRegister itf ok obj sig s =
     (let (ret, l) = eloop_register_signal ok (if sig = -1 then GetSignalNo itf obj else sig) (OnSignalFunc itf) obj (cs_loop s)
      in (ret, s\<lparr>cs_loop := l\<rparr>))"

section \<open>Sockets\<close>

definition ReadRegisterCb :: "itf \<Rightarrow> ptr \<Rightarrow> bool \<Rightarrow> ptr \<Rightarrow> ptr \<Rightarrow> int \<Rightarrow> ptr \<Rightarrow> ptr \<Rightarrow> cb_sys \<Rightarrow> (ptr \<times> cb_sys) outcome" where
  "ReadRegisterCb itf p ok obj fn sock sock_ctx ctx s =
     obind (fill_pair p ctx obj fn s) (\<lambda>(c, s1).
       if c = NULL then Done (NULL, s1)
       else registered c (eloop_register_read_sock ok (if sock = -1 then GetSocketFd itf obj else sock)
              (OnSocketReceiveFuncDynamic itf) c (if sock_ctx = NULL then GetSocketCtx itf obj else sock_ctx) (cs_loop s1)) s1)"

definition WriteRegisterCb :: "itf \<Rightarrow> ptr \<Rightarrow> bool \<Rightarrow> ptr \<Rightarrow> ptr \<Rightarrow> int \<Rightarrow> ptr \<Rightarrow> ptr \<Rightarrow> cb_sys \<Rightarrow> (ptr \<times> cb_sys) outcome" where
  "WriteRegisterCb itf p ok obj fn sock sock_ctx ctx s =
     obind (fill_pair p ctx obj fn s) (\<lambda>(c, s1).
       if c = NULL then Done (NULL, s1)
       else registered c (eloop_register_sock ok (if sock = -1 then GetSocketFd itf obj else sock) 1
              (OnSocketWriteFuncDynamic itf) c (if sock_ctx = NULL then GetSocketCtx itf obj else sock_ctx) (cs_loop s1)) s1)"

definition ReadUnregisterCb :: "itf \<Rightarrow> ptr \<Rightarrow> ptr \<Rightarrow> int \<Rightarrow> bool \<Rightarrow> cb_sys \<Rightarrow> cb_sys outcome" where
  "ReadUnregisterCb itf obj ctx sock bCtxFree s =
     drop_pair ctx bCtxFree
       (s\<lparr>cs_loop := eloop_unregister_read_sock (if sock = -1 then GetSocketFd itf obj else sock) (cs_loop s)\<rparr>)"

definition WriteUnregisterCb :: "itf \<Rightarrow> ptr \<Rightarrow> ptr \<Rightarrow> int \<Rightarrow> bool \<Rightarrow> cb_sys \<Rightarrow> cb_sys outcome" where
  "WriteUnregisterCb itf obj ctx sock bCtxFree s =
     drop_pair ctx bCtxFree
       (s\<lparr>cs_loop := eloop_unregister_sock (if sock = -1 then GetSocketFd itf obj else sock) 1 (cs_loop s)\<rparr>)"

definition ReadRegister :: "itf \<Rightarrow> bool \<Rightarrow> ptr \<Rightarrow> int \<Rightarrow> ptr \<Rightarrow> cb_sys \<Rightarrow> int \<times> cb_sys" where
  "ReadRegister itf ok obj sock sock_ctx s =
     (let (ret, l) = eloop_register_read_sock ok (if sock = -1 then GetSocketFd itf obj else sock) (OnSocketReceiveFunc itf) obj
            (if sock_ctx = NULL then GetSocketCtx itf obj else sock_ctx) (cs_loop s)
      in (ret, s\<lparr>cs_loop := l\<rparr>))"

definition WriteRegister :: "itf \<Rightarrow> bool \<Rightarrow> ptr \<Rightarrow> int \<Rightarrow> ptr \<Rightarrow> cb_sys \<Rightarrow> int \<times> cb_sys" where
  "WriteRegister itf ok obj sock sock_ctx s =
     (let (ret, l) = eloop_register_sock ok (if sock = -1 then GetSocketFd itf obj else sock) 1 (OnSocketWriteFunc itf) obj
            (if sock_ctx = NULL then GetSocketCtx itf obj else sock_ctx) (cs_loop s)
      in (ret, s\<lparr>cs_loop := l\<rparr>))"

definition ReadUnregister :: "itf \<Rightarrow> ptr \<Rightarrow> int \<Rightarrow> cb_sys \<Rightarrow> cb_sys" where
  "ReadUnregister itf obj sock s =
     s\<lparr>cs_loop := eloop_unregister_read_sock (if sock = -1 then GetSocketFd itf obj else sock) (cs_loop s)\<rparr>"

definition WriteUnregister :: "itf \<Rightarrow> ptr \<Rightarrow> int \<Rightarrow> cb_sys \<Rightarrow> cb_sys" where
  "WriteUnregister itf obj sock s =
     s\<lparr>cs_loop := eloop_unregister_sock (if sock = -1 then GetSocketFd itf obj else sock) 1 (cs_loop s)\<rparr>"

section \<open>Timeouts\<close>

text \<open>\<open>ms2eloopsecs\<close>\<close>

definition ms2eloopsecs :: "u32 \<Rightarrow> u32 \<times> u32" where
  "ms2eloopsecs ms = (ms div 1000, (ms mod 1000) * 1000)"

text \<open>\<open>q\<close> is the block of the node of the timeout list, \<open>clk\<close> the clock.\<close>

definition TimeoutRegisterCb ::
    "itf \<Rightarrow> ptr \<Rightarrow> ptr \<Rightarrow> (nat \<Rightarrow> os_time) \<Rightarrow> ptr \<Rightarrow> ptr \<Rightarrow> u32 \<Rightarrow> u32 \<Rightarrow> ptr \<Rightarrow> ptr \<Rightarrow> cb_sys \<Rightarrow> (ptr \<times> cb_sys) outcome" where
  "TimeoutRegisterCb itf p q clk obj fn secs usecs timeout_ctx ctx s =
     obind (fill_pair p ctx obj fn s) (\<lambda>(c, s1).
       if c = NULL then Done (NULL, s1)
       else registered c (eloop_register_timeout q clk secs usecs (OnTimeoutCallbackFuncDynamic itf) c
              (if timeout_ctx = NULL then GetTimeoutCtx itf obj else timeout_ctx) (cs_loop s1)) s1)"

text \<open>The pair tells whether the timeout was handled; a null pair is read all the same.\<close>

definition TimeoutUnregisterCb ::
    "itf \<Rightarrow> (nat \<Rightarrow> os_time) \<Rightarrow> ptr \<Rightarrow> ptr \<Rightarrow> ptr \<Rightarrow> bool \<Rightarrow> cb_sys \<Rightarrow> (int \<times> cb_sys) outcome" where
  "TimeoutUnregisterCb itf clk obj ctx timeout_ctx bCtxFree s =
     (case cs_pair s ctx of
        None \<Rightarrow> Crash
      | Some pr \<Rightarrow>
          (let (ret, l) = (if uiHandled pr = 0
                 then eloop_cancel_timeout clk (OnTimeoutCallbackFuncDynamic itf) ctx
                        (if timeout_ctx = NULL then GetTimeoutCtx itf obj else timeout_ctx) (cs_loop s)
                 else (1, cs_loop s))
           in obind (drop_pair ctx bCtxFree (s\<lparr>cs_loop := l\<rparr>)) (\<lambda>s1. Done (ret, s1))))"

definition TimeoutRegisterId ::
    "itf \<Rightarrow> ptr \<Rightarrow> (nat \<Rightarrow> os_time) \<Rightarrow> ptr \<Rightarrow> u32 \<Rightarrow> u32 \<Rightarrow> ptr \<Rightarrow> cb_sys \<Rightarrow> int \<times> cb_sys" where
  "TimeoutRegisterId itf q clk obj secs usecs timeout_ctx s =
     (let (ret, l) = eloop_register_timeout q clk secs usecs (OnTimeoutCallbackFunc itf) obj
            (if timeout_ctx = NULL then GetTimeoutCtx itf obj else timeout_ctx) (cs_loop s)
      in (ret, s\<lparr>cs_loop := l\<rparr>))"

definition TimeoutUnregisterId :: "itf \<Rightarrow> (nat \<Rightarrow> os_time) \<Rightarrow> ptr \<Rightarrow> ptr \<Rightarrow> cb_sys \<Rightarrow> int \<times> cb_sys" where
  "TimeoutUnregisterId itf clk obj timeout_ctx s =
     (let (ret, l) = eloop_cancel_timeout clk (OnTimeoutCallbackFunc itf) obj
            (if timeout_ctx = NULL then GetTimeoutCtx itf obj else timeout_ctx) (cs_loop s)
      in (ret, s\<lparr>cs_loop := l\<rparr>))"

definition WatchdogTimeoutRegister ::
    "itf \<Rightarrow> ptr \<Rightarrow> (nat \<Rightarrow> os_time) \<Rightarrow> ptr \<Rightarrow> u32 \<Rightarrow> u32 \<Rightarrow> ptr \<Rightarrow> cb_sys \<Rightarrow> int \<times> cb_sys" where
  "WatchdogTimeoutRegister itf q clk obj secs usecs timeout_ctx s =
     (let (ret, l) = eloop_register_watchdog_timeout (itf_wdt_handler itf) q clk secs usecs obj
            (if timeout_ctx = NULL then GetWatchdogTimeoutCtx itf obj else timeout_ctx) (cs_loop s)
      in (ret, s\<lparr>cs_loop := l\<rparr>))"

definition WatchdogTimeoutUnregister :: "itf \<Rightarrow> (nat \<Rightarrow> os_time) \<Rightarrow> ptr \<Rightarrow> ptr \<Rightarrow> cb_sys \<Rightarrow> int \<times> cb_sys" where
  "WatchdogTimeoutUnregister itf clk obj timeout_ctx s =
     (let (ret, l) = eloop_cancel_watchdog_timeout (itf_wdt_handler itf) clk obj
            (if timeout_ctx = NULL then GetWatchdogTimeoutCtx itf obj else timeout_ctx) (cs_loop s)
      in (ret, s\<lparr>cs_loop := l\<rparr>))"

section \<open>Forwarding a callback\<close>

text \<open>The dynamic functions: the pair is counted and its method called on its object.\<close>

definition forward_pair :: "ptr \<Rightarrow> int \<Rightarrow> ptr \<Rightarrow> cb_sys \<Rightarrow> cb_sys outcome" where
  "forward_pair c arg ctx s =
     (case cs_pair s c of
        None \<Rightarrow> Crash
      | Some pr \<Rightarrow>
          Done (s\<lparr>cs_pair := (cs_pair s)(c \<mapsto> pr\<lparr>uiHandled := uiHandled pr + 1\<rparr>),
                  cs_calls := cs_calls s @ [MethodCall (fp_obj pr) (Some (fp_method pr)) arg ctx]\<rparr>))"

definition forward_virtual :: "ptr \<Rightarrow> int \<Rightarrow> ptr \<Rightarrow> cb_sys \<Rightarrow> cb_sys outcome" where
  "forward_virtual obj arg ctx s = Done (s\<lparr>cs_calls := cs_calls s @ [MethodCall obj None arg ctx]\<rparr>)"

text \<open>What the event loop calls; a null context is reported and ignored, and other handlers are not those of the interfaces.\<close>

fun itf_callback :: "itf \<Rightarrow> callback \<Rightarrow> cb_sys \<Rightarrow> cb_sys outcome" where
  "itf_callback itf (SignalCb h sig eloop_ctx signal_ctx) s =
     (if h = OnSignalFuncDynamic itf then
        if eloop_ctx = NULL \<or> signal_ctx = NULL then Done s else forward_pair signal_ctx sig eloop_ctx s
      else if h = OnSignalFunc itf then
        if eloop_ctx = NULL then Done s else forward_virtual signal_ctx sig eloop_ctx s
      else Done s)"
| "itf_callback itf (SockCb h sock eloop_ctx sock_ctx) s =
     (if h = OnSocketReceiveFuncDynamic itf \<or> h = OnSocketWriteFuncDynamic itf then
        if eloop_ctx = NULL then Done s else forward_pair eloop_ctx sock sock_ctx s
      else if h = OnSocketReceiveFunc itf \<or> h = OnSocketWriteFunc itf then
        if eloop_ctx = NULL then Done s else forward_virtual eloop_ctx sock sock_ctx s
      else Done s)"
| "itf_callback itf (TimeoutCb h eloop_ctx timeout_ctx) s =
     (if h = OnTimeoutCallbackFuncDynamic itf then
        if eloop_ctx = NULL then Done s else forward_pair eloop_ctx 0 timeout_ctx s
      else if h = OnTimeoutCallbackFunc itf then
        if eloop_ctx = NULL then Done s else forward_virtual eloop_ctx 0 timeout_ctx s
      else Done s)"
| "itf_callback itf (EventCb h eloop_data user_ctx) s = Done s"

section \<open>A task as an object\<close>

text \<open>
  \<open>TaskStartSelf\<close> and \<open>TaskStopSelf\<close> of \<open>TaskCallbackInterface\<close>, with its member \<open>pTaskCtx\<close>; \<open>p0\<close> is the block of a default
  context, \<open>p\<close> that of the task. The constructor starts the task and the destructor stops it.
\<close>

definition TaskStartSelf ::
    "nat \<Rightarrow> ptr \<Rightarrow> routine \<Rightarrow> callbacks \<Rightarrow> ptr \<Rightarrow> ptr \<Rightarrow> tsys \<Rightarrow> (ptr \<times> tsys) outcome" where
  "TaskStartSelf n tmo rt cbs p0 p s =
     obind (make_task p s) (\<lambda>(c, s1). obind (start_task n tmo rt cbs p0 c s1) (\<lambda>s2. Done (c, s2)))"

definition TaskStopSelf :: "ptr \<Rightarrow> tsys \<Rightarrow> (ptr \<times> tsys) outcome" where
  "TaskStopSelf pTaskCtx s =
     (if pTaskCtx \<noteq> NULL then obind (destroy_task pTaskCtx s) (\<lambda>s1. Done (NULL, s1)) else Done (NULL, s))"

text \<open>\<open>sleep_wait\<close>: the call of the task library it makes.\<close>

definition sleep_wait ::
    "ptr \<Rightarrow> ptr \<Rightarrow> (nat \<Rightarrow> os_time) \<Rightarrow> (nat \<Rightarrow> os_time) \<Rightarrow> u32 \<Rightarrow> ptr \<Rightarrow> ptr \<Rightarrow> task_op" where
  "sleep_wait this p clk clk' ms callback callback_ctx =
     (let d = (if callback \<noteq> NULL \<and> callback_ctx = NULL then this else callback_ctx)
      in Sleep p clk clk' (ms div 1000) (ms mod 1000 * 1000) callback d)"

end
