(* ===== verification/Callback_Itf_Laws.thy ===== *)
theory Callback_Itf_Laws
  imports Callback_Itf
begin

text \<open>
  Lifetimes of the pairs of Callback\_Itf: the pairs to which the event loop refers are live in every
  state that admissible calls reach, a timeout is delivered once, and the operations that leave
  the loop or the object with a dangling reference.
\<close>

section \<open>The pairs to which the event loop refers\<close>

definition timeout_refs :: "itf \<Rightarrow> eloop_timeout list \<Rightarrow> ptr set" where
  "timeout_refs itf ts = to_eloop_data ` set (filter (\<lambda>t. to_handler t = OnTimeoutCallbackFuncDynamic itf) ts)"

definition sock_refs :: "itf \<Rightarrow> eloop_sock list \<Rightarrow> ptr set" where
  "sock_refs itf rs = so_eloop_data ` set (filter (\<lambda>r. so_handler r = OnSocketReceiveFuncDynamic itf \<or>
     so_handler r = OnSocketWriteFuncDynamic itf) rs)"

definition signal_refs :: "itf \<Rightarrow> eloop_signal list \<Rightarrow> ptr set" where
  "signal_refs itf rs = sg_user_data ` set (filter (\<lambda>r. sg_handler r = OnSignalFuncDynamic itf) rs)"

definition refs :: "itf \<Rightarrow> sys \<Rightarrow> ptr set" where
  "refs itf l =
     timeout_refs itf (el_timeout (sy_eloop l)) \<union> sock_refs itf (rows Readers l) \<union> sock_refs itf (rows Writers l) \<union>
     sock_refs itf (rows Exceptions l) \<union> signal_refs itf (el_signals (sy_eloop l)) - {NULL}"

text \<open>A typed state: null is no pair, and what the loop refers to is one.\<close>

definition cb_typed :: "itf \<Rightarrow> cb_sys \<Rightarrow> bool" where
  "cb_typed itf s \<longleftrightarrow> cs_pair s NULL = None \<and> refs itf (cs_loop s) \<subseteq> dom (cs_pair s)"

lemmas refs_defs = timeout_refs_def sock_refs_def signal_refs_def

lemma refs_mono_parts:
  "set ts' \<subseteq> set ts \<Longrightarrow> timeout_refs itf ts' \<subseteq> timeout_refs itf ts"
  "set rs' \<subseteq> set rs \<Longrightarrow> sock_refs itf rs' \<subseteq> sock_refs itf rs"
  unfolding refs_defs by auto

lemma timeout_refs_mark [simp]: "timeout_refs itf (mark_wdt p ts) = timeout_refs itf ts"
  by (induction ts) (auto simp: timeout_refs_def mark_wdt_def)

lemma timeout_refs_insert:
  "timeout_refs itf (insert_timeout t ts) \<subseteq> insert (to_eloop_data t) (timeout_refs itf ts)"
  by (auto simp: timeout_refs_def tq.ins_set)

lemma OnRegisterWDT_list: "el_timeout (sy_eloop (OnRegisterWDT now p secs usecs s)) = mark_wdt p (el_timeout (sy_eloop s))"
  by (simp add: OnRegisterWDT_def Let_def split: option.split)

lemma refs_register_timeout:
  "refs itf (snd (eloop_register_timeout0 p clk secs usecs h ed ud wd l)) \<subseteq> insert ed (refs itf l)"
proof -
  let ?l' = "snd (eloop_register_timeout0 p clk secs usecs h ed ud wd l)"
  have "timeout_refs itf (el_timeout (sy_eloop ?l')) \<subseteq> insert ed (timeout_refs itf (el_timeout (sy_eloop l)))"
    using timeout_refs_insert [of itf "new_timeout p (clk 0) secs usecs h ed ud wd" "el_timeout (sy_eloop l)"]
    by (auto simp: eloop_register_timeout0_def Let_def OnRegisterWDT_list new_timeout_def)
  then show ?thesis using same_but_wdtD [OF same_but_wdt_register [of l p clk secs usecs h ed ud wd]]
    by (auto simp: refs_def)
qed

lemma refs_register_timeout_other:
  assumes "h \<noteq> OnTimeoutCallbackFuncDynamic itf"
  shows "refs itf (snd (eloop_register_timeout0 p clk secs usecs h ed ud wd l)) \<subseteq> refs itf l"
proof -
  have "timeout_refs itf (el_timeout (sy_eloop (snd (eloop_register_timeout0 p clk secs usecs h ed ud wd l)))) \<subseteq>
        timeout_refs itf (el_timeout (sy_eloop l))"
    using assms by (auto simp: eloop_register_timeout0_def Let_def OnRegisterWDT_list timeout_refs_def tq.ins_set
        new_timeout_def mark_wdt_def split: if_splits)
  then show ?thesis using same_but_wdtD [OF same_but_wdt_register [of l p clk secs usecs h ed ud wd]]
    by (auto simp: refs_def)
qed

lemma refs_cancel_timeout: "refs itf (snd (eloop_cancel_timeout0 clk h ed ud wd l)) \<subseteq> refs itf l"
  using same_but_wdtD [OF same_but_wdt_cancel [of l clk h ed ud wd]]
    refs_mono_parts(1) [of "el_timeout (sy_eloop (snd (eloop_cancel_timeout0 clk h ed ud wd l)))" "el_timeout (sy_eloop l)" itf]
  by (auto simp: refs_def cancel_timeout0_result)

lemma refs_register_signal:
  "refs itf (snd (eloop_register_signal ok sig h ud l)) \<subseteq> insert ud (refs itf l)"
  "h \<noteq> OnSignalFuncDynamic itf \<Longrightarrow> refs itf (snd (eloop_register_signal ok sig h ud l)) \<subseteq> refs itf l"
  by (auto simp: refs_def eloop_register_signal_def Let_def signal_refs_def)

lemma refs_add_sock:
  "refs itf (snd (eloop_sock_table_add_sock ok table sock h ed ud l)) \<subseteq>
     (if h = OnSocketReceiveFuncDynamic itf \<or> h = OnSocketWriteFuncDynamic itf then insert ed (refs itf l) else refs itf l)"
proof (cases "table = None \<or> \<not> ok")
  case True
  then show ?thesis by (auto simp: eloop_sock_table_add_sock_def split: option.split)
next
  case False
  then obtain t where "table = Some t" by auto
  with False show ?thesis
    by (cases t) (auto simp: refs_def eloop_sock_table_add_sock_def Let_def sock_refs_def)
qed

lemma refs_register_sock:
  "refs itf (snd (eloop_register_sock ok sock ty h ed ud l)) \<subseteq> insert ed (refs itf l)"
  "h \<noteq> OnSocketReceiveFuncDynamic itf \<Longrightarrow> h \<noteq> OnSocketWriteFuncDynamic itf \<Longrightarrow>
   refs itf (snd (eloop_register_sock ok sock ty h ed ud l)) \<subseteq> refs itf l"
  using refs_add_sock [of itf ok "eloop_get_sock_table ty" sock h ed ud l]
  by (auto simp: eloop_register_sock_def split: if_splits)

lemma refs_unregister_sock: "refs itf (eloop_unregister_sock sock ty l) \<subseteq> refs itf l"
proof (cases "eloop_get_sock_table ty")
  case None
  then show ?thesis by (simp add: eloop_unregister_sock_def eloop_sock_table_remove_sock_def refs_def eloop_recalc_max_sock_def)
next
  case (Some t)
  have "rows ty' (eloop_unregister_sock sock ty l) = (if ty' = t then drop_first sock (rows ty' l) else rows ty' l)" for ty'
    by (simp add: Some eloop_unregister_sock_def rows_remove eloop_recalc_max_sock_def)
  then have "sock_refs itf (rows ty' (eloop_unregister_sock sock ty l)) \<subseteq> sock_refs itf (rows ty' l)" for ty'
    using refs_mono_parts(2) [OF set_drop_first [of sock "rows ty' l"], of itf] by (cases "ty' = t") auto
  from this [of Readers] this [of Writers] this [of Exceptions] show ?thesis by (auto simp: refs_def)
qed

lemma refs_heap [simp]: "refs itf (heap_free p l) = refs itf l"
  by (simp add: refs_def)

lemma refs_pop:
  "el_timeout (sy_eloop l) = t # ts \<Longrightarrow> refs itf (upd_el (\<lambda>e. e\<lparr>el_timeout := ts\<rparr>) l) \<subseteq> refs itf l"
  using refs_mono_parts(1) [of ts "t # ts" itf] by (auto simp: refs_def)

section \<open>Steps that keep a typed state\<close>

lemma typed_loop: "cb_typed itf s \<Longrightarrow> refs itf l \<subseteq> refs itf (cs_loop s) \<Longrightarrow> cb_typed itf (s\<lparr>cs_loop := l\<rparr>)"
  by (auto simp: cb_typed_def)

lemma typed_drop:
  assumes "cb_typed itf s" and "ctx \<noteq> NULL \<and> bCtxFree \<longrightarrow> cs_pair s ctx \<noteq> None \<and> ctx \<notin> refs itf (cs_loop s)"
  shows "\<exists>s'. drop_pair ctx bCtxFree s = Done s' \<and> cb_typed itf s'"
  using assms by (auto simp: drop_pair_def delete_pair_def cb_typed_def)

lemma typed_forward:
  assumes "cb_typed itf s" and "cs_pair s c \<noteq> None"
  shows "\<exists>s'. forward_pair c arg ctx s = Done s' \<and> cb_typed itf s'"
  using assms by (auto simp: forward_pair_def cb_typed_def)

text \<open>
  An interface by which a pair is registered: the loop then refers to this pair and no other new one, and
  is as it was when the registration fails.
\<close>

locale pair_registry =
  fixes itf :: itf
    and reg :: "ptr \<Rightarrow> sys \<Rightarrow> int \<times> sys"
  assumes reg_refs: "refs itf (snd (reg c l)) \<subseteq> insert c (refs itf l)"
    and reg_fails: "fst (reg c l) \<noteq> 0 \<Longrightarrow> snd (reg c l) = l"
begin

lemma register_typed:
  assumes typed: "cb_typed itf s"
    and new: "ctx = NULL \<Longrightarrow> p = NULL \<or> cs_pair s p = None"
    and reuse: "ctx \<noteq> NULL \<Longrightarrow> cs_pair s ctx \<noteq> None \<and> fst (reg ctx (cs_loop s)) = 0"
  shows "\<exists>r s'. obind (fill_pair p ctx obj fn s) (\<lambda>(c, s1).
           if c = NULL then Done (NULL, s1) else registered c (reg c (cs_loop s1)) s1) = Done (r, s') \<and> cb_typed itf s'"
proof (cases "ctx = NULL")
  case True
  show ?thesis
  proof (cases "p = NULL")
    case True
    with \<open>ctx = NULL\<close> typed show ?thesis by (simp add: fill_pair_def)
  next
    case False
    with new True have "cs_pair s p = None" by simp
    with True False typed reg_refs [of p "cs_loop s"] reg_fails [of p "cs_loop s"] show ?thesis
      by (auto simp: fill_pair_def registered_def delete_pair_def cb_typed_def Let_def)
  qed
next
  case False
  with reuse typed reg_refs [of ctx "cs_loop s"] show ?thesis
    by (auto simp: fill_pair_def registered_def cb_typed_def Let_def)
qed

end

interpretation signal_pairs: pair_registry itf "\<lambda>c. eloop_register_signal ok sig (OnSignalFuncDynamic itf) c"
  for itf ok sig
  by unfold_locales (rule refs_register_signal(1), simp add: eloop_register_signal_def Let_def split: if_splits)

interpretation sock_pairs: pair_registry itf "\<lambda>c. eloop_register_sock ok sock ty h c ud" for itf ok sock ty h ud
  by unfold_locales
    (rule refs_register_sock(1), auto simp: eloop_register_sock_def eloop_sock_table_add_sock_def Let_def
      split: option.splits if_splits)

interpretation timeout_pairs: pair_registry itf "\<lambda>c. eloop_register_timeout q clk secs usecs h c ud"
  for itf q clk secs usecs h ud
  by unfold_locales
    (simp add: eloop_register_timeout_def refs_register_timeout,
     auto simp: eloop_register_timeout_def eloop_register_timeout0_def Let_def split: if_splits)

section \<open>Scripts of calls\<close>

text \<open>
  What a program does with the interfaces, with what the loop does to them: it runs the first timeout, popped from the list,
  and calls the handler of a row. The addresses and clocks are the results of the library functions.
\<close>

datatype itf_call =
    SigReg ptr bool ptr ptr int ptr
  | SigUnreg ptr bool
  | SigRegSelf bool ptr int
  | ReadReg ptr bool ptr ptr int ptr ptr
  | WriteReg ptr bool ptr ptr int ptr ptr
  | ReadUnreg ptr ptr int bool
  | WriteUnreg ptr ptr int bool
  | ReadRegSelf bool ptr int ptr
  | WriteRegSelf bool ptr int ptr
  | ReadUnregSelf ptr int
  | WriteUnregSelf ptr int
  | TimerReg ptr ptr "nat \<Rightarrow> os_time" ptr ptr u32 u32 ptr ptr
  | TimerUnreg "nat \<Rightarrow> os_time" ptr ptr ptr bool
  | TimerRegSelf ptr "nat \<Rightarrow> os_time" ptr u32 u32 ptr
  | TimerUnregSelf "nat \<Rightarrow> os_time" ptr ptr
  | WdtReg ptr "nat \<Rightarrow> os_time" ptr u32 u32 ptr
  | WdtUnreg "nat \<Rightarrow> os_time" ptr ptr
  | FireFirst
  | SockReady table_id nat
  | SignalReady nat

definition fire_first :: "itf \<Rightarrow> cb_sys \<Rightarrow> cb_sys outcome" where
  "fire_first itf s =
     (case el_timeout (sy_eloop (cs_loop s)) of
        [] \<Rightarrow> Done s
      | t # ts \<Rightarrow>
          obind (itf_callback itf (TimeoutCb (to_handler t) (to_eloop_data t) (to_user_data t))
                   (s\<lparr>cs_loop := upd_el (\<lambda>e. e\<lparr>el_timeout := ts\<rparr>) (cs_loop s)\<rparr>))
            (\<lambda>s'. Done (s'\<lparr>cs_loop := heap_free (to_id t) (cs_loop s')\<rparr>)))"

fun itf_exec :: "itf \<Rightarrow> itf_call \<Rightarrow> cb_sys \<Rightarrow> cb_sys outcome" where
  "itf_exec itf (SigReg p ok obj fn sig ctx) s = obind (SignalRegisterCb itf p ok obj fn sig ctx s) (\<lambda>(c, s'). Done s')"
| "itf_exec itf (SigUnreg ctx free) s = SignalUnregisterCb ctx free s"
| "itf_exec itf (SigRegSelf ok obj sig) s = Done (snd (SignalRegister itf ok obj sig s))"
| "itf_exec itf (ReadReg p ok obj fn sock sctx ctx) s =
     obind (ReadRegisterCb itf p ok obj fn sock sctx ctx s) (\<lambda>(c, s'). Done s')"
| "itf_exec itf (WriteReg p ok obj fn sock sctx ctx) s =
     obind (WriteRegisterCb itf p ok obj fn sock sctx ctx s) (\<lambda>(c, s'). Done s')"
| "itf_exec itf (ReadUnreg obj ctx sock free) s = ReadUnregisterCb itf obj ctx sock free s"
| "itf_exec itf (WriteUnreg obj ctx sock free) s = WriteUnregisterCb itf obj ctx sock free s"
| "itf_exec itf (ReadRegSelf ok obj sock sctx) s = Done (snd (ReadRegister itf ok obj sock sctx s))"
| "itf_exec itf (WriteRegSelf ok obj sock sctx) s = Done (snd (WriteRegister itf ok obj sock sctx s))"
| "itf_exec itf (ReadUnregSelf obj sock) s = Done (ReadUnregister itf obj sock s)"
| "itf_exec itf (WriteUnregSelf obj sock) s = Done (WriteUnregister itf obj sock s)"
| "itf_exec itf (TimerReg p q clk obj fn secs usecs tctx ctx) s =
     obind (TimeoutRegisterCb itf p q clk obj fn secs usecs tctx ctx s) (\<lambda>(c, s'). Done s')"
| "itf_exec itf (TimerUnreg clk obj ctx tctx free) s =
     obind (TimeoutUnregisterCb itf clk obj ctx tctx free s) (\<lambda>(n, s'). Done s')"
| "itf_exec itf (TimerRegSelf q clk obj secs usecs tctx) s = Done (snd (TimeoutRegisterId itf q clk obj secs usecs tctx s))"
| "itf_exec itf (TimerUnregSelf clk obj tctx) s = Done (snd (TimeoutUnregisterId itf clk obj tctx s))"
| "itf_exec itf (WdtReg q clk obj secs usecs tctx) s = Done (snd (WatchdogTimeoutRegister itf q clk obj secs usecs tctx s))"
| "itf_exec itf (WdtUnreg clk obj tctx) s = Done (snd (WatchdogTimeoutUnregister itf clk obj tctx s))"
| "itf_exec itf FireFirst s = fire_first itf s"
| "itf_exec itf (SockReady ty i) s =
     (if i < length (rows ty (cs_loop s))
      then let r = rows ty (cs_loop s) ! i
           in itf_callback itf (SockCb (so_handler r) (so_sock r) (so_eloop_data r) (so_user_data r)) s
      else Done s)"
| "itf_exec itf (SignalReady i) s =
     (if i < length (el_signals (sy_eloop (cs_loop s)))
      then let r = el_signals (sy_eloop (cs_loop s)) ! i
           in itf_callback itf (SignalCb (sg_handler r) (sg_sig r) (el_user_data (sy_eloop (cs_loop s))) (sg_user_data r)) s
      else Done s)"

fun itf_calls :: "itf \<Rightarrow> itf_call list \<Rightarrow> cb_sys \<Rightarrow> cb_sys outcome" where
  "itf_calls itf [] s = Done s"
| "itf_calls itf (c # cs) s = obind (itf_exec itf c s) (itf_calls itf cs)"

text \<open>
  What the caller must see to. A pair passed to a registration is live, and the registration does not fail; the block of a new pair is
  not a pair yet. A pair that is deleted is live, and once the registration is undone nothing else refers to it.
\<close>

definition reuse_ok :: "ptr \<Rightarrow> ptr \<Rightarrow> bool \<Rightarrow> cb_sys \<Rightarrow> bool" where
  "reuse_ok p ctx ok s \<longleftrightarrow> (if ctx = NULL then p = NULL \<or> cs_pair s p = None else cs_pair s ctx \<noteq> None \<and> ok)"

definition delete_ok :: "itf \<Rightarrow> ptr \<Rightarrow> bool \<Rightarrow> sys \<Rightarrow> cb_sys \<Rightarrow> bool" where
  "delete_ok itf ctx free l s \<longleftrightarrow> (ctx \<noteq> NULL \<and> free \<longrightarrow> cs_pair s ctx \<noteq> None \<and> ctx \<notin> refs itf l)"

fun itf_ok :: "itf \<Rightarrow> itf_call \<Rightarrow> cb_sys \<Rightarrow> bool" where
  "itf_ok itf (SigReg p ok obj fn sig ctx) s = reuse_ok p ctx ok s"
| "itf_ok itf (SigUnreg ctx free) s = delete_ok itf ctx free (cs_loop s) s"
| "itf_ok itf (ReadReg p ok obj fn sock sctx ctx) s = reuse_ok p ctx ok s"
| "itf_ok itf (WriteReg p ok obj fn sock sctx ctx) s = reuse_ok p ctx ok s"
| "itf_ok itf (ReadUnreg obj ctx sock free) s = delete_ok itf ctx free (cs_loop (ReadUnregister itf obj sock s)) s"
| "itf_ok itf (WriteUnreg obj ctx sock free) s = delete_ok itf ctx free (cs_loop (WriteUnregister itf obj sock s)) s"
| "itf_ok itf (TimerReg p q clk obj fn secs usecs tctx ctx) s = reuse_ok p ctx (q \<noteq> NULL) s"
| "itf_ok itf (TimerUnreg clk obj ctx tctx free) s =
     (cs_pair s ctx \<noteq> None \<and>
      delete_ok itf ctx free
        (if map_option uiHandled (cs_pair s ctx) = Some 0
         then snd (eloop_cancel_timeout clk (OnTimeoutCallbackFuncDynamic itf) ctx
                     (if tctx = NULL then GetTimeoutCtx itf obj else tctx) (cs_loop s))
         else cs_loop s) s)"
| "itf_ok itf _ s = True"

fun itf_script_ok :: "itf \<Rightarrow> itf_call list \<Rightarrow> cb_sys \<Rightarrow> bool" where
  "itf_script_ok itf [] s = True"
| "itf_script_ok itf (c # cs) s =
     (itf_ok itf c s \<and> (case itf_exec itf c s of Done s' \<Rightarrow> itf_script_ok itf cs s' | _ \<Rightarrow> True))"

text \<open>The static functions have different addresses.\<close>

definition distinct_handlers :: "itf \<Rightarrow> bool" where
  "distinct_handlers itf \<longleftrightarrow>
     distinct [OnSignalFuncDynamic itf, OnSignalFunc itf, OnSocketReceiveFuncDynamic itf, OnSocketWriteFuncDynamic itf,
       OnSocketReceiveFunc itf, OnSocketWriteFunc itf, OnTimeoutCallbackFuncDynamic itf, OnTimeoutCallbackFunc itf,
       itf_wdt_handler itf]"

lemma obind_snd: "(\<exists>r s'. x = Done (r, s') \<and> P s') \<Longrightarrow> \<exists>s'. obind x (\<lambda>(c, s'). Done s') = Done s' \<and> P s'"
  by auto

text \<open>The pair a callback goes to, if it is one for the dynamic functions.\<close>

fun cb_ref :: "itf \<Rightarrow> callback \<Rightarrow> ptr" where
  "cb_ref itf (SignalCb h sig eloop_ctx signal_ctx) = (if h = OnSignalFuncDynamic itf then signal_ctx else NULL)"
| "cb_ref itf (SockCb h sock eloop_ctx sock_ctx) =
     (if h = OnSocketReceiveFuncDynamic itf \<or> h = OnSocketWriteFuncDynamic itf then eloop_ctx else NULL)"
| "cb_ref itf (TimeoutCb h eloop_ctx timeout_ctx) = (if h = OnTimeoutCallbackFuncDynamic itf then eloop_ctx else NULL)"
| "cb_ref itf (EventCb h eloop_data user_ctx) = NULL"

lemma typed_virtual: "cb_typed itf s \<Longrightarrow> \<exists>s'. forward_virtual obj arg ctx s = Done s' \<and> cb_typed itf s'"
  by (simp add: forward_virtual_def cb_typed_def)

lemma callback_typed:
  assumes "cb_typed itf s" and "cb_ref itf cb \<noteq> NULL \<Longrightarrow> cs_pair s (cb_ref itf cb) \<noteq> None"
  shows "\<exists>s'. itf_callback itf cb s = Done s' \<and> cb_typed itf s'"
proof -
  have "cb_ref itf cb = NULL \<or> cs_pair s (cb_ref itf cb) \<noteq> None" using assms(2) by blast
  then show ?thesis using assms(1) typed_forward [OF assms(1)] typed_virtual [OF assms(1)]
    by (cases cb) auto
qed

lemma refs_live: "cb_typed itf s \<Longrightarrow> c \<in> refs itf (cs_loop s) \<Longrightarrow> cs_pair s c \<noteq> None"
  by (auto simp: cb_typed_def)

lemma row_refs:
  "r \<in> set (rows ty l) \<Longrightarrow> cb_ref itf (SockCb (so_handler r) sock (so_eloop_data r) ctx) \<noteq> NULL \<Longrightarrow>
   so_eloop_data r \<in> refs itf l"
  by (cases ty) (auto simp: refs_def sock_refs_def split: if_splits)

lemma signal_row_refs:
  "r \<in> set (el_signals (sy_eloop l)) \<Longrightarrow> cb_ref itf (SignalCb (sg_handler r) sig ctx (sg_user_data r)) \<noteq> NULL \<Longrightarrow>
   sg_user_data r \<in> refs itf l"
  by (auto simp: refs_def signal_refs_def split: if_splits)

lemma timeout_node_refs:
  "t \<in> set (el_timeout (sy_eloop l)) \<Longrightarrow> cb_ref itf (TimeoutCb (to_handler t) (to_eloop_data t) ctx) \<noteq> NULL \<Longrightarrow>
   to_eloop_data t \<in> refs itf l"
  by (auto simp: refs_def timeout_refs_def split: if_splits)

lemma cb_ref_data:
  "cb_ref itf (SockCb h sock c ctx) \<noteq> NULL \<Longrightarrow> cb_ref itf (SockCb h sock c ctx) = c"
  "cb_ref itf (SignalCb h sock ctx c) \<noteq> NULL \<Longrightarrow> cb_ref itf (SignalCb h sock ctx c) = c"
  "cb_ref itf (TimeoutCb h c ctx) \<noteq> NULL \<Longrightarrow> cb_ref itf (TimeoutCb h c ctx) = c"
  by (simp_all split: if_splits)

lemma fire_first_typed:
  assumes typed: "cb_typed itf s"
  shows "\<exists>s'. fire_first itf s = Done s' \<and> cb_typed itf s'"
proof (cases "el_timeout (sy_eloop (cs_loop s))")
  case Nil
  with typed show ?thesis by (simp add: fire_first_def)
next
  case (Cons t ts)
  let ?s = "s\<lparr>cs_loop := upd_el (\<lambda>e. e\<lparr>el_timeout := ts\<rparr>) (cs_loop s)\<rparr>"
  let ?cb = "TimeoutCb (to_handler t) (to_eloop_data t) (to_user_data t)"
  have s: "cb_typed itf ?s" by (rule typed_loop [OF typed refs_pop [OF Cons]])
  have "cs_pair ?s (cb_ref itf ?cb) \<noteq> None" if "cb_ref itf ?cb \<noteq> NULL"
    using refs_live [OF typed timeout_node_refs [OF _ that]] Cons cb_ref_data(3) [OF that] by simp
  from callback_typed [OF s this] obtain s' where "itf_callback itf ?cb ?s = Done s'" "cb_typed itf s'" by auto
  then show ?thesis using Cons by (auto simp: fire_first_def cb_typed_def simp del: itf_callback.simps)
qed

lemma sock_ready_typed:
  assumes typed: "cb_typed itf s"
  shows "\<exists>s'. itf_exec itf (SockReady ty i) s = Done s' \<and> cb_typed itf s'"
proof (cases "i < length (rows ty (cs_loop s))")
  case True
  let ?r = "rows ty (cs_loop s) ! i"
  let ?cb = "SockCb (so_handler ?r) (so_sock ?r) (so_eloop_data ?r) (so_user_data ?r)"
  have "cs_pair s (cb_ref itf ?cb) \<noteq> None" if "cb_ref itf ?cb \<noteq> NULL"
    using refs_live [OF typed row_refs [OF nth_mem [OF True] that]] cb_ref_data(1) [OF that] by simp
  from callback_typed [OF typed this] True show ?thesis by (simp add: Let_def)
qed (simp add: typed)

lemma signal_ready_typed:
  assumes typed: "cb_typed itf s"
  shows "\<exists>s'. itf_exec itf (SignalReady i) s = Done s' \<and> cb_typed itf s'"
proof (cases "i < length (el_signals (sy_eloop (cs_loop s)))")
  case True
  let ?r = "el_signals (sy_eloop (cs_loop s)) ! i"
  let ?cb = "SignalCb (sg_handler ?r) (sg_sig ?r) (el_user_data (sy_eloop (cs_loop s))) (sg_user_data ?r)"
  have "cs_pair s (cb_ref itf ?cb) \<noteq> None" if "cb_ref itf ?cb \<noteq> NULL"
    using refs_live [OF typed signal_row_refs [OF nth_mem [OF True] that]] cb_ref_data(2) [OF that] by simp
  from callback_typed [OF typed this] True show ?thesis by (simp add: Let_def)
qed (simp add: typed)

lemma timer_unreg_typed:
  assumes typed: "cb_typed itf s" and ok: "itf_ok itf (TimerUnreg clk obj ctx tctx free) s"
  shows "\<exists>r s'. TimeoutUnregisterCb itf clk obj ctx tctx free s = Done (r, s') \<and> cb_typed itf s'"
proof -
  from ok obtain pr where pr: "cs_pair s ctx = Some pr" by auto
  define l where "l = (if uiHandled pr = 0
    then snd (eloop_cancel_timeout clk (OnTimeoutCallbackFuncDynamic itf) ctx
                (if tctx = NULL then GetTimeoutCtx itf obj else tctx) (cs_loop s)) else cs_loop s)"
  have "refs itf l \<subseteq> refs itf (cs_loop s)"
    unfolding l_def eloop_cancel_timeout_def using refs_cancel_timeout by simp
  from typed_loop [OF typed this] have t: "cb_typed itf (s\<lparr>cs_loop := l\<rparr>)" .
  have "ctx \<noteq> NULL \<and> free \<longrightarrow> cs_pair (s\<lparr>cs_loop := l\<rparr>) ctx \<noteq> None \<and> ctx \<notin> refs itf (cs_loop (s\<lparr>cs_loop := l\<rparr>))"
    using ok pr by (simp add: delete_ok_def l_def)
  from typed_drop [OF t this] obtain s' where s': "drop_pair ctx free (s\<lparr>cs_loop := l\<rparr>) = Done s'" "cb_typed itf s'"
    by auto
  have "TimeoutUnregisterCb itf clk obj ctx tctx free s = obind (drop_pair ctx free (s\<lparr>cs_loop := l\<rparr>))
      (\<lambda>s1. Done (if uiHandled pr = 0 then fst (eloop_cancel_timeout clk (OnTimeoutCallbackFuncDynamic itf) ctx
         (if tctx = NULL then GetTimeoutCtx itf obj else tctx) (cs_loop s)) else 1, s1))"
    by (simp add: TimeoutUnregisterCb_def pr l_def split_def Let_def)
  with s' show ?thesis by simp
qed

text \<open>Every admissible call of a typed state comes back, and the state is typed again.\<close>

lemma itf_exec_typed:
  assumes typed: "cb_typed itf s" and ok: "itf_ok itf c s" and d: "distinct_handlers itf"
  shows "\<exists>s'. itf_exec itf c s = Done s' \<and> cb_typed itf s'"
proof (cases c)
  case (SigReg p ok' obj fn sig ctx)
  with ok have "\<exists>r s'. SignalRegisterCb itf p ok' obj fn sig ctx s = Done (r, s') \<and> cb_typed itf s'"
    unfolding SignalRegisterCb_def
    by (intro signal_pairs.register_typed [OF typed])
      (auto simp: reuse_ok_def eloop_register_signal_def Let_def split: if_splits)
  from obind_snd [OF this] show ?thesis by (simp add: SigReg)
next
  case (ReadReg p ok' obj fn sock sctx ctx)
  with ok have "\<exists>r s'. ReadRegisterCb itf p ok' obj fn sock sctx ctx s = Done (r, s') \<and> cb_typed itf s'"
    unfolding ReadRegisterCb_def eloop_register_read_sock_def
    by (intro sock_pairs.register_typed [OF typed])
      (auto simp: reuse_ok_def eloop_register_sock_def eloop_get_sock_table_def eloop_sock_table_add_sock_def Let_def
        split: if_splits)
  from obind_snd [OF this] show ?thesis by (simp add: ReadReg)
next
  case (WriteReg p ok' obj fn sock sctx ctx)
  with ok have "\<exists>r s'. WriteRegisterCb itf p ok' obj fn sock sctx ctx s = Done (r, s') \<and> cb_typed itf s'"
    unfolding WriteRegisterCb_def
    by (intro sock_pairs.register_typed [OF typed])
      (auto simp: reuse_ok_def eloop_register_sock_def eloop_get_sock_table_def eloop_sock_table_add_sock_def Let_def
        split: if_splits)
  from obind_snd [OF this] show ?thesis by (simp add: WriteReg)
next
  case (TimerReg p q clk obj fn secs usecs tctx ctx)
  with ok have "\<exists>r s'. TimeoutRegisterCb itf p q clk obj fn secs usecs tctx ctx s = Done (r, s') \<and> cb_typed itf s'"
    unfolding TimeoutRegisterCb_def
    by (intro timeout_pairs.register_typed [OF typed])
      (auto simp: reuse_ok_def eloop_register_timeout_def eloop_register_timeout0_def Let_def split: if_splits)
  from obind_snd [OF this] show ?thesis by (simp add: TimerReg)
next
  case (SigUnreg ctx free)
  with ok typed_drop [OF typed] show ?thesis by (simp add: SignalUnregisterCb_def delete_ok_def)
next
  case (ReadUnreg obj ctx sock free)
  have t: "cb_typed itf (ReadUnregister itf obj sock s)"
    unfolding ReadUnregister_def eloop_unregister_read_sock_def by (rule typed_loop [OF typed refs_unregister_sock])
  from typed_drop [OF this, of ctx free] ok show ?thesis
    by (simp add: ReadUnreg ReadUnregisterCb_def ReadUnregister_def delete_ok_def)
next
  case (WriteUnreg obj ctx sock free)
  have t: "cb_typed itf (WriteUnregister itf obj sock s)"
    unfolding WriteUnregister_def by (rule typed_loop [OF typed refs_unregister_sock])
  from typed_drop [OF this, of ctx free] ok show ?thesis
    by (simp add: WriteUnreg WriteUnregisterCb_def WriteUnregister_def delete_ok_def)
next
  case (TimerUnreg clk obj ctx tctx free)
  from obind_snd [OF timer_unreg_typed [OF typed ok [unfolded TimerUnreg]]] show ?thesis by (simp add: TimerUnreg)
next
  case FireFirst
  with fire_first_typed [OF typed] show ?thesis by simp
next
  case (SockReady ty i)
  with sock_ready_typed [OF typed] show ?thesis by simp
next
  case (SignalReady i)
  with signal_ready_typed [OF typed] show ?thesis by simp
next
  case (SigRegSelf ok' obj sig)
  from d have "OnSignalFunc itf \<noteq> OnSignalFuncDynamic itf" by (auto simp: distinct_handlers_def)
  from typed_loop [OF typed refs_register_signal(2) [OF this]] show ?thesis
    by (simp add: SigRegSelf SignalRegister_def split_def Let_def)
next
  case (ReadRegSelf ok' obj sock sctx)
  from d have "OnSocketReceiveFunc itf \<noteq> OnSocketReceiveFuncDynamic itf" "OnSocketReceiveFunc itf \<noteq> OnSocketWriteFuncDynamic itf"
    by (auto simp: distinct_handlers_def)
  from typed_loop [OF typed refs_register_sock(2) [OF this]] show ?thesis
    by (simp add: ReadRegSelf ReadRegister_def split_def Let_def eloop_register_read_sock_def)
next
  case (WriteRegSelf ok' obj sock sctx)
  from d have "OnSocketWriteFunc itf \<noteq> OnSocketReceiveFuncDynamic itf" "OnSocketWriteFunc itf \<noteq> OnSocketWriteFuncDynamic itf"
    by (auto simp: distinct_handlers_def)
  from typed_loop [OF typed refs_register_sock(2) [OF this]] show ?thesis
    by (simp add: WriteRegSelf WriteRegister_def split_def Let_def)
next
  case (ReadUnregSelf obj sock)
  then show ?thesis using typed_loop [OF typed refs_unregister_sock]
    by (simp add: ReadUnregister_def eloop_unregister_read_sock_def)
next
  case (WriteUnregSelf obj sock)
  then show ?thesis using typed_loop [OF typed refs_unregister_sock] by (simp add: WriteUnregister_def)
next
  case (TimerRegSelf q clk obj secs usecs tctx)
  from d have "OnTimeoutCallbackFunc itf \<noteq> OnTimeoutCallbackFuncDynamic itf" by (auto simp: distinct_handlers_def)
  from typed_loop [OF typed refs_register_timeout_other [OF this]] show ?thesis
    by (simp add: TimerRegSelf TimeoutRegisterId_def split_def Let_def eloop_register_timeout_def)
next
  case (TimerUnregSelf clk obj tctx)
  then show ?thesis using typed_loop [OF typed refs_cancel_timeout]
    by (simp add: TimeoutUnregisterId_def split_def Let_def eloop_cancel_timeout_def)
next
  case (WdtReg q clk obj secs usecs tctx)
  from d have "itf_wdt_handler itf \<noteq> OnTimeoutCallbackFuncDynamic itf" by (auto simp: distinct_handlers_def)
  from typed_loop [OF typed refs_register_timeout_other [OF this]] show ?thesis
    by (simp add: WdtReg WatchdogTimeoutRegister_def split_def Let_def eloop_register_watchdog_timeout_def)
next
  case (WdtUnreg clk obj tctx)
  then show ?thesis using typed_loop [OF typed refs_cancel_timeout]
    by (simp add: WatchdogTimeoutUnregister_def split_def Let_def eloop_cancel_watchdog_timeout_def)
qed

section \<open>Properties\<close>

text \<open>C33. A program that deletes a pair only when it is live and nothing registered refers to it, and reuses only live pairs in
  registrations that succeed, never makes the interfaces follow a dangling pointer: every call and every callback of
  the loop returns, and the loop refers to live pairs only.\<close>

theorem pairs_stay_live:
  assumes "cb_typed itf s" and "itf_script_ok itf cs s" and "distinct_handlers itf"
  shows "\<exists>s'. itf_calls itf cs s = Done s' \<and> cb_typed itf s'"
  using assms(1,2)
proof (induction cs arbitrary: s)
  case Nil
  then show ?case by simp
next
  case (Cons c cs)
  from Cons.prems have "itf_ok itf c s" by simp
  from itf_exec_typed [OF Cons.prems(1) this assms(3)] obtain s1 where
    "itf_exec itf c s = Done s1" "cb_typed itf s1" by auto
  with Cons show ?case by simp
qed

definition sample_itf :: itf where
  "sample_itf = \<lparr>OnSignalFuncDynamic = 1, OnSignalFunc = 2, OnSocketReceiveFuncDynamic = 3, OnSocketWriteFuncDynamic = 4,
     OnSocketReceiveFunc = 5, OnSocketWriteFunc = 6, OnTimeoutCallbackFuncDynamic = 7, OnTimeoutCallbackFunc = 8,
     itf_wdt_handler = 9, GetSignalNo = (\<lambda>_. 2), GetSocketFd = (\<lambda>_. 3), GetSocketCtx = (\<lambda>p. p), GetTimeoutCtx = (\<lambda>p. p),
     GetWatchdogTimeoutCtx = (\<lambda>p. p)\<rparr>"

definition sample_cbs :: cb_sys where
  "sample_cbs = \<lparr>cs_pair = Map.empty, cs_loop = boot 1, cs_calls = []\<rparr>"

definition sample_script :: "itf_call list" where
  "sample_script = [TimerReg 64 128 (\<lambda>_. tm 5 0) 32 33 1 0 NULL NULL, FireFirst,
     TimerUnreg (\<lambda>_. tm 6 0) 32 64 NULL True]"

lemma sample_itf_distinct: "distinct_handlers sample_itf"
  by (simp add: distinct_handlers_def sample_itf_def)

lemma sample_cbs_typed: "cb_typed itf sample_cbs"
  by (simp add: cb_typed_def sample_cbs_def boot_def zero_eloop_def refs_def refs_defs)

theorem pairs_stay_live_witness:
  "\<exists>s'. itf_calls sample_itf sample_script sample_cbs = Done s' \<and> cb_typed sample_itf s'"
proof (rule pairs_stay_live [OF sample_cbs_typed _ sample_itf_distinct])
  show "itf_script_ok sample_itf sample_script sample_cbs"
    by code_simp
qed

lemma typed_dead: "cb_typed itf s \<Longrightarrow> cs_pair s p = None \<Longrightarrow> p \<notin> refs itf (cs_loop s)"
  by (auto simp: cb_typed_def)

lemma no_match_dead:
  assumes "p \<notin> refs itf l" and "p \<noteq> NULL" and "p \<noteq> ELOOP_ALL_CTX" and "t \<in> set (el_timeout (sy_eloop l))"
  shows "\<not> timeout_matches (OnTimeoutCallbackFuncDynamic itf) p ud t"
  using assms by (auto simp: timeout_matches_def refs_def timeout_refs_def)

text \<open>C34. A timeout registered with a new pair and cancelled with the same user data is removed alone: the result is
  1, the list is as before and the pair is deleted. If it runs first, its method is called once on its object, and the
  cancellation, which then does not look for it in the list, also returns 1 and deletes the pair.\<close>

theorem timeout_pair_lifecycle:
  assumes typed: "cb_typed itf s" and p: "p \<noteq> NULL" "p \<noteq> ELOOP_ALL_CTX" "cs_pair s p = None" and q: "q \<noteq> NULL"
  shows "\<exists>s1 s2. TimeoutRegisterCb itf p q clk obj fn secs usecs tctx NULL s = Done (p, s1) \<and>
     TimeoutUnregisterCb itf clk' obj p tctx True s1 = Done (1, s2) \<and>
     el_timeout (sy_eloop (cs_loop s2)) = el_timeout (sy_eloop (cs_loop s)) \<and> cs_pair s2 = cs_pair s \<and>
     (\<forall>l ctx. \<exists>s3 s4. itf_callback itf (TimeoutCb (OnTimeoutCallbackFuncDynamic itf) p ctx) (s1\<lparr>cs_loop := l\<rparr>) = Done s3 \<and>
        cs_calls s3 = cs_calls s @ [MethodCall obj (Some fn) 0 ctx] \<and>
        TimeoutUnregisterCb itf clk' obj p tctx True s3 = Done (1, s4) \<and> cs_loop s4 = l \<and> cs_pair s4 = cs_pair s)"
proof -
  let ?h = "OnTimeoutCallbackFuncDynamic itf"
  let ?u = "if tctx = NULL then GetTimeoutCtx itf obj else tctx"
  let ?pr = "\<lparr>fp_obj = obj, fp_method = fn, uiHandled = 0\<rparr>"
  let ?l = "snd (eloop_register_timeout q clk secs usecs ?h p ?u (cs_loop s))"
  let ?s1 = "s\<lparr>cs_pair := (cs_pair s)(p \<mapsto> ?pr), cs_loop := ?l\<rparr>"
  let ?l2 = "snd (eloop_cancel_timeout clk' ?h p ?u ?l)"
  let ?s2 = "s\<lparr>cs_pair := cs_pair s, cs_loop := ?l2\<rparr>"
  let ?ts = "el_timeout (sy_eloop (cs_loop s))"
  have gone: "(cs_pair s)(p := None) = cs_pair s" using p(3) by (simp add: fun_upd_idem)
  have "\<forall>t \<in> set ?ts. \<not> timeout_matches ?h p ?u t"
    using no_match_dead [OF typed_dead [OF typed p(3)] p(1,2)] by blast
  moreover have l: "el_timeout (sy_eloop ?l) = insert_timeout (new_timeout q (clk 0) secs usecs ?h p ?u False) ?ts"
    using q by (simp add: eloop_register_timeout_def eloop_register_timeout0_def)
  ultimately have "filter (timeout_matches ?h p ?u) (el_timeout (sy_eloop ?l)) = [new_timeout q (clk 0) secs usecs ?h p ?u False] \<and>
      filter (\<lambda>t. \<not> timeout_matches ?h p ?u t) (el_timeout (sy_eloop ?l)) = ?ts"
    unfolding l by (intro filter_insert_timeout) (simp_all add: timeout_matches_def new_timeout_def)
  then have c: "fst (eloop_cancel_timeout clk' ?h p ?u ?l) = 1" "el_timeout (sy_eloop ?l2) = ?ts"
    unfolding eloop_cancel_timeout_def cancel_timeout0_result by simp_all
  have "fst (eloop_register_timeout q clk secs usecs ?h p ?u (cs_loop s)) = 0"
    using q by (simp add: eloop_register_timeout_def eloop_register_timeout0_def Let_def)
  then have r: "TimeoutRegisterCb itf p q clk obj fn secs usecs tctx NULL s = Done (p, ?s1)"
    using p(1) by (simp add: TimeoutRegisterCb_def fill_pair_def registered_def)
  have u: "TimeoutUnregisterCb itf clk' obj p tctx True ?s1 = Done (1, ?s2)"
    using p(1) c(1) gone by (simp add: TimeoutUnregisterCb_def split_def Let_def drop_pair_def delete_pair_def)
  let ?s3 = "\<lambda>l ctx. ?s1\<lparr>cs_pair := (cs_pair s)(p \<mapsto> ?pr\<lparr>uiHandled := 1\<rparr>), cs_loop := l,
     cs_calls := cs_calls s @ [MethodCall obj (Some fn) 0 ctx]\<rparr>"
  have f: "itf_callback itf (TimeoutCb ?h p ctx) (?s1\<lparr>cs_loop := l\<rparr>) = Done (?s3 l ctx)" for l ctx
    using p(1) by (simp add: forward_pair_def)
  have g: "TimeoutUnregisterCb itf clk' obj p tctx True (?s3 l ctx) = Done (1, (?s3 l ctx)\<lparr>cs_pair := cs_pair s\<rparr>)" for l ctx
    using p(1) gone by (simp add: TimeoutUnregisterCb_def drop_pair_def delete_pair_def)
  show ?thesis
  proof (intro exI conjI allI)
    show "TimeoutRegisterCb itf p q clk obj fn secs usecs tctx NULL s = Done (p, ?s1)" by (rule r)
    show "TimeoutUnregisterCb itf clk' obj p tctx True ?s1 = Done (1, ?s2)" by (rule u)
    show "el_timeout (sy_eloop (cs_loop ?s2)) = ?ts" using c(2) by (simp split del: if_split)
    show "cs_pair ?s2 = cs_pair s" by simp
    fix l ctx
    show "itf_callback itf (TimeoutCb ?h p ctx) (?s1\<lparr>cs_loop := l\<rparr>) = Done (?s3 l ctx)" by (rule f)
    show "cs_calls (?s3 l ctx) = cs_calls s @ [MethodCall obj (Some fn) 0 ctx]" by simp
    show "TimeoutUnregisterCb itf clk' obj p tctx True (?s3 l ctx) = Done (1, (?s3 l ctx)\<lparr>cs_pair := cs_pair s\<rparr>)"
      by (rule g)
    show "cs_loop ((?s3 l ctx)\<lparr>cs_pair := cs_pair s\<rparr>) = l" "cs_pair ((?s3 l ctx)\<lparr>cs_pair := cs_pair s\<rparr>) = cs_pair s"
      by simp_all
  qed
qed

theorem timeout_pair_lifecycle_witness:
  "\<exists>s1 s2. TimeoutRegisterCb sample_itf 64 128 (\<lambda>_. tm 5 0) 32 33 1 0 NULL NULL sample_cbs = Done (64, s1) \<and>
     TimeoutUnregisterCb sample_itf (\<lambda>_. tm 5 1) 32 64 NULL True s1 = Done (1, s2) \<and>
     el_timeout (sy_eloop (cs_loop s2)) = []"
proof -
  have "(64 :: ptr) \<noteq> NULL" "(64 :: ptr) \<noteq> ELOOP_ALL_CTX" "cs_pair sample_cbs 64 = None" "(128 :: ptr) \<noteq> NULL"
    "el_timeout (sy_eloop (cs_loop sample_cbs)) = []"
    by (simp_all add: ELOOP_ALL_CTX_def sample_cbs_def boot_def zero_eloop_def)
  with timeout_pair_lifecycle [OF sample_cbs_typed [of sample_itf], of 64 128 "\<lambda>_. tm 5 0" 32 33 1 0 NULL "\<lambda>_. tm 5 1"]
  show ?thesis by metis
qed

lemma signal_refs_append:
  "signal_refs itf (rs @ [r]) = (if sg_handler r = OnSignalFuncDynamic itf then insert (sg_user_data r) (signal_refs itf rs)
     else signal_refs itf rs)"
  by (simp add: signal_refs_def)

text \<open>Unregistering a signal deletes its pair but leaves the row in the event loop: the next delivery of the signal makes the
  loop follow the dangling pointer.\<close>

lemma unregistered_signal_crashes:
  assumes "p \<noteq> NULL" and "cs_pair s p = None" and "el_user_data (sy_eloop (cs_loop s)) \<noteq> NULL"
  shows "\<exists>s1 s2. SignalRegisterCb itf p True obj fn sig NULL s = Done (p, s1) \<and> SignalUnregisterCb p True s1 = Done s2 \<and>
     cs_loop s2 = cs_loop s1 \<and> p \<in> refs itf (cs_loop s2) \<and> cs_pair s2 p = None \<and>
     itf_exec itf (SignalReady (length (el_signals (sy_eloop (cs_loop s))))) s2 = Crash"
  using assms
  by (simp add: SignalRegisterCb_def SignalUnregisterCb_def fill_pair_def registered_def drop_pair_def delete_pair_def
      eloop_register_signal_def Let_def forward_pair_def nth_append refs_def signal_refs_append)

lemma unregistered_signal_crashes_witness:
  "\<exists>s1 s2. SignalRegisterCb sample_itf 64 True 32 33 2 NULL (sample_cbs\<lparr>cs_loop := snd (eloop_init 16 (boot 1))\<rparr>) = Done (64, s1) \<and>
     SignalUnregisterCb 64 True s1 = Done s2 \<and> itf_exec sample_itf (SignalReady 0) s2 = Crash"
proof -
  let ?s = "sample_cbs\<lparr>cs_loop := snd (eloop_init 16 (boot 1))\<rparr>"
  have "(64 :: ptr) \<noteq> NULL" "cs_pair ?s 64 = None" "el_user_data (sy_eloop (cs_loop ?s)) \<noteq> NULL"
    "length (el_signals (sy_eloop (cs_loop ?s))) = 0"
    by (simp_all add: sample_cbs_def eloop_init_def zero_eloop_def)
  with unregistered_signal_crashes [of 64 ?s sample_itf 32 33 2] show ?thesis by metis
qed

text \<open>An object whose task exits at once keeps the address of the freed task: \<open>TaskStopSelf\<close>, which the destructor calls,
  frees it again.\<close>

lemma object_of_exited_task_frees_twice:
  assumes home: "at_home {} s" and p: "p \<noteq> NULL" "p \<noteq> ts_default s" and "ts_onexit s = NULL"
    and "\<And>s'. rt p 0 s' = Exit NULL d"
  shows "\<exists>s'. TaskStartSelf (n + 2) tmo rt cbs p0 p s = Done (p, s') \<and> TaskStopSelf p s' = Crash"
proof -
  let ?s = "put_ctx p new_ctx s"
  have "at_home {} ?s" using home p by (auto simp: at_home_def no_leftover_def new_ctx_def put_ctx_def)
  from exited_task_leaves_handlers [OF this, of p new_ctx rt d n tmo cbs p0] assms obtain s' where
    "start_task (n + 2) tmo rt cbs p0 p ?s = Done s'" "ts_ctx s' p = None"
    by (auto simp: new_ctx_def simp del: add_2_eq_Suc')
  with p show ?thesis
    by (auto simp: TaskStartSelf_def make_task_def TaskStopSelf_def destroy_task_def with_ctx_def simp del: add_2_eq_Suc')
qed

lemma object_of_exited_task_frees_twice_witness:
  "\<forall>l. \<exists>s'. TaskStartSelf 2 9 (\<lambda>_ _ _. Exit NULL NULL) (\<lambda>_ _ _ _. []) 0 8
     \<lparr>ts_default = 4, ts_cur = 4, ts_onexit = 0, ts_ctx = Map.empty, ts_loop = l, ts_log = []\<rparr> = Done (8, s') \<and>
     TaskStopSelf 8 s' = Crash"
proof
  fix l
  let ?s = "\<lparr>ts_default = 4, ts_cur = 4, ts_onexit = 0, ts_ctx = Map.empty, ts_loop = l, ts_log = []\<rparr>"
  have "at_home {} ?s" by (simp add: at_home_def no_leftover_def)
  from object_of_exited_task_frees_twice [OF this, of 8 "\<lambda>_ _ _. Exit NULL NULL" NULL 0 9 "\<lambda>_ _ _ _. []" 0]
  show "\<exists>s'. TaskStartSelf 2 9 (\<lambda>_ _ _. Exit NULL NULL) (\<lambda>_ _ _ _. []) 0 8 ?s = Done (8, s') \<and> TaskStopSelf 8 s' = Crash"
    by (simp del: add_2_eq_Suc')
qed

end
