(* ===== verification/Sub_Process.thy ===== *)
theory Sub_Process
  imports Log_Server
begin

text \<open>
  Sub processes of etc/unixProcess.c: the command line, the redirection of the descriptors, the
  start of a child whose process number a file keeps, and the operations on that file; and the
  output of a command. Parent and child run side by side; their steps are a relation.
\<close>

section \<open>The command line\<close>

text \<open>
  The loop over the arguments: \<open>n\<close> slots of \<open>argv\<close> are left. The list needs a slot for the terminating null; without one
  it is written behind the array, or \<open>execvp\<close> reads behind it.
\<close>

fun args_from :: "nat \<Rightarrow> string \<Rightarrow> string list outcome" where
  "args_from 0 s = Crash"
| "args_from (Suc n) s =
     (let a = takeWhile (\<lambda>c. c \<noteq> CHR '' '') s
      in if length a = length s then (if n = 0 then Crash else Done [s])
         else obind (args_from n (drop (Suc (length a)) s)) (\<lambda>r. Done (a # r)))"

definition split_args :: "string \<Rightarrow> string list outcome" where
  "split_args runStr = args_from 256 runStr"

text \<open>What \<open>execvp\<close> is given: the part behind the last slash when the first argument is an absolute path.\<close>

definition exec_file :: "string list \<Rightarrow> string" where
  "exec_file argv =
     (case hd argv of [] \<Rightarrow> []
      | c # r \<Rightarrow> if c = CHR ''/'' then rev (takeWhile (\<lambda>c. c \<noteq> CHR ''/'') (rev (c # r))) else c # r)"

section \<open>Descriptors\<close>

text \<open>What each descriptor refers to; system calls on it.\<close>

type_synonym fds = "string option list"

definition get_fd :: "nat \<Rightarrow> fds \<Rightarrow> string option" where
  "get_fd n t = (if n < length t then t ! n else None)"

definition set_fd :: "nat \<Rightarrow> string option \<Rightarrow> fds \<Rightarrow> fds" where
  "set_fd n v t = (if n < length t then t[n := v] else t @ replicate (n - length t) None @ [v])"

fun lowest_free :: "fds \<Rightarrow> nat" where
  "lowest_free [] = 0"
| "lowest_free (x # t) = (if x = None then 0 else Suc (lowest_free t))"

definition close_fd :: "nat \<Rightarrow> fds \<Rightarrow> fds" where
  "close_fd n t = (if n < length t then t[n := None] else t)"

definition dup2 :: "nat \<Rightarrow> nat \<Rightarrow> fds \<Rightarrow> int \<times> fds" where
  "dup2 oldfd newfd t = (if get_fd oldfd t = None then (-1, t) else (int newfd, set_fd newfd (get_fd oldfd t) t))"

definition MY_DUP2 :: "nat \<Rightarrow> nat \<Rightarrow> fds \<Rightarrow> int \<times> fds" where
  "MY_DUP2 oldfd newfd t = dup2 oldfd newfd (close_fd newfd t)"

text \<open>\<open>openable\<close> tells whether one of the two calls of \<open>open\<close> succeeds.\<close>

definition redirect_fd :: "(string \<Rightarrow> bool) \<Rightarrow> nat \<Rightarrow> string \<Rightarrow> fds \<Rightarrow> int \<times> fds" where
  "redirect_fd openable fd filename t =
     (if \<not> openable filename then (-1, t)
      else (let i = lowest_free t;
                (fdout, t1) = MY_DUP2 i fd (set_fd i (Some filename) t)
            in (fdout, close_fd i t1)))"

text \<open>The redirections of the child; the name is compared with \<open>stdout\<close> before it is tested for null.\<close>

definition redirect_child :: "(string \<Rightarrow> bool) \<Rightarrow> string option \<Rightarrow> fds \<Rightarrow> fds outcome" where
  "redirect_child openable outputFileName t =
     (let t1 = snd (redirect_fd openable 0 ''/dev/null'' t)
      in case outputFileName of
           None \<Rightarrow> Crash
         | Some name \<Rightarrow>
             if name = ''stdout'' then Done t1
             else Done (snd (MY_DUP2 1 2 (snd (redirect_fd openable 1 name t1)))))"

section \<open>The file with the process number\<close>

text \<open>\<open>%d\<close> of \<open>fprintf\<close> and of \<open>fscanf\<close>, which leaves the variable as it was when there is no number.\<close>

definition percent_d :: "int \<Rightarrow> string" where
  "percent_d n = (if n < 0 then CHR ''-'' # percent_lu (nat (- n)) else percent_lu (nat n))"

definition read_pid :: "int \<Rightarrow> string option \<Rightarrow> int" where
  "read_pid unset content =
     (case content of
        None \<Rightarrow> unset
      | Some s \<Rightarrow> (case scan_d (length s) s of None \<Rightarrow> unset | Some (n, _) \<Rightarrow> n))"

text \<open>
  The three operations on the file, each with its contents as argument, give the call they make: \<open>kill\<close> with
  \<open>SIGKILL\<close>, or \<open>waitpid\<close>, whose status is an argument (\<open>None\<close> for a failure), and whether the file is removed.
\<close>

definition kill_sub_process :: "string option \<Rightarrow> int option \<times> string option" where
  "kill_sub_process content =
     (let proc1pid = read_pid (-1) content in (if 0 \<le> proc1pid then Some proc1pid else None, None))"

definition wait_sub_process :: "(int \<Rightarrow> int option) \<Rightarrow> string option \<Rightarrow> int \<times> string option" where
  "wait_sub_process waitpid content =
     (let proc1pid = read_pid (-1) content
      in (if 0 \<le> proc1pid then case_option (-1) (\<lambda>st. st) (waitpid proc1pid) else -1, None))"

definition check_sub_process :: "(int \<Rightarrow> int option) \<Rightarrow> string option \<Rightarrow> int \<times> string option" where
  "check_sub_process waitpid content =
     (let proc1pid = read_pid (-1) content
      in (if 0 \<le> proc1pid then case_option (-1) (\<lambda>st. st) (waitpid proc1pid) else -1, content))"

section \<open>Starting a child\<close>

text \<open>
  The points of \<open>safe_fork\<close> and \<open>run_sub_process\<close> (\<open>USE_DEFAULT_FORK\<close> 0) where the other process or the file
  matters. The number \<open>-1\<close> is that of a \<open>fork\<close> that failed. \<open>sp_pid\<close> is the number the kernel gave the child.
\<close>

datatype parent_pc =
    PFork
  | PWrite int      \<comment> \<open>the result of fork\<close>
  | PWait int
  | PRead int       \<comment> \<open>the status\<close>
  | PReturned int

datatype child_pc = CNone | CPrepare | CExec string "string list" | CUnlink | CRunning | CCrashed | CExited int

record sub_sys =
  sp_file :: "string option"
  sp_parent :: parent_pc
  sp_child :: child_pc
  sp_pid :: int
  sp_fds :: fds

text \<open>
  The world: the arguments of the call, which programs \<open>execvp\<close> finds, which files can be opened and whether the kernel
  takes \<open>WNOWAIT\<close> in \<open>waitpid\<close>.
\<close>

record sub_env =
  se_runStr :: string
  se_outputFileName :: "string option"
  se_can_exec :: "string \<Rightarrow> string list \<Rightarrow> bool"
  se_openable :: "string \<Rightarrow> bool"
  se_writable :: bool
  se_nowait :: bool

definition after_write :: "int \<Rightarrow> parent_pc" where
  "after_write pid = (if pid = -1 then PReturned (-1) else PWait pid)"

definition write_pid :: "sub_env \<Rightarrow> int \<Rightarrow> string option \<Rightarrow> string option" where
  "write_pid env pid content = (if se_writable env then Some (percent_d pid @ [NEWLINE]) else content)"

definition start_result :: "int \<Rightarrow> string option \<Rightarrow> int" where
  "start_result status content =
     (if read_pid (-999997) content = -999997 \<and> status = -999998 then -3 else 0)"

text \<open>What the child does before \<open>execvp\<close>.\<close>

definition prepare_child :: "sub_env \<Rightarrow> fds \<Rightarrow> (child_pc \<times> fds)" where
  "prepare_child env t =
     (case split_args (se_runStr env) of
        Done argv \<Rightarrow>
          (case redirect_child (se_openable env) (se_outputFileName env) t of
             Done t' \<Rightarrow> (CExec (exec_file argv) argv, t')
           | _ \<Rightarrow> (CCrashed, t))
      | _ \<Rightarrow> (CCrashed, t))"

definition exec_child :: "sub_env \<Rightarrow> string \<Rightarrow> string list \<Rightarrow> child_pc" where
  "exec_child env f argv = (if se_can_exec env f argv then CRunning else CUnlink)"

inductive sub_step :: "sub_env \<Rightarrow> sub_sys \<Rightarrow> sub_sys \<Rightarrow> bool" for env where
  fork: "sp_parent s = PFork \<Longrightarrow> 0 < pid \<Longrightarrow> pid < 2 ^ 31 \<Longrightarrow>
    sub_step env s (s\<lparr>sp_parent := PWrite pid, sp_child := CPrepare, sp_pid := pid\<rparr>)"
| fork_fails: "sp_parent s = PFork \<Longrightarrow> sub_step env s (s\<lparr>sp_parent := PWrite (-1)\<rparr>)"
| write_file: "sp_parent s = PWrite pid \<Longrightarrow>
    sub_step env s (s\<lparr>sp_file := write_pid env pid (sp_file s), sp_parent := after_write pid\<rparr>)"
| wait_fails: "sp_parent s = PWait pid \<Longrightarrow> \<not> se_nowait env \<Longrightarrow> sub_step env s (s\<lparr>sp_parent := PRead (-999998)\<rparr>)"
| wait_child: "sp_parent s = PWait pid \<Longrightarrow> se_nowait env \<Longrightarrow> sp_child s = CExited status \<Longrightarrow>
    sub_step env s (s\<lparr>sp_parent := PRead status\<rparr>)"
| wait_crashed: "sp_parent s = PWait pid \<Longrightarrow> se_nowait env \<Longrightarrow> sp_child s = CCrashed \<Longrightarrow>
    sub_step env s (s\<lparr>sp_parent := PRead status\<rparr>)"
| read_file: "sp_parent s = PRead status \<Longrightarrow>
    sub_step env s (s\<lparr>sp_parent := PReturned (start_result status (sp_file s))\<rparr>)"
| prepare: "sp_child s = CPrepare \<Longrightarrow> prepare_child env (sp_fds s) = (c, t) \<Longrightarrow>
    sub_step env s (s\<lparr>sp_child := c, sp_fds := t\<rparr>)"
| exec: "sp_child s = CExec f argv \<Longrightarrow> sub_step env s (s\<lparr>sp_child := exec_child env f argv\<rparr>)"
| unlink: "sp_child s = CUnlink \<Longrightarrow> sub_step env s (s\<lparr>sp_file := None, sp_child := CExited 0xFF00\<rparr>)"
| child_exits: "sp_child s = CRunning \<Longrightarrow> sub_step env s (s\<lparr>sp_child := CExited status\<rparr>)"

code_pred sub_step .

definition sub_start :: "fds \<Rightarrow> sub_sys" where
  "sub_start t = \<lparr>sp_file = None, sp_parent = PFork, sp_child = CNone, sp_pid = -1, sp_fds = t\<rparr>"

inductive sub_run :: "sub_env \<Rightarrow> fds \<Rightarrow> sub_sys \<Rightarrow> bool" for env t where
  start: "sub_run env t (sub_start t)"
| more_steps: "sub_run env t s \<Longrightarrow> sub_step env s s' \<Longrightarrow> sub_run env t s'"

section \<open>The output of a command\<close>

text \<open>
  \<open>systemGetPipeStr\<close> appends what the command writes to the caller's string: \<open>fgets\<close> takes pieces of at most 1023 characters that end
  with a newline, \<open>strcat\<close> copies a piece up to its first zero byte. The caller's buffer has \<open>cap\<close> bytes.
\<close>

definition fgets_piece :: "nat \<Rightarrow> string \<Rightarrow> string" where
  "fgets_piece n s =
     (let t = take (n - 1) s; a = takeWhile (\<lambda>c. c \<noteq> CHR 0x0A) t in take (length a + 1) t)"

lemma fgets_piece_nonempty: "1 < n \<Longrightarrow> s \<noteq> [] \<Longrightarrow> fgets_piece n s \<noteq> []"
  by (cases s; cases "n - 1") (simp_all add: fgets_piece_def Let_def)

lemma fgets_piece_prefix: "fgets_piece n s @ drop (length (fgets_piece n s)) s = s"
proof -
  have "fgets_piece n s = take (length (fgets_piece n s)) s"
    by (simp add: fgets_piece_def Let_def min_def)
  then show ?thesis by (metis append_take_drop_id)
qed

function pipe_loop :: "nat \<Rightarrow> string \<Rightarrow> string \<Rightarrow> string outcome" where
  "pipe_loop cap ret s =
     (if s = [] then Done ret
      else
        (let buf = fgets_piece 1024 s; c = takeWhile (\<lambda>c. c \<noteq> NUL) buf
         in if length ret + length c + 1 > cap then Crash else pipe_loop cap (ret @ c) (drop (length buf) s)))"
  by auto
termination
proof (relation "measure (\<lambda>(_, _, s). length s)", goal_cases)
  case (2 cap ret s buf c)
  then have "buf \<noteq> []" using fgets_piece_nonempty [of 1024 s] by simp
  with 2 show ?case by simp
qed simp

declare pipe_loop.simps [simp del]

definition systemGetPipeStr :: "nat \<Rightarrow> bool \<Rightarrow> string \<Rightarrow> string \<Rightarrow> (int \<times> string) outcome" where
  "systemGetPipeStr cap popen_ok pRetBuf output =
     (if popen_ok then obind (pipe_loop cap pRetBuf output) (\<lambda>r. Done (0, r)) else Done (-1, pRetBuf))"

lemma pipe_loop_appends:
  "NUL \<notin> set s \<Longrightarrow>
   pipe_loop cap ret s = (if s = [] \<or> length ret + length s < cap then Done (ret @ s) else Crash)"
proof (induction cap ret s rule: pipe_loop.induct)
  case (1 cap ret s)
  show ?case
  proof (cases "s = []")
    case False
    let ?b = "fgets_piece 1024 s" and ?r = "drop (length (fgets_piece 1024 s)) s"
    note s = fgets_piece_prefix [of 1024 s]
    have st: "set ?b \<subseteq> set s" by (subst (2) s [symmetric]) auto
    have n: "takeWhile (\<lambda>c. c \<noteq> NUL) ?b = ?b" using st "1.prems" by (intro takeWhile_eq_all_conv [THEN iffD2]) auto
    have len: "length s = length ?b + length ?r" by (subst s [symmetric]) (simp only: length_append)
    have "NUL \<notin> set ?r" using "1.prems" by (auto dest: in_set_dropD)
    then have IH: "length ret + length ?b + 1 \<le> cap \<Longrightarrow>
        pipe_loop cap (ret @ ?b) ?r =
          (if ?r = [] \<or> length (ret @ ?b) + length ?r < cap then Done ((ret @ ?b) @ ?r) else Crash)"
      using "1.IH" [OF False refl refl] unfolding n by simp
    have U: "pipe_loop cap ret s = (if length ret + length ?b + 1 > cap then Crash else pipe_loop cap (ret @ ?b) ?r)"
      using False by (subst pipe_loop.simps) (simp only: Let_def n if_False)
    have e: "(ret @ ?b) @ ?r = ret @ s" using s by simp
    show ?thesis
    proof (cases "length ret + length ?b + 1 > cap")
      case True
      moreover from True len have "\<not> length ret + length s < cap" by linarith
      ultimately show ?thesis using False unfolding U by simp
    next
      case False
      then have "pipe_loop cap ret s = pipe_loop cap (ret @ ?b) ?r"
        unfolding U by simp
      also have "\<dots> = (if ?r = [] \<or> length (ret @ ?b) + length ?r < cap then Done ((ret @ ?b) @ ?r) else Crash)"
        using IH False by linarith
      also have "(?r = [] \<or> length (ret @ ?b) + length ?r < cap) = (s = [] \<or> length ret + length s < cap)"
      proof -
        have "length ?r = 0 \<longleftrightarrow> ?r = []" by (rule length_0_conv)
        then show ?thesis using \<open>s \<noteq> []\<close> False len unfolding length_append by linarith
      qed
      finally show ?thesis unfolding e .
    qed
  qed (simp add: pipe_loop.simps)
qed

text \<open>The whole output arrives when it has no zero byte and fits; the buffer has no bound in the code, so more output
  than the caller expected overruns it.\<close>

lemma systemGetPipeStr_whole_output:
  assumes "NUL \<notin> set out" and "out \<noteq> []"
  shows "systemGetPipeStr cap True ret out =
    (if length ret + length out < cap then Done (0, ret @ out) else Crash)"
  using assms by (simp add: systemGetPipeStr_def pipe_loop_appends)

end
