(* ===== verification/Sub_Process_Laws.thy ===== *)
theory Sub_Process_Laws
  imports Sub_Process
begin

text \<open>
  What the splitting of a command line, the redirection of descriptors and the start of a child guarantee, and
  the order of steps in which the start goes wrong.
\<close>

inductive_cases sub_stepE: "sub_step env s s'"

section \<open>The command line\<close>

fun join_args :: "string list \<Rightarrow> string" where
  "join_args [] = []"
| "join_args [a] = a"
| "join_args (a # r) = a @ CHR '' '' # join_args r"

definition blanks :: "string \<Rightarrow> nat" where
  "blanks s = length (filter (\<lambda>c. c = CHR '' '') s)"

lemma args_from_last: "CHR '' '' \<notin> set s \<Longrightarrow> args_from (Suc n) s = (if n = 0 then Crash else Done [s])"
proof -
  assume "CHR '' '' \<notin> set s"
  then have t: "takeWhile (\<lambda>c. c \<noteq> CHR '' '') s = s" by (auto simp: takeWhile_eq_all_conv)
  show ?thesis unfolding args_from.simps Let_def t by simp
qed

lemma args_from_blank:
  assumes "CHR '' '' \<notin> set a"
  shows "args_from (Suc n) (a @ CHR '' '' # r) = obind (args_from n r) (\<lambda>x. Done (a # x))"
proof -
  have "takeWhile (\<lambda>c. c \<noteq> CHR '' '') (a @ CHR '' '' # r) = a" using assms by (induction a) auto
  then show ?thesis by (simp add: Let_def)
qed

lemma first_blank:
  obtains "CHR '' '' \<notin> set s" | a r where "s = a @ CHR '' '' # r" "CHR '' '' \<notin> set a"
  by (metis split_list_first)

lemma blanks_simps [simp]:
  "CHR '' '' \<notin> set s \<Longrightarrow> blanks s = 0"
  "CHR '' '' \<notin> set a \<Longrightarrow> blanks (a @ CHR '' '' # r) = Suc (blanks r)"
  unfolding blanks_def by (auto simp: filter_empty_conv)

lemma args_from_few:
  "blanks s + 1 < n \<Longrightarrow> \<exists>argv. args_from n s = Done argv \<and> length argv = blanks s + 1 \<and>
     (\<forall>a \<in> set argv. CHR '' '' \<notin> set a) \<and> join_args argv = s"
proof (induction n arbitrary: s)
  case 0
  then show ?case by simp
next
  case (Suc n)
  show ?case
  proof (cases rule: first_blank [of s])
    case 1
    with Suc.prems show ?thesis by (auto simp: args_from_last simp del: args_from.simps)
  next
    case (2 a r)
    with Suc.prems have "blanks r + 1 < n" by simp
    from Suc.IH [OF this] obtain argv where "args_from n r = Done argv" "length argv = blanks r + 1"
      "\<forall>a \<in> set argv. CHR '' '' \<notin> set a" "join_args argv = r" by auto
    then show ?thesis using 2 by (cases argv) (auto simp: args_from_blank simp del: args_from.simps)
  qed
qed

lemma args_from_many: "n \<le> blanks s + 1 \<Longrightarrow> args_from n s = Crash"
proof (induction n arbitrary: s)
  case 0
  then show ?case by simp
next
  case (Suc n)
  show ?case
  proof (cases rule: first_blank [of s])
    case 1
    with Suc.prems show ?thesis by (simp add: args_from_last del: args_from.simps)
  next
    case (2 a r)
    with Suc show ?thesis by (simp add: args_from_blank del: args_from.simps)
  qed
qed

text \<open>C35. The command line is cut at every single blank: the arguments joined by blanks are the line again, two blanks in a row give
  an empty argument. From 255 blanks on the array of arguments has no room for its terminating null.\<close>

theorem command_line_split:
  "(blanks s < 255 \<longrightarrow> (\<exists>argv. split_args s = Done argv \<and> length argv = blanks s + 1 \<and>
      (\<forall>a \<in> set argv. CHR '' '' \<notin> set a) \<and> join_args argv = s)) \<and>
   (255 \<le> blanks s \<longrightarrow> split_args s = Crash)"
  using args_from_few [of s 256] args_from_many [of 256 s] by (simp add: split_args_def)

theorem command_line_split_witness:
  "\<exists>argv. split_args ''/bin/ls -l  x'' = Done argv \<and> length argv = 4 \<and> join_args argv = ''/bin/ls -l  x''"
proof -
  have "blanks ''/bin/ls -l  x'' = 3" by (simp add: blanks_def)
  with command_line_split [of "''/bin/ls -l  x''"] show ?thesis by auto
qed

section \<open>Descriptors\<close>

lemma get_set_fd [simp]: "get_fd m (set_fd n v t) = (if m = n then v else get_fd m t)"
  by (auto simp: get_fd_def set_fd_def nth_append nth_list_update less_Suc_eq)

lemma get_close_fd [simp]: "get_fd m (close_fd n t) = (if m = n then None else get_fd m t)"
  by (auto simp: get_fd_def close_fd_def nth_list_update)

lemma get_lowest_free [simp]: "get_fd (lowest_free t) t = None"
proof -
  have "lowest_free t < length t \<longrightarrow> t ! lowest_free t = None" by (induction t) auto
  then show ?thesis by (simp add: get_fd_def)
qed

text \<open>An open descriptor refers to the file afterwards, the others are as before; a closed one may stay closed.\<close>

lemma redirect_fd_result:
  assumes "get_fd fd t \<noteq> None" and "openable filename"
  shows "fst (redirect_fd openable fd filename t) = int fd"
    and "get_fd m (snd (redirect_fd openable fd filename t)) = (if m = fd then Some filename else get_fd m t)"
  using assms get_lowest_free [of t]
  by (auto simp: redirect_fd_def MY_DUP2_def dup2_def Let_def split_def)

lemma redirect_closed_fd:
  assumes "lowest_free t = fd" and "openable filename"
  shows "fst (redirect_fd openable fd filename t) = -1 \<and> get_fd fd (snd (redirect_fd openable fd filename t)) = None"
  using assms by (auto simp: redirect_fd_def MY_DUP2_def dup2_def Let_def split_def)

section \<open>The file\<close>

lemma digit_char:
  "d < 10 \<Longrightarrow> int (of_char (''0123456789'' ! d)) - 48 = int d \<and> ''0123456789'' ! d \<in> set ''0123456789''"
proof -
  have "\<forall>d < 10. int (of_char (''0123456789'' ! d)) - 48 = int d \<and> ''0123456789'' ! d \<in> set ''0123456789''" by code_simp
  then show "d < 10 \<Longrightarrow> ?thesis" by blast
qed

lemma decimal_digits_value:
  "n < 10 ^ f \<Longrightarrow> 0 < f \<Longrightarrow> set (decimal_digits f n) \<subseteq> set ''0123456789'' \<and> decimal_digits f n \<noteq> [] \<and>
   foldl (\<lambda>v c. 10 * v + (int (of_char c) - 48)) 0 (decimal_digits f n) = int n"
proof (induction f arbitrary: n)
  case 0
  then show ?case by simp
next
  case (Suc f)
  show ?case
  proof (cases "n < 10")
    case True
    with digit_char [OF True] show ?thesis by simp
  next
    case False
    have q: "n div 10 < 10 ^ f" "0 < f" using Suc.prems(1) False
      by (simp_all add: less_mult_imp_div_less mult.commute) (cases f, simp_all)
    have "10 * (n div 10) + n mod 10 = n" by simp
    then have v: "10 * int (n div 10) + int (n mod 10) = int n" by (metis of_nat_add of_nat_mult of_nat_numeral)
    have "n mod 10 < 10" by simp
    with digit_char [OF this] Suc.IH [OF q] False v show ?thesis by simp
  qed
qed

lemma scan_digits:
  assumes d: "set ds \<subseteq> set ''0123456789''" "ds \<noteq> []" and c: "c \<notin> set ''0123456789''"
  shows "scan_d (length (ds @ [c])) (ds @ [c]) = Some (foldl (\<lambda>v c. 10 * v + (int (of_char c) - 48)) 0 ds, [c])"
proof -
  obtain x r where x: "ds = x # r" "x \<in> set ''0123456789''" using d by (cases ds) auto
  have "\<forall>x \<in> set ''0123456789''. \<not> white x \<and> x \<noteq> CHR ''-'' \<and> x \<noteq> CHR ''+''" by code_simp
  with x(2) have "\<not> white x \<and> x \<noteq> CHR ''-'' \<and> x \<noteq> CHR ''+''" by blast
  then have nw: "\<not> white x" "x \<noteq> CHR ''-''" "x \<noteq> CHR ''+''" by simp_all
  define D where "D = (\<lambda>c. c \<in> set ''0123456789'')"
  have "\<forall>y \<in> set ds. D y" "\<not> D c" unfolding D_def using d(1) c by blast+
  then have "takeWhile D (ds @ [c]) = ds" by (subst takeWhile_append2) simp_all
  then show ?thesis unfolding scan_d_def Let_def D_def [symmetric] using nw x(1) by simp
qed

lemma read_pid_write:
  assumes "0 \<le> n" and "n < 2 ^ 31"
  shows "read_pid unset (Some (percent_d n @ [NEWLINE])) = n"
proof -
  have "nat n < 10 ^ 20" using assms by simp
  from decimal_digits_value [OF this] have
    "scan_d (length (percent_lu (nat n) @ [NEWLINE])) (percent_lu (nat n) @ [NEWLINE]) = Some (n, [NEWLINE])"
    unfolding percent_lu_def using assms(1) by (subst scan_digits) (auto simp: NEWLINE_def)
  then show ?thesis using assms(1) by (simp add: read_pid_def percent_d_def)
qed

section \<open>Starting a child\<close>

text \<open>The child cannot run its program.\<close>

definition exec_impossible :: "sub_env \<Rightarrow> bool" where
  "exec_impossible env \<longleftrightarrow> (\<exists>argv. split_args (se_runStr env) = Done argv \<and> \<not> se_can_exec env (exec_file argv) argv)"

definition exec_failed :: "sub_env \<Rightarrow> sub_sys \<Rightarrow> bool" where
  "exec_failed env s \<longleftrightarrow> exec_impossible env \<and> sp_child s = CExited 0xFF00"

definition pid_file :: "sub_env \<Rightarrow> sub_sys \<Rightarrow> bool" where
  "pid_file env s \<longleftrightarrow> sp_file s = Some (percent_d (sp_pid s) @ [NEWLINE]) \<or> sp_file s = None \<and> exec_failed env s"

definition child_ok :: "sub_env \<Rightarrow> sub_sys \<Rightarrow> bool" where
  "child_ok env s \<longleftrightarrow>
     (case sp_child s of
        CExec f argv \<Rightarrow> split_args (se_runStr env) = Done argv \<and> f = exec_file argv
      | CUnlink \<Rightarrow> exec_impossible env
      | _ \<Rightarrow> True)"

definition has_child :: "sub_env \<Rightarrow> sub_sys \<Rightarrow> bool" where
  "has_child env s \<longleftrightarrow> 0 < sp_pid s \<and> sp_pid s < 2 ^ 31 \<and> sp_child s \<noteq> CNone \<and> child_ok env s"

definition sub_inv :: "sub_env \<Rightarrow> sub_sys \<Rightarrow> bool" where
  "sub_inv env s \<longleftrightarrow>
     (case sp_parent s of
        PFork \<Rightarrow> sp_child s = CNone
      | PWrite pid \<Rightarrow> if pid = -1 then sp_child s = CNone else pid = sp_pid s \<and> has_child env s
      | PWait pid \<Rightarrow> has_child env s \<and> (se_writable env \<longrightarrow> pid_file env s)
      | PRead status \<Rightarrow> has_child env s \<and> (se_writable env \<longrightarrow> pid_file env s)
      | PReturned r \<Rightarrow>
          if r = -1 then sp_child s = CNone
          else r \<in> {0, -3} \<and> has_child env s \<and>
               (se_writable env \<longrightarrow> pid_file env s \<and> (r = -3 \<longrightarrow> exec_failed env s)))"

lemmas sub_inv_defs = sub_inv_def has_child_def child_ok_def pid_file_def exec_failed_def

lemma start_result_file:
  assumes "has_child env s" and "se_writable env \<longrightarrow> pid_file env s"
  shows "start_result st (sp_file s) \<in> {0, -3} \<and>
     (se_writable env \<longrightarrow> start_result st (sp_file s) = -3 \<longrightarrow> exec_failed env s)"
  using assms read_pid_write [of "sp_pid s" "-999997"]
  by (auto simp: start_result_def has_child_def pid_file_def)

text \<open>A step of the child keeps what the parent relies on.\<close>

lemma sub_inv_child:
  assumes inv: "sub_inv env s" and c: "sp_child s \<noteq> CNone" "\<not> exec_failed env s"
    and p: "sp_parent s' = sp_parent s" "sp_pid s' = sp_pid s"
    and c': "sp_child s' \<noteq> CNone" "child_ok env s'" and f: "sp_file s' = sp_file s \<or> sp_file s' = None \<and> exec_failed env s'"
  shows "sub_inv env s'"
proof -
  have h: "has_child env s \<Longrightarrow> has_child env s'" using c' p by (simp add: has_child_def)
  have g: "pid_file env s \<Longrightarrow> pid_file env s'" using f c(2) p by (auto simp: pid_file_def)
  show ?thesis using inv c h g by (cases "sp_parent s") (auto simp: sub_inv_def p split: if_splits)
qed

lemma sub_inv_step:
  assumes step: "sub_step env s s'" and inv: "sub_inv env s"
  shows "sub_inv env s'"
  using step
proof (cases rule: sub_step.cases)
  case (fork pid)
  then show ?thesis by (simp add: sub_inv_def has_child_def child_ok_def)
next
  case fork_fails
  with inv show ?thesis by (simp add: sub_inv_def)
next
  case (write_file pid)
  with inv show ?thesis
    by (auto simp: sub_inv_def after_write_def write_pid_def has_child_def child_ok_def pid_file_def split: if_splits)
next
  case (wait_fails pid)
  with inv show ?thesis by (simp add: sub_inv_def has_child_def child_ok_def pid_file_def exec_failed_def)
next
  case (wait_child pid status)
  with inv show ?thesis by (simp add: sub_inv_def has_child_def child_ok_def pid_file_def exec_failed_def)
next
  case (wait_crashed pid status)
  with inv show ?thesis by (simp add: sub_inv_def has_child_def child_ok_def pid_file_def exec_failed_def)
next
  case (read_file st)
  with inv have h: "has_child env s" "se_writable env \<longrightarrow> pid_file env s" by (simp_all add: sub_inv_def)
  from start_result_file [OF h, of st] h have
    "start_result st (sp_file s) \<in> {0, -3}" "start_result st (sp_file s) \<noteq> -1"
    "se_writable env \<longrightarrow> start_result st (sp_file s) = -3 \<longrightarrow> exec_failed env s" by auto
  with h read_file(1) show ?thesis
    by (simp add: sub_inv_def has_child_def child_ok_def pid_file_def exec_failed_def)
next
  case (prepare c t)
  have "child_ok env (s\<lparr>sp_child := c, sp_fds := t\<rparr>) \<and> c \<noteq> CNone"
    using prepare(3) by (auto simp: prepare_child_def child_ok_def split: outcome.splits)
  with prepare show ?thesis by (intro sub_inv_child [OF inv]) (auto simp: exec_failed_def)
next
  case (exec f argv)
  then have "has_child env s" using inv by (cases "sp_parent s") (auto simp: sub_inv_def split: if_splits)
  with exec have "child_ok env s'" by (auto simp: has_child_def child_ok_def exec_child_def exec_impossible_def)
  with exec show ?thesis by (intro sub_inv_child [OF inv]) (auto simp: exec_failed_def exec_child_def)
next
  case unlink
  then have "has_child env s" using inv by (cases "sp_parent s") (auto simp: sub_inv_def split: if_splits)
  with unlink have "exec_failed env s'" by (simp add: has_child_def child_ok_def exec_failed_def)
  with unlink show ?thesis by (intro sub_inv_child [OF inv]) (auto simp: exec_failed_def child_ok_def)
next
  case (child_exits status)
  then show ?thesis by (intro sub_inv_child [OF inv]) (auto simp: exec_failed_def child_ok_def)
qed

lemma sub_inv_run: "sub_run env t s \<Longrightarrow> sub_inv env s"
proof (induction rule: sub_run.induct)
  case start
  show ?case by (simp add: sub_inv_def sub_start_def)
next
  case (more_steps s s')
  then show ?case by (blast intro: sub_inv_step)
qed

text \<open>C36. Whatever the order of the steps of parent and child: \<open>run_sub_process\<close> returns -1 only without a child, and -3, if the file could be
  written, only when the program could not be executed; when it returns 0 and the child runs, the
  file leads \<open>kill_sub_process\<close> to this child.\<close>

theorem sub_process_start_protocol:
  assumes "sub_run env t s"
  shows "(sp_parent s = PReturned r \<longrightarrow> r \<in> {0, -1, -3}) \<and>
     (sp_parent s = PReturned (-1) \<longrightarrow> sp_child s = CNone) \<and>
     (sp_parent s = PReturned (-3) \<and> se_writable env \<longrightarrow> exec_impossible env \<and> sp_child s = CExited 0xFF00) \<and>
     (sp_parent s = PReturned 0 \<and> se_writable env \<and> sp_child s = CRunning \<longrightarrow>
        kill_sub_process (sp_file s) = (Some (sp_pid s), None))"
proof -
  note inv = sub_inv_run [OF assms]
  have "sp_parent s = PReturned r \<longrightarrow> r \<in> {0, -1, -3}" using inv by (auto simp: sub_inv_def split: if_splits)
  moreover have "sp_parent s = PReturned (-1) \<longrightarrow> sp_child s = CNone" using inv by (auto simp: sub_inv_def)
  moreover have "sp_parent s = PReturned (-3) \<and> se_writable env \<longrightarrow> exec_impossible env \<and> sp_child s = CExited 0xFF00"
    using inv by (auto simp: sub_inv_def exec_failed_def)
  moreover have "kill_sub_process (sp_file s) = (Some (sp_pid s), None)"
    if "sp_parent s = PReturned 0 \<and> se_writable env \<and> sp_child s = CRunning"
  proof -
    have "0 < sp_pid s" "sp_pid s < 2 ^ 31" "sp_file s = Some (percent_d (sp_pid s) @ [NEWLINE])"
      using inv that by (auto simp: sub_inv_def has_child_def pid_file_def exec_failed_def)
    with read_pid_write [of "sp_pid s" "-1"] show ?thesis by (simp add: kill_sub_process_def)
  qed
  ultimately show ?thesis by blast
qed

definition sample_env :: "bool \<Rightarrow> sub_env" where
  "sample_env found = \<lparr>se_runStr = ''/bin/agent -v'', se_outputFileName = Some ''stdout'', se_can_exec = (\<lambda>_ _. found),
     se_openable = (\<lambda>_. True), se_writable = True, se_nowait = False\<rparr>"

text \<open>A step at the end of a run, with the new state given.\<close>

lemma more_steps_eq: "sub_run env t s \<Longrightarrow> sub_step env s s1 \<Longrightarrow> s1 = s' \<Longrightarrow> sub_run env t s'"
  by (auto intro: sub_run.more_steps)

lemma run_to_prepared:
  assumes "0 < pid" "pid < 2 ^ 31" and p: "prepare_child env t = (CExec f argv, t')"
  shows "sub_run env t \<lparr>sp_file = None, sp_parent = PWrite pid, sp_child = exec_child env f argv, sp_pid = pid, sp_fds = t'\<rparr>"
proof -
  have "sub_run env t \<lparr>sp_file = None, sp_parent = PWrite pid, sp_child = CPrepare, sp_pid = pid, sp_fds = t\<rparr>"
    by (rule more_steps_eq [OF sub_run.start sub_step.fork [OF _ assms(1,2)]]) (simp_all add: sub_start_def)
  then have "sub_run env t \<lparr>sp_file = None, sp_parent = PWrite pid, sp_child = CExec f argv, sp_pid = pid, sp_fds = t'\<rparr>"
    by (rule more_steps_eq [OF _ sub_step.prepare [of _ env]]) (simp_all add: p)
  then show ?thesis by (rule more_steps_eq [OF _ sub_step.exec [of _ f argv]]) simp_all
qed

lemma run_to_written:
  assumes "sub_run env t \<lparr>sp_file = None, sp_parent = PWrite pid, sp_child = c, sp_pid = pid, sp_fds = t'\<rparr>"
    and "se_writable env" and "0 < pid"
  shows "sub_run env t \<lparr>sp_file = Some (percent_d pid @ [NEWLINE]), sp_parent = PWait pid, sp_child = c, sp_pid = pid, sp_fds = t'\<rparr>"
  by (rule more_steps_eq [OF assms(1) sub_step.write_file [of _ pid]])
    (use assms in \<open>simp_all add: write_pid_def after_write_def\<close>)

lemma run_to_unlinked:
  assumes "sub_run env t \<lparr>sp_file = f, sp_parent = p, sp_child = CUnlink, sp_pid = pid, sp_fds = t'\<rparr>"
  shows "sub_run env t \<lparr>sp_file = None, sp_parent = p, sp_child = CExited 0xFF00, sp_pid = pid, sp_fds = t'\<rparr>"
  by (rule more_steps_eq [OF assms sub_step.unlink]) simp_all

lemma run_to_returned:
  assumes "sub_run env t \<lparr>sp_file = f, sp_parent = PWait pid, sp_child = c, sp_pid = pid, sp_fds = t'\<rparr>"
    and "\<not> se_nowait env \<and> st = -999998 \<or> se_nowait env \<and> c = CExited st"
  shows "sub_run env t \<lparr>sp_file = f, sp_parent = PReturned (start_result st f), sp_child = c, sp_pid = pid, sp_fds = t'\<rparr>"
proof -
  have "sub_run env t \<lparr>sp_file = f, sp_parent = PRead st, sp_child = c, sp_pid = pid, sp_fds = t'\<rparr>"
    using assms(2)
  proof
    assume "\<not> se_nowait env \<and> st = -999998"
    then show ?thesis by (intro more_steps_eq [OF assms(1) sub_step.wait_fails [of _ pid]]) simp_all
  next
    assume "se_nowait env \<and> c = CExited st"
    then show ?thesis by (intro more_steps_eq [OF assms(1) sub_step.wait_child [of _ pid _ st]]) simp_all
  qed
  then show ?thesis by (rule more_steps_eq [OF _ sub_step.read_file [of _ st]]) simp_all
qed

theorem sub_process_start_protocol_witness:
  "\<exists>s. sub_run (sample_env True) [] s \<and> kill_sub_process (sp_file s) = (Some 4711, None)"
proof -
  have "\<exists>t'. prepare_child (sample_env True) [] = (CExec ''agent'' [''/bin/agent'', ''-v''], t')"
    by (simp add: sample_env_def prepare_child_def split_args_def redirect_child_def Let_def exec_file_def eval_nat_numeral)
  then obtain t' where p: "prepare_child (sample_env True) [] = (CExec ''agent'' [''/bin/agent'', ''-v''], t')" ..
  have e: "exec_child (sample_env True) f a = CRunning" for f a by (simp add: exec_child_def sample_env_def)
  have w: "se_writable (sample_env True)" "\<not> se_nowait (sample_env True)" by (simp_all add: sample_env_def)
  have "sub_run (sample_env True) [] \<lparr>sp_file = None, sp_parent = PWrite 4711, sp_child = CRunning, sp_pid = 4711, sp_fds = t'\<rparr>"
    using run_to_prepared [OF _ _ p, of 4711] by (simp add: e)
  from run_to_written [OF this w(1)] have "sub_run (sample_env True) [] \<lparr>sp_file = Some (percent_d 4711 @ [NEWLINE]),
      sp_parent = PWait 4711, sp_child = CRunning, sp_pid = 4711, sp_fds = t'\<rparr>" by simp
  from run_to_returned [OF this, of "-999998"] w(2) read_pid_write [of 4711 "-999997"]
  have r: "sub_run (sample_env True) [] \<lparr>sp_file = Some (percent_d 4711 @ [NEWLINE]),
      sp_parent = PReturned 0, sp_child = CRunning, sp_pid = 4711, sp_fds = t'\<rparr>" (is "sub_run _ _ ?s")
    by (simp add: start_result_def)
  with sub_process_start_protocol [OF r] w(1) show ?thesis by (intro exI [of _ ?s]) simp
qed

text \<open>A program that cannot be executed is reported with -3 when the parent writes the file before the child removes it and
  \<open>waitpid\<close> refuses \<open>WNOWAIT\<close>; when the child is faster, \<open>run_sub_process\<close> returns 0 and the file keeps the number of a dead process, which
  \<open>kill_sub_process\<close> kills later.\<close>

lemma failed_child_reported_started:
  assumes "split_args (se_runStr env) = Done argv" and "se_outputFileName env = Some out"
    and "\<not> se_can_exec env (exec_file argv) argv" and "se_writable env" and "0 < pid" and "pid < 2 ^ 31"
  shows "(\<exists>s. sub_run env t s \<and> sp_parent s = PReturned 0 \<and> sp_child s = CExited 0xFF00 \<and>
       kill_sub_process (sp_file s) = (Some pid, None)) \<and>
     (\<not> se_nowait env \<longrightarrow> (\<exists>s. sub_run env t s \<and> sp_parent s = PReturned (-3)))"
proof -
  have "\<exists>t'. redirect_child (se_openable env) (Some out) t = Done t'" by (simp add: redirect_child_def Let_def)
  then obtain t' where "redirect_child (se_openable env) (Some out) t = Done t'" ..
  then have "prepare_child env t = (CExec (exec_file argv) argv, t')" using assms(1,2) by (simp add: prepare_child_def)
  from run_to_prepared [OF assms(5,6) this] assms(3) have
    r: "sub_run env t \<lparr>sp_file = None, sp_parent = PWrite pid, sp_child = CUnlink, sp_pid = pid, sp_fds = t'\<rparr>"
    by (simp add: exec_child_def)
  let ?f = "Some (percent_d pid @ [NEWLINE])"
  let ?s = "\<lparr>sp_file = ?f, sp_parent = PReturned 0, sp_child = CExited 0xFF00, sp_pid = pid, sp_fds = t'\<rparr>"
  obtain st where st: "\<not> se_nowait env \<and> st = -999998 \<or> se_nowait env \<and> CExited 0xFF00 = CExited st" by auto
  have pid: "read_pid unset ?f = pid" for unset using assms(5,6) by (simp add: read_pid_write)
  from run_to_returned [OF run_to_written [OF run_to_unlinked [OF r] assms(4,5)] st] pid assms(5)
  have "sub_run env t ?s" by (simp add: start_result_def)
  moreover have "\<exists>s. sub_run env t s \<and> sp_parent s = PReturned (-3)" if "\<not> se_nowait env"
  proof (intro exI conjI)
    show "sub_run env t \<lparr>sp_file = None, sp_parent = PReturned (start_result (-999998) None), sp_child = CExited 0xFF00,
        sp_pid = pid, sp_fds = t'\<rparr>"
      using that by (intro run_to_returned [OF run_to_unlinked [OF run_to_written [OF r assms(4,5)]]]) simp
  qed (simp add: start_result_def read_pid_def)
  ultimately show ?thesis using pid assms(5) by (auto simp: kill_sub_process_def intro!: exI [of _ ?s])
qed

lemma failed_child_reported_started_witness:
  "\<exists>s. sub_run (sample_env False) [] s \<and> sp_parent s = PReturned 0 \<and> kill_sub_process (sp_file s) = (Some 4711, None)"
proof -
  have "split_args (se_runStr (sample_env False)) = Done [''/bin/agent'', ''-v'']"
    by (simp add: sample_env_def split_args_def Let_def eval_nat_numeral)
  from failed_child_reported_started [OF this, of "''stdout''" 4711 "[]"] show ?thesis
    by (auto simp: sample_env_def)
qed

end
