(* ===== verification/Dns_Async.thy ===== *)
theory Dns_Async
  imports Task_Laws Dns_Lookup
begin

text \<open>
  The asynchronous host lookup of eloop/dns.c (\<open>ASYNC_METHOD\<close> 2): \<open>gethostbyname_ext_async\<close> runs the
  lookup as a task, which waits for each reply in a task sleep with its socket registered, and calls the application back
  when it exits.
\<close>

section \<open>The waits of a lookup\<close>









section \<open>What the event loop delivers\<close>







section \<open>One wait\<close>






lemma readers_timeout [simp]:
  "el_readers (sy_eloop (snd (eloop_register_timeout p clk secs usecs h ed ud l))) = el_readers (sy_eloop l)"
  "el_readers (sy_eloop (snd (eloop_cancel_timeout clk h ed ud l))) = el_readers (sy_eloop l)"
  using same_but_wdtD(1) [OF same_but_wdt_register [of l p clk secs usecs h ed ud False]]
    same_but_wdtD(1) [OF same_but_wdt_cancel [of l clk h ed ud False]]
  by (simp_all add: eloop_register_timeout_def eloop_cancel_timeout_def)





section \<open>The whole lookup\<close>








end
