(* ===== verification/Pool_Alloc.thy ===== *)
theory Pool_Alloc
  imports Prelude
begin

text \<open>
  The debugging allocator etc/tdxagwDbgMalloc.cpp: \<open>tmalloc\<close> puts a header of three words in front of each block,
  \<open>my_malloc\<close> and the other \<open>my_\<close> calls serve requests of three sizes from pools of 1024 blocks each. The
  heap maps the address \<open>malloc\<close> returned to its block; \<open>malloc\<close> of the C library is an argument, which may fail. A
  byte that was never written is \<open>None\<close>; an access outside a block is \<open>Crash\<close>. The messages are left out.
\<close>

section \<open>Blocks with a header\<close>

record pblock =
  pb_size :: nat
  pb_adj :: nat
  pb_data :: "u8 option list"

type_synonym pheap = "ptr \<rightharpoonup> pblock"

type_synonym malloc_fun = "pheap \<Rightarrow> nat \<Rightarrow> ptr option"

record pool_sys =
  pl_heap :: pheap
  pool_bufs :: "nat \<Rightarrow> nat \<Rightarrow> ptr"
  pool_uses :: "nat \<Rightarrow> nat \<Rightarrow> bool"
  pool_idxs :: "nat \<Rightarrow> nat"
  g_initOneAlloc :: bool

definition adjusted_size :: "nat \<Rightarrow> nat" where
  "adjusted_size sz = ((sz + 1023) mod 2 ^ 64) div 1024 * 1024"

definition real_base :: "ptr \<Rightarrow> ptr" where
  "real_base p = p - 12"

definition ret_base :: "ptr \<Rightarrow> ptr" where
  "ret_base a = a + 12"

definition real_size :: "nat \<Rightarrow> nat" where
  "real_size sz = (adjusted_size sz + 12) mod 2 ^ 64"

definition tmalloc :: "malloc_fun \<Rightarrow> nat \<Rightarrow> pool_sys \<Rightarrow> ptr \<times> pool_sys" where
  "tmalloc mal sz s =
     (case mal (pl_heap s) (real_size sz) of
        None \<Rightarrow> (NULL, s)
      | Some a \<Rightarrow>
          (ret_base a,
           s\<lparr>pl_heap := (pl_heap s)(a \<mapsto>
               \<lparr>pb_size = sz mod 2 ^ 32, pb_adj = adjusted_size sz mod 2 ^ 32,
                pb_data = replicate (real_size sz - 12) None\<rparr>)\<rparr>))"

definition tfree :: "ptr \<Rightarrow> pool_sys \<Rightarrow> pool_sys outcome" where
  "tfree p s =
     (if p = NULL then Done s
      else case pl_heap s (real_base p) of
        None \<Rightarrow> Crash
      | Some b \<Rightarrow> Done (s\<lparr>pl_heap := (pl_heap s)(real_base p := None)\<rparr>))"

text \<open>\<open>memset\<close> and \<open>memcpy\<close> of the C library at the start of a block.\<close>

definition set_data :: "ptr \<Rightarrow> u8 option list \<Rightarrow> pool_sys \<Rightarrow> pool_sys" where
  "set_data p d s =
     s\<lparr>pl_heap := (pl_heap s)(real_base p := map_option (pb_data_update (\<lambda>_. d)) (pl_heap s (real_base p)))\<rparr>"

definition memset0 :: "ptr \<Rightarrow> nat \<Rightarrow> pool_sys \<Rightarrow> pool_sys outcome" where
  "memset0 p n s =
     (case pl_heap s (real_base p) of
        None \<Rightarrow> Crash
      | Some b \<Rightarrow>
          if n \<le> length (pb_data b) then Done (set_data p (replicate n (Some 0) @ drop n (pb_data b)) s)
          else Crash)"

definition memcpy_block :: "ptr \<Rightarrow> ptr \<Rightarrow> nat \<Rightarrow> pool_sys \<Rightarrow> pool_sys outcome" where
  "memcpy_block to frm n s =
     (case (pl_heap s (real_base to), pl_heap s (real_base frm)) of
        (Some t, Some f) \<Rightarrow>
          if n \<le> length (pb_data t) \<and> n \<le> length (pb_data f)
          then Done (set_data to (take n (pb_data f) @ drop n (pb_data t)) s)
          else Crash
      | _ \<Rightarrow> Crash)"

definition tcalloc :: "malloc_fun \<Rightarrow> nat \<Rightarrow> pool_sys \<Rightarrow> (ptr \<times> pool_sys) outcome" where
  "tcalloc mal sz s =
     (let (p, s1) = tmalloc mal sz s in
      if p = NULL then Done (NULL, s1)
      else obind (memset0 p sz s1) (\<lambda>s2. Done (p, s2)))"

definition trealloc :: "malloc_fun \<Rightarrow> ptr \<Rightarrow> nat \<Rightarrow> pool_sys \<Rightarrow> (ptr \<times> pool_sys) outcome" where
  "trealloc mal old new_size s =
     (if old = NULL then Done (tmalloc mal new_size s)
      else case pl_heap s (real_base old) of
        None \<Rightarrow> Crash
      | Some b \<Rightarrow>
          if new_size < pb_size b then Done (old, s)
          else
            let (p, s1) = tmalloc mal new_size s in
            if p = NULL then obind (tfree old s1) (\<lambda>s2. Done (NULL, s2))
            else obind (memcpy_block p old (pb_size b) s1)
                   (\<lambda>s2. obind (tfree old s2) (\<lambda>s3. Done (p, s3))))"

section \<open>Pools\<close>

definition get_pool_num :: "nat \<Rightarrow> nat option" where
  "get_pool_num sz =
     (if sz = 92 then Some 0 else if sz = 12 then Some 1 else if sz = 26 then Some 2 else None)"

definition tpool_alloc :: "malloc_fun \<Rightarrow> nat \<Rightarrow> pool_sys \<Rightarrow> ptr \<times> pool_sys" where
  "tpool_alloc mal sz s =
     (case get_pool_num sz of
        None \<Rightarrow> tmalloc mal sz s
      | Some k \<Rightarrow>
          if g_initOneAlloc s then tmalloc mal sz s
          else
            let i = pool_idxs s k;
                s1 = s\<lparr>pool_idxs := (pool_idxs s)(k := (i + 1) mod 1024)\<rparr> in
            (case List.find (\<lambda>j. \<not> pool_uses s1 k ((i + j) mod 1024)) [0..<1024] of
               None \<Rightarrow> tmalloc mal sz s1
             | Some j \<Rightarrow>
                 (pool_bufs s1 k ((i + j) mod 1024),
                  s1\<lparr>pool_uses := (pool_uses s1)(k := (pool_uses s1 k)((i + j) mod 1024 := True)),
                     pool_idxs := (pool_idxs s1)(k := (i + j + 1) mod 1024)\<rparr>)))"

definition tpool_free :: "ptr \<Rightarrow> pool_sys \<Rightarrow> pool_sys outcome" where
  "tpool_free p s =
     (if g_initOneAlloc s then tfree p s
      else case List.find (\<lambda>(i, j). p = pool_bufs s i j) (List.product [0..<3] [0..<1024]) of
        Some (i, j) \<Rightarrow> Done (s\<lparr>pool_uses := (pool_uses s)(i := (pool_uses s i)(j := False))\<rparr>)
      | None \<Rightarrow> tfree p s)"

definition tpool_calloc :: "malloc_fun \<Rightarrow> nat \<Rightarrow> pool_sys \<Rightarrow> (ptr \<times> pool_sys) outcome" where
  "tpool_calloc mal sz s =
     (let (p, s1) = tpool_alloc mal sz s in
      if p = NULL then Done (NULL, s1)
      else obind (memset0 p sz s1) (\<lambda>s2. Done (p, s2)))"

definition tpool_realloc :: "malloc_fun \<Rightarrow> ptr \<Rightarrow> nat \<Rightarrow> pool_sys \<Rightarrow> (ptr \<times> pool_sys) outcome" where
  "tpool_realloc mal old new_size s =
     (if old = NULL then Done (tpool_alloc mal new_size s)
      else case pl_heap s (real_base old) of
        None \<Rightarrow> Crash
      | Some b \<Rightarrow>
          let (p, s1) = tpool_alloc mal new_size s in
          if p = NULL then obind (tpool_free old s1) (\<lambda>s2. Done (NULL, s2))
          else obind (memcpy_block p old (pb_size b) s1)
                 (\<lambda>s2. obind (tpool_free old s2) (\<lambda>s3. Done (p, s3))))"

definition init_slot :: "malloc_fun \<Rightarrow> nat \<Rightarrow> nat \<Rightarrow> nat \<Rightarrow> pool_sys \<Rightarrow> pool_sys" where
  "init_slot mal k sz j s =
     (let (p, s1) = tmalloc mal sz s in
      s1\<lparr>pool_bufs := (pool_bufs s1)(k := (pool_bufs s1 k)(j := p)),
         pool_uses := (pool_uses s1)(k := (pool_uses s1 k)(j := False))\<rparr>)"

definition tinit_pool :: "malloc_fun \<Rightarrow> pool_sys \<Rightarrow> pool_sys" where
  "tinit_pool mal s =
     fold (init_slot mal 2 25) [0..<1024]
       (fold (init_slot mal 1 12) [0..<1024] (fold (init_slot mal 0 92) [0..<1024] s))"

definition init_once :: "malloc_fun \<Rightarrow> pool_sys \<Rightarrow> pool_sys" where
  "init_once mal s = (if g_initOneAlloc s then (tinit_pool mal s)\<lparr>g_initOneAlloc := False\<rparr> else s)"

definition my_malloc :: "malloc_fun \<Rightarrow> nat \<Rightarrow> pool_sys \<Rightarrow> (ptr \<times> pool_sys) outcome" where
  "my_malloc mal sz s = Done (tpool_alloc mal sz (init_once mal s))"

definition my_free :: "malloc_fun \<Rightarrow> ptr \<Rightarrow> pool_sys \<Rightarrow> pool_sys outcome" where
  "my_free mal p s = tpool_free p (init_once mal s)"

definition my_realloc :: "malloc_fun \<Rightarrow> ptr \<Rightarrow> nat \<Rightarrow> pool_sys \<Rightarrow> (ptr \<times> pool_sys) outcome" where
  "my_realloc mal old new_size s = tpool_realloc mal old new_size (init_once mal s)"

definition my_calloc :: "malloc_fun \<Rightarrow> nat \<Rightarrow> nat \<Rightarrow> pool_sys \<Rightarrow> (ptr \<times> pool_sys) outcome" where
  "my_calloc mal nmemb sz s = tpool_calloc mal (nmemb * sz mod 2 ^ 64) (init_once mal s)"

section \<open>The heap a client sees\<close>

definition slots :: "(nat \<times> nat) set" where
  "slots = {..<3} \<times> {..<1024}"

definition buf :: "pool_sys \<Rightarrow> nat \<times> nat \<Rightarrow> ptr" where
  "buf s = (\<lambda>(i, j). pool_bufs s i j)"

definition used :: "pool_sys \<Rightarrow> nat \<times> nat \<Rightarrow> bool" where
  "used s = (\<lambda>(i, j). pool_uses s i j)"

text \<open>The blocks a client has: the size in the header and the bytes it may use.\<close>

definition live :: "pool_sys \<Rightarrow> ptr \<rightharpoonup> nat \<times> u8 option list" where
  "live s p =
     (if \<exists>x \<in> slots. buf s x = p \<and> \<not> used s x then None
      else map_option (\<lambda>b. (pb_size b, pb_data b)) (pl_heap s (real_base p)))"

definition pool_inv :: "(nat \<times> nat) set \<Rightarrow> pool_sys \<Rightarrow> bool" where
  "pool_inv D s \<longleftrightarrow>
     (\<forall>x \<in> D. buf s x \<noteq> NULL \<longrightarrow> (\<exists>b. pl_heap s (real_base (buf s x)) = Some b \<and> length (pb_data b) = 1024)) \<and>
     (\<forall>x \<in> D. \<forall>y \<in> D. buf s x = buf s y \<longrightarrow> buf s x \<noteq> NULL \<longrightarrow> x = y) \<and>
     (\<forall>a b. pl_heap s a = Some b \<longrightarrow> ret_base a \<noteq> NULL \<and> pb_size b \<le> length (pb_data b))"

definition pool_ok :: "pool_sys \<Rightarrow> bool" where
  "pool_ok s \<longleftrightarrow> (if g_initOneAlloc s then pl_heap s = Map.empty else pool_inv slots s)"

definition pool_start :: pool_sys where
  "pool_start =
     \<lparr>pl_heap = Map.empty, pool_bufs = (\<lambda>_ _. NULL), pool_uses = (\<lambda>_ _. False), pool_idxs = (\<lambda>_. 0),
      g_initOneAlloc = True\<rparr>"

text \<open>What the C library promises of \<open>malloc\<close>: a new block that lies in the address space.\<close>

definition malloc_laws :: "malloc_fun \<Rightarrow> bool" where
  "malloc_laws mal \<longleftrightarrow> (\<forall>h n a. mal h n = Some a \<longrightarrow> h a = None \<and> a \<noteq> NULL \<and> unat a + n < 2 ^ 64)"

end
