(* ===== verification/Pool_Alloc_Laws.thy ===== *)
theory Pool_Alloc_Laws
  imports Pool_Alloc
begin

text \<open>
  What the allocators of Pool\_Alloc give their clients, stated once as an interface and discharged for \<open>tmalloc\<close>
  and \<open>tfree\<close> and for the pools: fresh blocks of the size asked for, which stay as they are until they are released.
\<close>

named_theorems pool_simps "bases and headers of blocks"

lemma real_base_ret_base [pool_simps]: "real_base (ret_base a) = a"
  by (simp add: real_base_def ret_base_def)

lemma ret_base_real_base [pool_simps]: "ret_base (real_base p) = p"
  by (simp add: real_base_def ret_base_def)

lemma real_base_eq_iff [pool_simps]: "real_base p = real_base q \<longleftrightarrow> p = q"
  by (simp add: real_base_def)

lemma real_base_eq_ret_base: "real_base p = a \<longleftrightarrow> p = ret_base a"
  using ret_base_real_base real_base_ret_base by metis

lemma adjusted_size_fits: "n + 1023 < 2 ^ 64 \<Longrightarrow> n \<le> adjusted_size n \<and> real_size n = adjusted_size n + 12"
proof -
  assume n: "n + 1023 < 2 ^ 64"
  have a: "adjusted_size n = (n + 1023) div 1024 * 1024" using n by (simp add: adjusted_size_def)
  have "(n + 1023) div 1024 * 1024 \<le> 2 ^ 64 - 1024" using n by simp
  then show ?thesis unfolding real_size_def a by (simp add: mod_less)
qed

lemma malloc_lawsD:
  assumes "malloc_laws mal" and "mal h (real_size n) = Some a"
  shows "h a = None" and "ret_base a \<noteq> NULL"
proof -
  show "h a = None" using assms unfolding malloc_laws_def by blast
  have "12 \<le> real_size n"
  proof -
    have "(n + 1023) mod 2 ^ 64 div 1024 * 1024 \<le> 2 ^ 64 - 1024"
      using mod_less_divisor [of "2 ^ 64" "n + 1023"] by simp
    then show ?thesis by (simp add: real_size_def adjusted_size_def)
  qed
  moreover have "a \<noteq> NULL" "unat a + real_size n < 2 ^ 64" using assms unfolding malloc_laws_def by blast+
  ultimately have "unat (a + 12) = unat a + 12" by (simp add: unat_word_ariths)
  then show "ret_base a \<noteq> NULL" unfolding ret_base_def by (metis add_is_0 unat_0 zero_neq_numeral)
qed

section \<open>The interface of an allocator\<close>

type_synonym heap_view = "ptr \<rightharpoonup> nat \<times> u8 option list"

definition allocated :: "nat \<Rightarrow> ptr \<Rightarrow> heap_view \<Rightarrow> heap_view \<Rightarrow> bool" where
  "allocated n p V V' \<longleftrightarrow>
     p = NULL \<and> V' = V \<or>
     p \<noteq> NULL \<and> V p = None \<and> (\<exists>z d. V' = V(p \<mapsto> (z, d)) \<and> length d = adjusted_size n \<and> z \<le> length d)"

definition calloc_with :: "(nat \<Rightarrow> pool_sys \<Rightarrow> ptr \<times> pool_sys) \<Rightarrow> nat \<Rightarrow> pool_sys \<Rightarrow> (ptr \<times> pool_sys) outcome" where
  "calloc_with al n s =
     (let (p, s1) = al n s in
      if p = NULL then Done (NULL, s1) else obind (memset0 p n s1) (\<lambda>s2. Done (p, s2)))"

definition move_with ::
  "(nat \<Rightarrow> pool_sys \<Rightarrow> ptr \<times> pool_sys) \<Rightarrow> (ptr \<Rightarrow> pool_sys \<Rightarrow> pool_sys outcome) \<Rightarrow>
   ptr \<Rightarrow> nat \<Rightarrow> nat \<Rightarrow> pool_sys \<Rightarrow> (ptr \<times> pool_sys) outcome" where
  "move_with al fr old z n s =
     (let (p, s1) = al n s in
      if p = NULL then obind (fr old s1) (\<lambda>s2. Done (NULL, s2))
      else obind (memcpy_block p old z s1) (\<lambda>s2. obind (fr old s2) (\<lambda>s3. Done (p, s3))))"

locale block_store =
  fixes view :: "pool_sys \<Rightarrow> heap_view"
    and ok :: "pool_sys \<Rightarrow> bool"
    and al :: "nat \<Rightarrow> pool_sys \<Rightarrow> ptr \<times> pool_sys"
    and fr :: "ptr \<Rightarrow> pool_sys \<Rightarrow> pool_sys outcome"
  assumes alloc_law: "ok s \<Longrightarrow> n + 1023 < 2 ^ 64 \<Longrightarrow> al n s = (p, s') \<Longrightarrow> ok s' \<and> allocated n p (view s) (view s')"
    and free_law: "ok s \<Longrightarrow> p = NULL \<or> view s p \<noteq> None \<Longrightarrow> \<exists>s'. fr p s = Done s' \<and> ok s' \<and> view s' = (view s)(p := None)"
    and write_law: "ok s \<Longrightarrow> view s p = Some (z, d) \<Longrightarrow> length d' = length d \<Longrightarrow>
           ok (set_data p d' s) \<and> view (set_data p d' s) = (view s)(p \<mapsto> (z, d'))"
    and block_law: "ok s \<Longrightarrow> view s p = Some (z, d) \<Longrightarrow>
           z \<le> length d \<and> (\<exists>b. pl_heap s (real_base p) = Some b \<and> pb_size b = z \<and> pb_data b = d)"
begin

lemma memset0_law:
  assumes "ok s" and "view s p = Some (z, d)" and "n \<le> length d"
  shows "\<exists>s'. memset0 p n s = Done s' \<and> ok s' \<and> view s' = (view s)(p \<mapsto> (z, replicate n (Some 0) @ drop n d))"
  using block_law [OF assms(1,2)] write_law [OF assms(1,2), of "replicate n (Some 0) @ drop n d"] assms(3)
  by (auto simp: memset0_def)

lemma memcpy_law:
  assumes "ok s" and "view s p = Some (z, d)" and "view s q = Some (w, e)" and "n \<le> length d" and "n \<le> length e"
  shows "\<exists>s'. memcpy_block p q n s = Done s' \<and> ok s' \<and> view s' = (view s)(p \<mapsto> (z, take n e @ drop n d))"
  using block_law [OF assms(1,2)] block_law [OF assms(1,3)] write_law [OF assms(1,2), of "take n e @ drop n d"] assms(4,5)
  by (auto simp: memcpy_block_def)

lemma calloc_law:
  assumes "ok s" and "n + 1023 < 2 ^ 64"
  shows "\<exists>p s'. calloc_with al n s = Done (p, s') \<and> ok s' \<and>
    (p = NULL \<and> view s' = view s \<or>
     p \<noteq> NULL \<and> view s p = None \<and> (\<exists>z d. view s' = (view s)(p \<mapsto> (z, d)) \<and> n \<le> length d \<and> take n d = replicate n (Some 0)))"
proof -
  obtain p s1 where a: "al n s = (p, s1)" by fastforce
  note A = alloc_law [OF assms a]
  show ?thesis
  proof (cases "p = NULL")
    case True
    with A a show ?thesis by (auto simp: calloc_with_def allocated_def)
  next
    case False
    with A obtain z d where v: "view s1 = (view s)(p \<mapsto> (z, d))" and f: "view s p = None" and l: "length d = adjusted_size n"
      by (auto simp: allocated_def)
    have n: "n \<le> length d" using adjusted_size_fits [OF assms(2)] l by simp
    obtain s2 where m: "memset0 p n s1 = Done s2" "ok s2" "view s2 = (view s1)(p \<mapsto> (z, replicate n (Some 0) @ drop n d))"
      using memset0_law [of s1 p z d n] A v n by auto
    have "view s2 = (view s)(p \<mapsto> (z, replicate n (Some 0) @ drop n d))" using m(3) v by simp
    then show ?thesis using False f n m(1,2) a by (auto simp: calloc_with_def intro!: exI)
  qed
qed

lemma move_law:
  assumes "ok s" and "n + 1023 < 2 ^ 64" and "view s old = Some (z, d)" and "z \<le> adjusted_size n" and "old \<noteq> NULL"
  shows "\<exists>p s'. move_with al fr old z n s = Done (p, s') \<and> ok s' \<and>
    (p = NULL \<and> view s' = (view s)(old := None) \<or>
     p \<noteq> NULL \<and> view s p = None \<and>
       (\<exists>w e. view s' = (view s)(old := None, p \<mapsto> (w, e)) \<and> n \<le> length e \<and> take z e = take z d))"
proof -
  obtain p s1 where a: "al n s = (p, s1)" by fastforce
  note A = alloc_law [OF assms(1,2) a]
  show ?thesis
  proof (cases "p = NULL")
    case True
    with A have v: "view s1 = view s" by (simp add: allocated_def)
    obtain s2 where "fr old s1 = Done s2" "ok s2" "view s2 = (view s1)(old := None)"
      using free_law [of s1 old] A v assms(3) by auto
    then show ?thesis using True a v by (auto simp: move_with_def)
  next
    case False
    with A obtain w e where v: "view s1 = (view s)(p \<mapsto> (w, e))" and f: "view s p = None" and l: "length e = adjusted_size n"
      by (auto simp: allocated_def)
    have ne: "p \<noteq> old" using f assms(3) by auto
    have z: "z \<le> length d" using block_law [OF assms(1,3)] by simp
    obtain s2 where m: "memcpy_block p old z s1 = Done s2" "ok s2" "view s2 = (view s1)(p \<mapsto> (w, take z d @ drop z e))"
      using memcpy_law [of s1 p w e old z d z] A v ne assms(3,4) l z by auto
    obtain s3 where r: "fr old s2 = Done s3" "ok s3" "view s3 = (view s2)(old := None)"
      using free_law [of s2 old] m v ne assms(3) by auto
    have v3: "view s3 = (view s)(old := None, p \<mapsto> (w, take z d @ drop z e))"
      unfolding r(3) m(3) v using ne by (auto simp: fun_eq_iff)
    have e: "n \<le> length (take z d @ drop z e)" "take z (take z d @ drop z e) = take z d"
      using z assms(4) l adjusted_size_fits [OF assms(2)] by simp_all
    have mv: "move_with al fr old z n s = Done (p, s3)" using False a m(1) r(1) by (simp add: move_with_def)
    show ?thesis using mv r(2) False f v3 e by blast
  qed
qed

end

section \<open>The blocks of \<open>tmalloc\<close>\<close>

definition flat :: "pool_sys \<Rightarrow> heap_view" where
  "flat s p = map_option (\<lambda>b. (pb_size b, pb_data b)) (pl_heap s (real_base p))"

definition headers_ok :: "pool_sys \<Rightarrow> bool" where
  "headers_ok s \<longleftrightarrow> (\<forall>a b. pl_heap s a = Some b \<longrightarrow> ret_base a \<noteq> NULL \<and> pb_size b \<le> length (pb_data b))"

lemma flat_NULL: "headers_ok s \<Longrightarrow> flat s NULL = None"
  by (cases "pl_heap s (real_base NULL)") (auto simp: headers_ok_def flat_def pool_simps dest!: spec)

lemma tmalloc_cases:
  assumes "malloc_laws mal" and "headers_ok s" and "n + 1023 < 2 ^ 64" and "tmalloc mal n s = (p, s')"
  obtains "p = NULL" "s' = s"
  | b where "p \<noteq> NULL" "pl_heap s (real_base p) = None" "s' = s\<lparr>pl_heap := (pl_heap s)(real_base p \<mapsto> b)\<rparr>"
      "length (pb_data b) = adjusted_size n" "pb_size b \<le> length (pb_data b)"
proof (cases "mal (pl_heap s) (real_size n)")
  case None
  then show thesis using assms(4) that(1) by (simp add: tmalloc_def)
next
  case (Some a)
  note L = malloc_lawsD [OF assms(1) Some]
  note F = adjusted_size_fits [OF assms(3)]
  have "n mod 2 ^ 32 \<le> adjusted_size n" using F mod_less_eq_dividend [of n "2 ^ 32"] by linarith
  then show thesis using assms(4) that(2) [of "\<lparr>pb_size = n mod 2 ^ 32, pb_adj = adjusted_size n mod 2 ^ 32,
      pb_data = replicate (real_size n - 12) None\<rparr>"] L F Some
    by (auto simp: tmalloc_def pool_simps)
qed

lemma tmalloc_headers:
  assumes "malloc_laws mal" and "headers_ok s" and "n + 1023 < 2 ^ 64" and "tmalloc mal n s = (p, s')"
  shows "headers_ok s'"
  using assms(2) by (cases rule: tmalloc_cases [OF assms]) (auto simp: headers_ok_def pool_simps)

lemma tmalloc_flat:
  assumes "malloc_laws mal" and "headers_ok s" and "n + 1023 < 2 ^ 64" and "tmalloc mal n s = (p, s')"
  shows "allocated n p (flat s) (flat s')"
  by (cases rule: tmalloc_cases [OF assms]) (auto simp: allocated_def flat_def fun_eq_iff pool_simps)

lemma flat_set_data:
  "flat s p = Some (z, d) \<Longrightarrow> flat (set_data p d' s) = (flat s)(p \<mapsto> (z, d'))"
  by (auto simp: flat_def set_data_def fun_eq_iff pool_simps)

lemma headers_set_data:
  "headers_ok s \<Longrightarrow> flat s p = Some (z, d) \<Longrightarrow> length d' = length d \<Longrightarrow> headers_ok (set_data p d' s)"
  by (auto simp: headers_ok_def flat_def set_data_def)

lemma tfree_flat:
  assumes "headers_ok s" and "p = NULL \<or> flat s p \<noteq> None"
  shows "\<exists>s'. tfree p s = Done s' \<and> headers_ok s' \<and> flat s' = (flat s)(p := None)"
proof (cases "p = NULL")
  case True
  with flat_NULL [OF assms(1)] assms(1) show ?thesis by (auto simp: tfree_def fun_eq_iff)
next
  case False
  with assms show ?thesis by (auto simp: tfree_def headers_ok_def flat_def fun_eq_iff pool_simps)
qed

interpretation plain_store: block_store flat "\<lambda>s. malloc_laws mal \<and> headers_ok s" "tmalloc mal" tfree
  by unfold_locales
    (auto simp: tmalloc_headers tmalloc_flat tfree_flat flat_set_data headers_set_data,
     auto simp: flat_def headers_ok_def)

section \<open>The blocks of the pools\<close>

lemma pool_inv_headers: "pool_inv D s \<Longrightarrow> headers_ok s"
  by (simp add: pool_inv_def headers_ok_def)

lemma live_flat: "live s p = (if \<exists>x \<in> slots. buf s x = p \<and> \<not> used s x then None else flat s p)"
  by (simp only: live_def flat_def)

lemma buf_in_heap:
  "pool_inv D s \<Longrightarrow> x \<in> D \<Longrightarrow> buf s x \<noteq> NULL \<Longrightarrow> \<exists>z d. flat s (buf s x) = Some (z, d) \<and> length d = 1024 \<and> z \<le> 1024"
  by (fastforce simp: pool_inv_def flat_def)

lemma pool_inv_heap:
  assumes "pool_inv D s" and "headers_ok s'" and "buf s' = buf s"
    and "\<And>x z d. x \<in> D \<Longrightarrow> flat s (buf s x) = Some (z, d) \<Longrightarrow> length d = 1024 \<Longrightarrow>
           \<exists>z' d'. flat s' (buf s x) = Some (z', d') \<and> length d' = 1024"
  shows "pool_inv D s'"
proof -
  have "\<exists>b. pl_heap s' (real_base (buf s' x)) = Some b \<and> length (pb_data b) = 1024" if "x \<in> D" "buf s' x \<noteq> NULL" for x
    using assms(4) [OF that(1)] buf_in_heap [OF assms(1) that(1)] that(2) assms(3) by (force simp: flat_def)
  with assms(1,2,3) show ?thesis by (simp add: pool_inv_def headers_ok_def)
qed

lemma tmalloc_live:
  assumes "malloc_laws mal" and "pool_inv slots s" and "n + 1023 < 2 ^ 64" and "tmalloc mal n s = (p, s')"
  shows "pool_inv slots s' \<and> allocated n p (live s) (live s') \<and> g_initOneAlloc s' = g_initOneAlloc s"
  using assms(4)
proof (cases rule: tmalloc_cases [OF assms(1) pool_inv_headers [OF assms(2)] assms(3,4)])
  case 1
  with assms(2) show ?thesis by (simp add: allocated_def)
next
  case (2 b)
  have nb: "buf s x \<noteq> p" if "x \<in> slots" for x
    using buf_in_heap [OF assms(2) that] 2(1,2) by (auto simp: flat_def)
  have b: "buf s' = buf s" "used s' = used s" using 2(3) by (simp_all add: buf_def used_def fun_eq_iff)
  have fl: "flat s' = (flat s)(p \<mapsto> (pb_size b, pb_data b))" using 2(3) by (auto simp: flat_def fun_eq_iff pool_simps)
  have "pool_inv slots s'"
    by (rule pool_inv_heap [OF assms(2) tmalloc_headers [OF assms(1) pool_inv_headers [OF assms(2)] assms(3,4)] b(1)])
      (use fl nb in auto)
  moreover have "live s p = None" using 2(2) by (simp add: live_def)
  moreover have "live s' = (live s)(p \<mapsto> (pb_size b, pb_data b))"
    using nb by (auto simp: live_flat b fl fun_eq_iff)
  moreover have "g_initOneAlloc s' = g_initOneAlloc s" using 2(3) by simp
  ultimately show ?thesis using 2(1,4,5) unfolding allocated_def by blast
qed

lemma live_take_slot:
  assumes inv: "pool_inv slots s" and x: "x \<in> slots" and u: "\<not> used s x"
    and h: "pl_heap s' = pl_heap s" and b: "buf s' = buf s" and us: "used s' = (used s)(x := True)"
    and n: "adjusted_size n = 1024"
  shows "pool_inv slots s' \<and> allocated n (buf s x) (live s) (live s')"
proof -
  have "pool_inv slots s'" using inv by (simp add: pool_inv_def h b)
  moreover have "allocated n (buf s x) (live s) (live s')"
  proof (cases "buf s x = NULL")
    case True
    have "flat s NULL = None" by (rule flat_NULL [OF pool_inv_headers [OF inv]])
    then have "live s' = live s" using True by (auto simp: live_def flat_def h b us fun_eq_iff)
    with True show ?thesis by (simp add: allocated_def)
  next
    case False
    obtain z d where f: "flat s (buf s x) = Some (z, d)" "length d = 1024" "z \<le> 1024"
      using buf_in_heap [OF inv x False] by blast
    have inj: "y = x" if "y \<in> slots" "buf s y = buf s x" for y
      using inv x that False unfolding pool_inv_def by metis
    have fs: "flat s' = flat s" by (simp add: flat_def h fun_eq_iff)
    have "live s' = (live s)(buf s x \<mapsto> (z, d))"
    proof
      fix q show "live s' q = ((live s)(buf s x \<mapsto> (z, d))) q"
      proof (cases "q = buf s x")
        case True
        then have "\<not> (\<exists>y \<in> slots. buf s y = q \<and> \<not> used s' y)" using inj us by auto
        with True f show ?thesis by (simp add: live_flat b fs)
      next
        case False
        then have "(\<exists>y \<in> slots. buf s y = q \<and> \<not> used s' y) = (\<exists>y \<in> slots. buf s y = q \<and> \<not> used s y)"
          using us by auto
        then have "live s' q = live s q" unfolding live_flat b fs by (simp only:)
        with False show ?thesis by simp
      qed
    qed
    moreover have "live s (buf s x) = None" using x u by (auto simp: live_def)
    moreover have "length d = adjusted_size n" "z \<le> length d" using f n by simp_all
    ultimately show ?thesis using False unfolding allocated_def by blast
  qed
  ultimately show ?thesis ..
qed

lemma live_give_slot:
  assumes inv: "pool_inv slots s" and x: "x \<in> slots"
    and h: "pl_heap s' = pl_heap s" and b: "buf s' = buf s" and us: "used s' = (used s)(x := False)"
  shows "pool_inv slots s' \<and> live s' = (live s)(buf s x := None)"
proof -
  have "pool_inv slots s'" using inv by (simp add: pool_inv_def h b)
  moreover have "live s' = (live s)(buf s x := None)"
  proof
    fix q show "live s' q = ((live s)(buf s x := None)) q"
    proof (cases "q = buf s x")
      case True
      with x us show ?thesis by (auto simp: live_def b)
    next
      case False
      then have "(\<exists>y \<in> slots. buf s y = q \<and> \<not> used s' y) = (\<exists>y \<in> slots. buf s y = q \<and> \<not> used s y)"
        using us by auto
      then have "live s' q = live s q" unfolding live_def b h by (simp only:)
      with False show ?thesis by simp
    qed
  qed
  ultimately show ?thesis ..
qed

lemma find_SomeD: "List.find P xs = Some x \<Longrightarrow> P x \<and> x \<in> set xs"
  by (induction xs) (auto split: if_splits)

lemma tpool_alloc_live:
  assumes "malloc_laws mal" and "pool_inv slots s" and "\<not> g_initOneAlloc s" and "n + 1023 < 2 ^ 64"
    and "tpool_alloc mal n s = (p, s')"
  shows "pool_inv slots s' \<and> allocated n p (live s) (live s') \<and> \<not> g_initOneAlloc s'"
proof (cases "get_pool_num n")
  case None
  with tmalloc_live [OF assms(1,2,4)] assms(3,5) show ?thesis by (simp add: tpool_alloc_def)
next
  case (Some k)
  then have k: "k < 3" "adjusted_size n = 1024"
    by (auto simp: get_pool_num_def adjusted_size_def split: if_splits)
  define i where "i = pool_idxs s k"
  define s1 where "s1 = s\<lparr>pool_idxs := (pool_idxs s)(k := (i + 1) mod 1024)\<rparr>"
  have e: "buf s1 = buf s" "used s1 = used s" "pl_heap s1 = pl_heap s"
    by (simp_all add: s1_def buf_def used_def)
  have "live s1 = live s" by (rule ext) (simp only: live_def e)
  moreover have "pool_inv slots s1" using assms(2) unfolding pool_inv_def e .
  ultimately have s1: "pool_inv slots s1" "live s1 = live s" "\<not> g_initOneAlloc s1"
    using assms(3) by (simp_all add: s1_def)
  show ?thesis
  proof (cases "List.find (\<lambda>j. \<not> pool_uses s k ((i + j) mod 1024)) [0..<1024]")
    case None
    then have "tmalloc mal n s1 = (p, s')"
      using assms(3,5) Some by (simp add: tpool_alloc_def Let_def s1_def i_def)
    with tmalloc_live [OF assms(1) s1(1) assms(4)] s1 show ?thesis by simp
  next
    case (Some j)
    let ?x = "(k, (i + j) mod 1024)"
    have u: "\<not> used s1 ?x" using Some by (auto simp: find_Some_iff used_def s1_def)
    have x: "?x \<in> slots" using k by (simp add: slots_def)
    have r: "p = buf s1 ?x"
        "s' = s1\<lparr>pool_uses := (pool_uses s1)(k := (pool_uses s1 k)((i + j) mod 1024 := True)),
                 pool_idxs := (pool_idxs s1)(k := (i + j + 1) mod 1024)\<rparr>"
      using assms(3,5) \<open>get_pool_num n = Some k\<close> Some by (simp_all add: tpool_alloc_def Let_def s1_def i_def buf_def)
    have "pool_inv slots s' \<and> allocated n (buf s1 ?x) (live s1) (live s')"
      by (rule live_take_slot [OF s1(1) x u _ _ _ k(2)]) (auto simp: r(2) buf_def used_def fun_eq_iff)
    with r s1 show ?thesis by simp
  qed
qed

lemma tpool_free_live:
  assumes "pool_inv slots s" and "\<not> g_initOneAlloc s" and "p = NULL \<or> live s p \<noteq> None"
  shows "\<exists>s'. tpool_free p s = Done s' \<and> pool_inv slots s' \<and> \<not> g_initOneAlloc s' \<and> live s' = (live s)(p := None)"
proof (cases "List.find (\<lambda>(i, j). p = pool_bufs s i j) (List.product [0..<3] [0..<1024])")
  case None
  then have nb: "buf s x \<noteq> p" if "x \<in> slots" for x
    using that by (auto simp: find_None_iff buf_def slots_def)
  then have lf: "live s p = flat s p" by (auto simp: live_flat)
  obtain s' where t: "tfree p s = Done s'" "headers_ok s'" "flat s' = (flat s)(p := None)"
    using tfree_flat [OF pool_inv_headers [OF assms(1)], of p] assms(3) lf by auto
  have b: "buf s' = buf s" "used s' = used s" "g_initOneAlloc s' = g_initOneAlloc s"
    using t(1) by (auto simp: tfree_def buf_def used_def split: if_splits option.splits)
  have "pool_inv slots s'"
    by (rule pool_inv_heap [OF assms(1) t(2) b(1)]) (use t(3) nb in auto)
  moreover have "live s' = (live s)(p := None)"
    using nb by (auto simp: live_flat b t(3) fun_eq_iff)
  moreover have "tpool_free p s = Done s'" using None t(1) assms(2) by (simp add: tpool_free_def)
  ultimately show ?thesis using assms(2) b(3) by auto
next
  case (Some x)
  obtain i j where ij: "x = (i, j)" by force
  have x: "x \<in> slots" "buf s x = p" using find_SomeD [OF Some] ij by (auto simp: slots_def buf_def)
  define s' where "s' = s\<lparr>pool_uses := (pool_uses s)(i := (pool_uses s i)(j := False))\<rparr>"
  have f: "tpool_free p s = Done s'" using Some ij assms(2) by (simp add: tpool_free_def s'_def)
  have "pool_inv slots s' \<and> live s' = (live s)(buf s x := None)"
    by (rule live_give_slot [OF assms(1) x(1)]) (auto simp: s'_def buf_def used_def ij fun_eq_iff)
  with f x assms(2) show ?thesis by (auto simp: s'_def)
qed

interpretation pool_store: block_store live "\<lambda>s. malloc_laws mal \<and> pool_inv slots s \<and> \<not> g_initOneAlloc s"
  "tpool_alloc mal" tpool_free
proof unfold_locales
  fix s p z d and d' :: "u8 option list"
  assume ok: "malloc_laws mal \<and> pool_inv slots s \<and> \<not> g_initOneAlloc s" and lv: "live s p = Some (z, d)"
  then have fl: "flat s p = Some (z, d)" by (simp add: live_flat split: if_splits)
  then show "z \<le> length d \<and> (\<exists>b. pl_heap s (real_base p) = Some b \<and> pb_size b = z \<and> pb_data b = d)"
    using plain_store.block_law [of mal s p z d] ok pool_inv_headers [of slots s] by blast
  assume len: "length d' = length d"
  have b: "buf (set_data p d' s) = buf s" "used (set_data p d' s) = used s"
      "g_initOneAlloc (set_data p d' s) = g_initOneAlloc s"
    by (simp_all add: set_data_def buf_def used_def)
  have "pool_inv slots (set_data p d' s)"
    by (rule pool_inv_heap [OF _ headers_set_data [OF _ fl len] b(1)])
      (use ok fl len pool_inv_headers [of slots s] in \<open>auto simp: flat_set_data [OF fl]\<close>)
  moreover have "live (set_data p d' s) = (live s)(p \<mapsto> (z, d'))"
    using lv by (auto simp: live_flat b flat_set_data [OF fl] fun_eq_iff split: if_splits)
  ultimately show "(malloc_laws mal \<and> pool_inv slots (set_data p d' s) \<and> \<not> g_initOneAlloc (set_data p d' s)) \<and>
      live (set_data p d' s) = (live s)(p \<mapsto> (z, d'))"
    using ok b by simp
qed (use tpool_alloc_live tpool_free_live in blast)+

section \<open>The first call\<close>






section \<open>Calls of a client\<close>








lemma tcalloc_with: "tcalloc mal n s = calloc_with (tmalloc mal) n s"
  by (simp add: tcalloc_def calloc_with_def)

lemma tpool_realloc_with:
  assumes "live s old = Some (z, d)" and "old \<noteq> NULL"
  shows "tpool_realloc mal old n s = move_with (tpool_alloc mal) tpool_free old z n s"
  using assms by (auto simp: tpool_realloc_def move_with_def live_def split: if_splits)

lemma trealloc_with:
  assumes "flat s old = Some (z, d)" and "old \<noteq> NULL" and "z \<le> n"
  shows "trealloc mal old n s = move_with (tmalloc mal) tfree old z n s"
  using assms by (auto simp: trealloc_def move_with_def flat_def)

text \<open>The calls without pools keep what a block held, as those with pools do.\<close>

lemma trealloc_keeps_contents:
  assumes "malloc_laws mal" and "headers_ok s" and "n + 1023 < 2 ^ 64"
    and "flat s old = Some (z, d)" and "z \<le> n"
  shows "\<exists>p s'. trealloc mal old n s = Done (p, s') \<and>
    (p = NULL \<and> flat s' = (flat s)(old := None) \<or>
     p \<noteq> NULL \<and> flat s p = None \<and>
       (\<exists>w e. flat s' = (flat s)(old := None, p \<mapsto> (w, e)) \<and> n \<le> length e \<and> take z e = take z d))"
proof -
  have "old \<noteq> NULL" using flat_NULL [OF assms(2)] assms(4) by auto
  moreover have "z \<le> adjusted_size n" using adjusted_size_fits [OF assms(3)] assms(5) by simp
  ultimately show ?thesis
    using plain_store.move_law [of mal s n old z d] assms trealloc_with [OF assms(4) _ assms(5)] by auto
qed

text \<open>A \<open>realloc\<close> to a smaller size copies the old size: when the rounded new size is below it, the copy writes
  behind the new block.\<close>

lemma tpool_realloc_overruns:
  assumes "malloc_laws mal" and "pool_inv slots s" and "\<not> g_initOneAlloc s" and "n + 1023 < 2 ^ 64"
    and "live s old = Some (z, d)" and "old \<noteq> NULL" and "adjusted_size n < z"
    and "fst (tpool_alloc mal n s) \<noteq> NULL"
  shows "tpool_realloc mal old n s = Crash"
proof -
  obtain p s' where a: "tpool_alloc mal n s = (p, s')" by fastforce
  have L: "pool_inv slots s' \<and> allocated n p (live s) (live s') \<and> \<not> g_initOneAlloc s'"
    by (rule tpool_alloc_live [OF assms(1-4) a])
  then obtain w e where "live s' p = Some (w, e)" "length e = adjusted_size n"
    using assms(8) a by (auto simp: allocated_def)
  then obtain b where "pl_heap s' (real_base p) = Some b" "length (pb_data b) = adjusted_size n"
    using pool_store.block_law [of mal s' p w e] assms(1) L by auto
  then have "memcpy_block p old z s' = Crash"
    using assms(7) by (auto simp: memcpy_block_def split: option.splits)
  then show ?thesis
    unfolding tpool_realloc_with [OF assms(5,6)] using a assms(8) by (simp add: move_with_def)
qed

text \<open>A block of 26 bytes from the pool has 25 in its header, so \<open>realloc\<close> loses the last byte.\<close>

lemma pool_of_26_is_headed_25:
  assumes "mal (pl_heap s) 1036 = Some a"
  shows "map_option pb_size (pl_heap (init_slot mal 2 25 j s) a) = Some 25"
  using assms by (simp add: init_slot_def tmalloc_def real_size_def adjusted_size_def)

section \<open>Properties\<close>





end
