(* ===== verification/Byte_Order.thy ===== *)
theory Byte_Order
  imports Prelude
begin

text \<open>
  The byte order macros of eloop/common.h: integers of 16, 24, 32 and 64 bits stored in memory in big or little
  endian order, and the swaps used where the platform has none. The argument of a macro is the bytes from its pointer on;
  an access behind them is \<open>Crash\<close>.
\<close>

type_synonym u64 = "64 word"

definition wpa_swap_16 :: "u16 \<Rightarrow> u16" where
  "wpa_swap_16 v = push_bit 8 (v AND 0xFF) OR drop_bit 8 v"

definition wpa_swap_32 :: "u32 \<Rightarrow> u32" where
  "wpa_swap_32 v =
     push_bit 24 (v AND 0xFF) OR push_bit 8 (v AND 0xFF00) OR drop_bit 8 (v AND 0xFF0000) OR drop_bit 24 v"

fun WPA_GET_BE16 :: "u8 list \<Rightarrow> u16 outcome" where
  "WPA_GET_BE16 (a # b # r) = Done (push_bit 8 (ucast a) OR ucast b)"
| "WPA_GET_BE16 r = Crash"

fun WPA_PUT_BE16 :: "u8 list \<Rightarrow> u16 \<Rightarrow> u8 list outcome" where
  "WPA_PUT_BE16 (_ # _ # r) v = Done (ucast (drop_bit 8 v) # ucast (v AND 0xFF) # r)"
| "WPA_PUT_BE16 r v = Crash"

fun WPA_GET_LE16 :: "u8 list \<Rightarrow> u16 outcome" where
  "WPA_GET_LE16 (a # b # r) = Done (push_bit 8 (ucast b) OR ucast a)"
| "WPA_GET_LE16 r = Crash"

fun WPA_PUT_LE16 :: "u8 list \<Rightarrow> u16 \<Rightarrow> u8 list outcome" where
  "WPA_PUT_LE16 (_ # _ # r) v = Done (ucast (v AND 0xFF) # ucast (drop_bit 8 v) # r)"
| "WPA_PUT_LE16 r v = Crash"

fun WPA_GET_BE24 :: "u8 list \<Rightarrow> u32 outcome" where
  "WPA_GET_BE24 (a # b # c # r) = Done (push_bit 16 (ucast a) OR push_bit 8 (ucast b) OR ucast c)"
| "WPA_GET_BE24 r = Crash"

fun WPA_PUT_BE24 :: "u8 list \<Rightarrow> u32 \<Rightarrow> u8 list outcome" where
  "WPA_PUT_BE24 (_ # _ # _ # r) v =
     Done (ucast (drop_bit 16 v) # ucast (drop_bit 8 v) # ucast (v AND 0xFF) # r)"
| "WPA_PUT_BE24 r v = Crash"

fun WPA_GET_BE32 :: "u8 list \<Rightarrow> u32 outcome" where
  "WPA_GET_BE32 (a # b # c # d # r) =
     Done (push_bit 24 (ucast a) OR push_bit 16 (ucast b) OR push_bit 8 (ucast c) OR ucast d)"
| "WPA_GET_BE32 r = Crash"

fun WPA_PUT_BE32 :: "u8 list \<Rightarrow> u32 \<Rightarrow> u8 list outcome" where
  "WPA_PUT_BE32 (_ # _ # _ # _ # r) v =
     Done (ucast (drop_bit 24 v) # ucast (drop_bit 16 v) # ucast (drop_bit 8 v) # ucast (v AND 0xFF) # r)"
| "WPA_PUT_BE32 r v = Crash"

fun WPA_PUT_BE64 :: "u8 list \<Rightarrow> u64 \<Rightarrow> u8 list outcome" where
  "WPA_PUT_BE64 (_ # _ # _ # _ # _ # _ # _ # _ # r) v =
     Done (ucast (drop_bit 56 v) # ucast (drop_bit 48 v) # ucast (drop_bit 40 v) # ucast (drop_bit 32 v) #
           ucast (drop_bit 24 v) # ucast (drop_bit 16 v) # ucast (drop_bit 8 v) # ucast (v AND 0xFF) # r)"
| "WPA_PUT_BE64 r v = Crash"

section \<open>Laws\<close>

lemma byte_mask:
  "(0xFF :: u16) = mask 8" "(0xFF :: u32) = mask 8" "(0xFF :: u64) = mask 8"
  "(0xFF00 :: u32) = push_bit 8 (mask 8)" "(0xFF0000 :: u32) = push_bit 16 (mask 8)"
  by (simp_all add: mask_eq_exp_minus_1 push_bit_eq_mult)

lemma bit_behind [simp]:
  "8 \<le> n \<Longrightarrow> \<not> bit (a :: u8) n" "16 \<le> n \<Longrightarrow> \<not> bit (h :: u16) n"
  "32 \<le> n \<Longrightarrow> \<not> bit (v :: u32) n" "64 \<le> n \<Longrightarrow> \<not> bit (x :: u64) n"
  using bit_imp_le_length [of a n] bit_imp_le_length [of h n] bit_imp_le_length [of v n] bit_imp_le_length [of x n]
  by auto

lemma bit_of_bytes:
  assumes "n < (32 :: nat)"
  obtains i m where "i \<in> {0, 8, 16, 24}" "m < 8" "n = i + m"
  using assms that [of 0 n] that [of 8 "n - 8"] that [of 16 "n - 16"] that [of 24 "n - 24"] by fastforce

lemma word32_eqI:
  assumes "\<And>m. m < 8 \<Longrightarrow> (bit v m \<longleftrightarrow> bit w m) \<and> (bit v (8 + m) \<longleftrightarrow> bit w (8 + m)) \<and>
    (bit v (16 + m) \<longleftrightarrow> bit w (16 + m)) \<and> (bit v (24 + m) \<longleftrightarrow> bit w (24 + m))"
  shows "v = (w :: u32)"
proof (rule bit_word_eqI)
  fix n assume "n < LENGTH(32)"
  then show "bit v n \<longleftrightarrow> bit w n" using assms by (auto elim: bit_of_bytes)
qed

lemma bit_swap_32:
  assumes "m < 8"
  shows "bit (wpa_swap_32 v) m = bit v (24 + m)" "bit (wpa_swap_32 v) (8 + m) = bit v (16 + m)"
    "bit (wpa_swap_32 v) (16 + m) = bit v (8 + m)" "bit (wpa_swap_32 v) (24 + m) = bit v m"
  using assms unfolding wpa_swap_32_def byte_mask by (auto simp: bit_simps)

lemma swap_16_twice: "wpa_swap_16 (wpa_swap_16 v) = v"
  unfolding wpa_swap_16_def byte_mask by (rule bit_word_eqI) (auto simp: bit_simps)

lemma swap_32_twice: "wpa_swap_32 (wpa_swap_32 v) = v"
  by (rule word32_eqI) (simp add: bit_swap_32)

text \<open>What a store macro writes is what the load macro reads, whatever was in memory; the bytes behind stay.\<close>

lemma be16_get_put: "obind (WPA_PUT_BE16 (a # b # r) v) WPA_GET_BE16 = Done v"
  by (simp add: byte_mask) (rule bit_word_eqI, auto simp: bit_simps)

lemma le16_get_put: "obind (WPA_PUT_LE16 (a # b # r) v) WPA_GET_LE16 = Done v"
  by (simp add: byte_mask) (rule bit_word_eqI, auto simp: bit_simps)

lemma be32_get_put: "obind (WPA_PUT_BE32 (a # b # c # d # r) v) WPA_GET_BE32 = Done v"
  by (simp add: byte_mask) (rule word32_eqI, auto simp: bit_simps)

lemma be24_get_put: "obind (WPA_PUT_BE24 (a # b # c # r) v) WPA_GET_BE24 = Done (take_bit 24 v)"
  by (simp add: byte_mask) (rule word32_eqI, auto simp: bit_simps)

text \<open>Storing what was loaded changes nothing.\<close>

lemma be16_put_get: "obind (WPA_GET_BE16 (a # b # r)) (WPA_PUT_BE16 (a # b # r)) = Done (a # b # r)"
  by (simp add: byte_mask) (intro conjI; rule bit_word_eqI, auto simp: bit_simps)

lemma be32_put_get: "obind (WPA_GET_BE32 (a # b # c # d # r)) (WPA_PUT_BE32 (a # b # c # d # r)) = Done (a # b # c # d # r)"
  by (simp add: byte_mask) (intro conjI; rule bit_word_eqI, auto simp: bit_simps)

text \<open>The little endian load is the swap of the big endian one, and a 64-bit store is two 32-bit stores.\<close>

lemma le16_is_swapped_be16: "obind (WPA_GET_BE16 (a # b # r)) (\<lambda>v. Done (wpa_swap_16 v)) = WPA_GET_LE16 (a # b # r)"
  by (simp add: byte_mask wpa_swap_16_def) (rule bit_word_eqI, auto simp: bit_simps)

lemma be64_two_be32:
  "WPA_PUT_BE64 (a # b # c # d # e # f # g # h # r) v =
     obind (WPA_PUT_BE32 [a, b, c, d] (ucast (drop_bit 32 v))) (\<lambda>hi.
     obind (WPA_PUT_BE32 (e # f # g # h # r) (ucast v)) (\<lambda>lo. Done (hi @ lo)))"
  by (simp add: byte_mask) (intro conjI; rule bit_word_eqI, auto simp: bit_simps)

end
