(* ===== verification/Context_Switch.thy ===== *)
theory Context_Switch
  imports Prelude
begin

text \<open>
  The switch of stacks under the tasks: \<open>getmcontext\<close> and \<open>setmcontext\<close> of eloop/asm.S for five processors, and
  \<open>makecontext\<close> and \<open>swapcontext\<close> of eloop/context.c, for the platforms whose C library has none. A
  machine is its registers and its memory by words: an address stands for the word that begins there, so the model is
  one of accesses that are aligned. The argument of a function is the address of the \<open>mcontext\<close>.
\<close>

section \<open>Machines\<close>

record ('r, 'w) mach =
  mreg :: "'r \<Rightarrow> 'w"
  mmem :: "'w \<Rightarrow> 'w"

definition set_reg :: "'r \<Rightarrow> 'n :: len word \<Rightarrow> ('r, 'n word) mach \<Rightarrow> ('r, 'n word) mach" where
  "set_reg r v m = m\<lparr>mreg := (mreg m)(r := v)\<rparr>"

definition store :: "'n :: len word \<Rightarrow> 'n word \<Rightarrow> ('r, 'n word) mach \<Rightarrow> ('r, 'n word) mach" where
  "store a v m = m\<lparr>mmem := (mmem m)(a := v)\<rparr>"

text \<open>A sequence of stores of registers at offsets from an address, and one of loads.\<close>

fun save_regs :: "'n :: len word \<Rightarrow> ('r \<times> 'n word) list \<Rightarrow> ('r, 'n word) mach \<Rightarrow> ('r, 'n word) mach" where
  "save_regs b [] m = m"
| "save_regs b ((r, off) # t) m = save_regs b t (store (b + off) (mreg m r) m)"

fun load_regs :: "'n :: len word \<Rightarrow> ('r \<times> 'n word) list \<Rightarrow> ('r, 'n word) mach \<Rightarrow> ('r, 'n word) mach" where
  "load_regs b [] m = m"
| "load_regs b ((r, off) # t) m = load_regs b t (set_reg r (mmem m (b + off)) m)"

section \<open>AMD64\<close>

datatype amd64_reg =
  RAX | RBX | RCX | RDX | RSI | RDI | RBP | RSP | R8 | R9 | R10 | R11 | R12 | R13 | R14 | R15 | RIP

type_synonym amd64 = "(amd64_reg, 64 word) mach"

definition amd64_ret :: "amd64 \<Rightarrow> amd64" where
  "amd64_ret m = set_reg RSP (mreg m RSP + 8) (set_reg RIP (mmem m (mreg m RSP)) m)"

definition amd64_push :: "64 word \<Rightarrow> amd64 \<Rightarrow> amd64" where
  "amd64_push v m = (let sp = mreg m RSP - 8 in store sp v (set_reg RSP sp m))"

definition amd64_getmcontext :: "amd64 \<Rightarrow> amd64" where
  "amd64_getmcontext m =
     (let u = mreg m RDI;
          m1 = save_regs u [(RDI, 8), (RSI, 16), (RDX, 24), (RCX, 32), (R8, 40), (R9, 48)] m;
          m2 = store (u + 56) 1 m1;
          m3 = save_regs u [(RBX, 64), (RBP, 72), (R10, 80), (R11, 88), (R12, 96), (R13, 104), (R14, 112), (R15, 120)] m2;
          m4 = set_reg RCX (mmem m3 (mreg m3 RSP)) m3;
          m5 = save_regs u [(RCX, 160)] m4;
          m6 = set_reg RCX (mreg m5 RSP + 8) m5;
          m7 = save_regs u [(RCX, 184)] m6;
          m8 = load_regs u [(RCX, 32)] m7
      in amd64_ret (set_reg RAX 0 m8))"

definition amd64_setmcontext :: "amd64 \<Rightarrow> amd64" where
  "amd64_setmcontext m =
     (let u = mreg m RDI;
          m1 = load_regs u [(RSI, 16), (RDX, 24), (RCX, 32), (R8, 40), (R9, 48), (RAX, 56), (RBX, 64), (RBP, 72),
                 (R10, 80), (R11, 88), (R12, 96), (R13, 104), (R14, 112), (R15, 120), (RSP, 184)] m;
          m2 = amd64_push (mmem m1 (u + 160)) m1;
          m3 = load_regs u [(RDI, 8)] m2
      in amd64_ret m3)"

text \<open>
  \<open>makecontext\<close>: the second and third parameter are the stack, the arguments are those behind \<open>argc\<close>, of which two
  are read, as \<open>int\<close>; \<open>mcontext\<close> is 100 words long.
\<close>

definition amd64_makecontext ::
  "64 word \<Rightarrow> 64 word \<Rightarrow> 64 word \<Rightarrow> 64 word \<Rightarrow> 64 word list \<Rightarrow> amd64 \<Rightarrow> amd64 outcome" where
  "amd64_makecontext u ss_sp ss_size func args m =
     (case args of
        [x, y] \<Rightarrow>
          (let m1 = fold (\<lambda>i. store (u + 8 * of_nat i) 0) [0..<100] m;
               m2 = store (u + 8) (scast (ucast x :: 32 word)) m1;
               m3 = store (u + 16) (scast (ucast y :: 32 word)) m2;
               sp = ss_sp + 8 * (ss_size div 8) - 8 * 2;
               sp = sp - sp mod 16;
               sp = sp - 8;
               m4 = store sp 0 m3
           in Done (store (u + 184) sp (store (u + 160) func m4)))
      | _ \<Rightarrow> Crash)"

section \<open>ARM\<close>

text \<open>Register 13 is the stack pointer, 14 the link register, 15 the program counter.\<close>

type_synonym arm = "(nat, 32 word) mach"

definition arm_regs :: "(nat \<times> 32 word) list" where
  "arm_regs = [(1, 4), (2, 8), (3, 12), (4, 16), (5, 20), (6, 24), (7, 28), (8, 32), (9, 36), (10, 40), (11, 44), (12, 48),
     (13, 52), (14, 56)]"

definition arm_getmcontext :: "arm \<Rightarrow> arm" where
  "arm_getmcontext m =
     (let b = mreg m 0 + 12;
          m1 = save_regs b arm_regs (set_reg 0 b m);
          m2 = set_reg 1 1 m1;
          m3 = store b (mreg m2 1) m2;
          m4 = set_reg 0 0 m3
      in set_reg 15 (mreg m4 14) m4)"

definition arm_setmcontext :: "arm \<Rightarrow> arm" where
  "arm_setmcontext m =
     (let b = mreg m 0 + 12;
          m1 = load_regs b arm_regs (set_reg 0 b m);
          m2 = set_reg 0 (mmem m1 b) m1
      in set_reg 15 (mreg m2 14) m2)"

definition arm_makecontext :: "32 word \<Rightarrow> 32 word \<Rightarrow> 32 word \<Rightarrow> 32 word \<Rightarrow> 32 word list \<Rightarrow> arm \<Rightarrow> arm" where
  "arm_makecontext u ss_sp ss_size func args m =
     (let g = u + 12;
          sp = ss_sp + 4 * (ss_size div 4);
          m1 = fold (\<lambda>(i, v). store (g + 4 * of_nat i) v) (enumerate 0 (take 4 args)) m
      in store (g + 4 * 14) func (store (g + 4 * 13) sp m1))"

section \<open>MIPS\<close>

text \<open>Register 2 holds a result, 4 the first argument, 29 is the stack pointer, 31 the return address; 32 stands for the
  program counter.\<close>

type_synonym mips = "(nat, 32 word) mach"

definition mips_getmcontext :: "mips \<Rightarrow> mips" where
  "mips_getmcontext m =
     (let u = mreg m 4;
          m1 = save_regs u [(4, 24), (5, 28), (6, 32), (7, 36), (16, 72), (17, 76), (18, 80), (19, 84), (20, 88), (21, 92),
                 (22, 96), (23, 100), (28, 120), (29, 124), (30, 128), (31, 132)] m;
          m2 = set_reg 2 (mreg m1 2 XOR mreg m1 2) m1
      in set_reg 32 (mreg m2 31) m2)"

definition mips_setmcontext :: "mips \<Rightarrow> mips" where
  "mips_setmcontext m =
     (let u = mreg m 4;
          m1 = load_regs u [(16, 72), (17, 76), (18, 80), (19, 84), (20, 88), (21, 92), (22, 96), (23, 100), (28, 120),
                 (29, 124), (30, 128), (8, 132), (25, 132), (5, 28), (6, 32), (7, 36), (4, 24)] m
      in set_reg 32 (mreg m1 8) m1)"

definition mips_makecontext :: "32 word \<Rightarrow> 32 word \<Rightarrow> 32 word \<Rightarrow> 32 word \<Rightarrow> 32 word list \<Rightarrow> mips \<Rightarrow> mips" where
  "mips_makecontext u ss_sp ss_size func args m =
     (let sp = ss_sp + 4 * (ss_size div 4);
          m1 = fold (\<lambda>(i, v). store (u + 8 + 4 * of_nat (i + 4)) v) (enumerate 0 (take 4 args)) m
      in store (u + 8 + 4 * 31) func (store (u + 8 + 4 * 29) sp m1))"

section \<open>PowerPC\<close>

text \<open>Registers 0 to 31, then the link, condition, count and exception register and the program counter.\<close>

type_synonym ppc = "(nat, 32 word) mach"

abbreviation (input) LR :: nat where "LR \<equiv> 32"
abbreviation (input) CR :: nat where "CR \<equiv> 33"
abbreviation (input) CTR :: nat where "CTR \<equiv> 34"
abbreviation (input) XER :: nat where "XER \<equiv> 35"
abbreviation (input) PPC_PC :: nat where "PPC_PC \<equiv> 36"

definition ppc_callee_saved :: "(nat \<times> 32 word) list" where
  "ppc_callee_saved = [(13, 28), (14, 32), (15, 36), (16, 40), (17, 44), (18, 48), (19, 52), (20, 56), (21, 60), (22, 64),
     (23, 68), (24, 72), (25, 76), (26, 80), (27, 84), (28, 88), (29, 92), (30, 96), (31, 100)]"

definition ppc_getmcontext :: "ppc \<Rightarrow> ppc" where
  "ppc_getmcontext m =
     (let u = mreg m 3;
          m1 = set_reg 7 (mreg m XER) (set_reg 6 (mreg m CTR) (set_reg 5 (mreg m CR) (set_reg 0 (mreg m LR) m)));
          m2 = save_regs u [(0, 0), (5, 4), (6, 8), (7, 12), (1, 16), (2, 20)] m1;
          m3 = set_reg 5 1 m2;
          m4 = save_regs u ((5, 24) # ppc_callee_saved) m3;
          m5 = set_reg 3 0 m4
      in set_reg PPC_PC (mreg m5 LR) m5)"

definition ppc_setmcontext :: "ppc \<Rightarrow> ppc" where
  "ppc_setmcontext m =
     (let u = mreg m 3;
          m1 = load_regs u (ppc_callee_saved @ [(1, 16), (2, 20), (0, 0)]) m;
          m2 = load_regs u [(0, 4)] (set_reg LR (mreg m1 0) m1);
          m3 = load_regs u [(0, 8)] (set_reg CR (mreg m2 0) m2);
          m4 = load_regs u [(0, 12)] (set_reg CTR (mreg m3 0) m3);
          m5 = load_regs u [(3, 24)] (set_reg XER (mreg m4 0) m4)
      in set_reg PPC_PC (mreg m5 LR) m5)"

definition ppc_makecontext :: "32 word \<Rightarrow> 32 word \<Rightarrow> 32 word \<Rightarrow> 32 word \<Rightarrow> 32 word list \<Rightarrow> ppc \<Rightarrow> ppc outcome" where
  "ppc_makecontext u ss_sp ss_size func args m =
     (case args of
        [] \<Rightarrow> Crash
      | x # _ \<Rightarrow>
          (let tos = ss_sp + 4 * (ss_size div 4);
               sp = tos - 4 * 16
           in Done (store (u + 24) x (store (u + 16) sp (store u func m)))))"

section \<open>The 386\<close>

datatype x86_reg = EAX | EBX | ECX | EDX | ESI | EDI | EBP | ESP | FS | ES | DS | SS | EIP

type_synonym x86 = "(x86_reg, 32 word) mach"

definition x86_ret :: "x86 \<Rightarrow> x86" where
  "x86_ret m = set_reg ESP (mreg m ESP + 4) (set_reg EIP (mmem m (mreg m ESP)) m)"

definition x86_push :: "32 word \<Rightarrow> x86 \<Rightarrow> x86" where
  "x86_push v m = (let sp = mreg m ESP - 4 in store sp v (set_reg ESP sp m))"

definition x86_getmcontext :: "x86 \<Rightarrow> x86" where
  "x86_getmcontext m =
     (let u = mmem m (mreg m ESP + 4);
          m1 = save_regs u [(FS, 8), (ES, 12), (DS, 16), (SS, 76), (EDI, 20), (ESI, 24), (EBP, 28), (EBX, 36), (EDX, 40),
                 (ECX, 44)] (set_reg EAX u m);
          m2 = store (u + 48) 1 m1;
          m3 = save_regs u [(ECX, 60)] (set_reg ECX (mmem m2 (mreg m2 ESP)) m2);
          m4 = save_regs u [(ECX, 72)] (set_reg ECX (mreg m3 ESP + 4) m3);
          m5 = load_regs u [(ECX, 44)] m4
      in x86_ret (set_reg EAX 0 m5))"

definition x86_setmcontext :: "x86 \<Rightarrow> x86" where
  "x86_setmcontext m =
     (let u = mmem m (mreg m ESP + 4);
          m1 = load_regs u [(FS, 8), (ES, 12), (DS, 16), (SS, 76), (EDI, 20), (ESI, 24), (EBP, 28), (EBX, 36), (EDX, 40),
                 (ECX, 44), (ESP, 72)] (set_reg EAX u m);
          m2 = x86_push (mmem m1 (u + 60)) m1;
          m3 = load_regs u [(EAX, 48)] m2
      in x86_ret m3)"

definition x86_makecontext :: "32 word \<Rightarrow> 32 word \<Rightarrow> 32 word \<Rightarrow> 32 word \<Rightarrow> 32 word list \<Rightarrow> x86 \<Rightarrow> x86" where
  "x86_makecontext u ss_sp ss_size func args m =
     (let sp = ss_sp + 4 * (ss_size div 4) - 4 * of_nat (length args);
          sp = sp - sp mod 16;
          m1 = fold (\<lambda>(i, v). store (sp + 4 * of_nat i) v) (enumerate 0 args) m;
          sp = sp - 4;
          m2 = store sp 0 m1
      in store (u + 72) sp (store (u + 60) func m2))"

section \<open>Switching\<close>

text \<open>
  \<open>swapcontext\<close>, compiled: \<open>call\<close> is the code that calls a function with a pointer, \<open>result\<close> reads what one returned. A
  function that returned 1 was resumed.
\<close>

definition swapcontext ::
  "('m \<Rightarrow> 'm) \<Rightarrow> ('m \<Rightarrow> 'm) \<Rightarrow> ('m \<Rightarrow> 'n :: len word) \<Rightarrow> ('n word \<Rightarrow> 'm \<Rightarrow> 'm) \<Rightarrow> 'n word \<Rightarrow> 'n word \<Rightarrow> 'm \<Rightarrow> 'm" where
  "swapcontext getc setc result call oucp ucp m =
     (let m1 = getc (call oucp m) in if result m1 = 0 then setc (call ucp m1) else m1)"

end
