(* ===== verification/Context_Switch_Laws.thy ===== *)
theory Context_Switch_Laws
  imports Context_Switch Task_Laws
begin

text \<open>
  What the context switches guarantee: a context that was saved and not touched resumes where it was saved,
  and a new one starts its function on its stack.
\<close>

named_theorems mach_simps "single steps of a machine"

declare set_reg_def [mach_simps] store_def [mach_simps] Let_def [mach_simps]

section \<open>The interface\<close>

text \<open>
  A pair of functions that save and resume: \<open>arg\<close> is the context a call names, \<open>cells\<close> the words of a context, \<open>apart\<close>
  says that the stack words a call uses lie outside the context, \<open>kept\<close> are the registers a resumed call restores.
\<close>

locale context_ops =
  fixes getc setc :: "('r, 'n :: len word) mach \<Rightarrow> ('r, 'n word) mach"
    and result arg :: "('r, 'n word) mach \<Rightarrow> 'n word"
    and cells :: "'n word \<Rightarrow> 'n word set"
    and apart :: "('r, 'n word) mach \<Rightarrow> bool"
    and kept :: "'r set"
  assumes get_zero: "apart m \<Longrightarrow> result (getc m) = 0"
    and get_frame: "a \<notin> cells (arg m) \<Longrightarrow> mmem (getc m) a = mmem m a"
    and resume: "apart m \<Longrightarrow> \<forall>a \<in> cells (arg m). mmem m' a = mmem (getc m) a \<Longrightarrow> arg m' = arg m \<Longrightarrow>
           result (setc m') = 1 \<and> (\<forall>r \<in> kept. mreg (setc m') r = mreg (getc m) r)"
begin

lemma swap_saves:
  assumes "apart (call a m)"
  shows "swapcontext getc setc result call a b m = setc (call b (getc (call a m)))"
  by (simp add: swapcontext_def get_zero [OF assms])

lemma swap_back_resumes:
  assumes "apart (call a m)" and "apart (call b m2)"
    and "\<And>u x. arg (call u x) = u"
    and "\<And>u x y. y \<in> cells a \<Longrightarrow> mmem (call u x) y = mmem x y"
    and "cells a \<inter> cells b = {}"
    and "\<forall>y \<in> cells a. mmem m2 y = mmem (getc (call a m)) y"
  shows "result (swapcontext getc setc result call b a m2) = 1 \<and>
    (\<forall>r \<in> kept. mreg (swapcontext getc setc result call b a m2) r = mreg (getc (call a m)) r)"
proof -
  let ?m3 = "call a (getc (call b m2))"
  have "mmem ?m3 y = mmem (getc (call a m)) y" if "y \<in> cells a" for y
  proof -
    have "y \<notin> cells (arg (call b m2))" using that assms(3,5) by auto
    then have "mmem (getc (call b m2)) y = mmem (call b m2) y" by (rule get_frame)
    with assms(4,6) that show ?thesis by simp
  qed
  then have "\<forall>y \<in> cells (arg (call a m)). mmem ?m3 y = mmem (getc (call a m)) y" by (simp add: assms(3))
  from resume [OF assms(1) this] show ?thesis
    unfolding swap_saves [where call = call, OF assms(2)] by (simp add: assms(3))
qed

end

section \<open>AMD64\<close>

definition amd64_cells :: "64 word \<Rightarrow> 64 word set" where
  "amd64_cells u = (+) u ` {8, 16, 24, 32, 40, 48, 56, 64, 72, 80, 88, 96, 104, 112, 120, 160, 184}"

definition amd64_apart :: "amd64 \<Rightarrow> bool" where
  "amd64_apart m \<longleftrightarrow> mreg m RSP \<notin> amd64_cells (mreg m RDI)"

lemma amd64_get_mem:
  fixes m :: amd64
  defines "u \<equiv> mreg m RDI"
  assumes "amd64_apart m"
  shows "mmem (amd64_getmcontext m) = (mmem m)
     (u + 8 := u, u + 16 := mreg m RSI, u + 24 := mreg m RDX, u + 32 := mreg m RCX, u + 40 := mreg m R8,
      u + 48 := mreg m R9, u + 56 := 1, u + 64 := mreg m RBX, u + 72 := mreg m RBP, u + 80 := mreg m R10,
      u + 88 := mreg m R11, u + 96 := mreg m R12, u + 104 := mreg m R13, u + 112 := mreg m R14, u + 120 := mreg m R15,
      u + 160 := mmem m (mreg m RSP), u + 184 := mreg m RSP + 8)"
  using assms(2) unfolding u_def
  by (simp add: amd64_getmcontext_def amd64_ret_def amd64_apart_def amd64_cells_def mach_simps)

lemma amd64_saved:
  fixes m :: amd64
  defines "u \<equiv> mreg m RDI" and "g \<equiv> amd64_getmcontext m"
  assumes "amd64_apart m"
  shows "mreg g = (mreg m)(RAX := 0, RIP := mmem m (mreg m RSP), RSP := mreg m RSP + 8)"
    and "mmem g (u + 8) = u" "mmem g (u + 16) = mreg m RSI" "mmem g (u + 24) = mreg m RDX" "mmem g (u + 32) = mreg m RCX"
      "mmem g (u + 40) = mreg m R8" "mmem g (u + 48) = mreg m R9" "mmem g (u + 56) = 1" "mmem g (u + 64) = mreg m RBX"
      "mmem g (u + 72) = mreg m RBP" "mmem g (u + 80) = mreg m R10" "mmem g (u + 88) = mreg m R11"
      "mmem g (u + 96) = mreg m R12" "mmem g (u + 104) = mreg m R13" "mmem g (u + 112) = mreg m R14"
      "mmem g (u + 120) = mreg m R15" "mmem g (u + 160) = mmem m (mreg m RSP)" "mmem g (u + 184) = mreg m RSP + 8"
proof -
  show "mreg g = (mreg m)(RAX := 0, RIP := mmem m (mreg m RSP), RSP := mreg m RSP + 8)"
    using assms(3) unfolding g_def
    by (simp add: amd64_getmcontext_def amd64_ret_def amd64_apart_def amd64_cells_def mach_simps fun_eq_iff)
qed (simp_all add: g_def u_def amd64_get_mem [OF assms(3)])

lemma amd64_frame: "a \<notin> amd64_cells (mreg m RDI) \<Longrightarrow> mmem (amd64_getmcontext m) a = mmem m a"
  by (simp add: amd64_getmcontext_def amd64_ret_def amd64_cells_def mach_simps)

lemma amd64_loaded:
  fixes m :: amd64
  defines "u \<equiv> mreg m RDI"
  assumes "mmem m (u + 184) - 8 \<noteq> u + 8"
  shows "mreg (amd64_setmcontext m) = (mreg m)
     (RSI := mmem m (u + 16), RDX := mmem m (u + 24), RCX := mmem m (u + 32), R8 := mmem m (u + 40),
      R9 := mmem m (u + 48), RAX := mmem m (u + 56), RBX := mmem m (u + 64), RBP := mmem m (u + 72),
      R10 := mmem m (u + 80), R11 := mmem m (u + 88), R12 := mmem m (u + 96), R13 := mmem m (u + 104),
      R14 := mmem m (u + 112), R15 := mmem m (u + 120), RDI := mmem m (u + 8), RIP := mmem m (u + 160),
      RSP := mmem m (u + 184))"
    and "mmem (amd64_setmcontext m) = (mmem m)(mmem m (u + 184) - 8 := mmem m (u + 160))"
  using assms(2) unfolding u_def
  by (simp_all add: amd64_setmcontext_def amd64_push_def amd64_ret_def mach_simps fun_upd_twist)

lemma amd64_resume:
  assumes "amd64_apart m" and mem: "\<forall>a \<in> amd64_cells (mreg m RDI). mmem m' a = mmem (amd64_getmcontext m) a"
    and u: "mreg m' RDI = mreg m RDI"
  shows "mreg (amd64_setmcontext m') = (mreg (amd64_getmcontext m))(RAX := 1)"
proof -
  note g = amd64_saved [OF assms(1)]
  have c: "mmem m' (mreg m RDI + k) = mmem (amd64_getmcontext m) (mreg m RDI + k)"
    if "k \<in> {8, 16, 24, 32, 40, 48, 56, 64, 72, 80, 88, 96, 104, 112, 120, 160, 184}" for k
    using mem that by (auto simp: amd64_cells_def)
  have "mreg m RSP \<noteq> mreg m RDI + 8" using assms(1) by (auto simp: amd64_apart_def amd64_cells_def)
  then have n: "mmem m' (mreg m' RDI + 184) - 8 \<noteq> mreg m' RDI + 8" by (simp add: u c g)
  show ?thesis
  proof
    fix r show "mreg (amd64_setmcontext m') r = ((mreg (amd64_getmcontext m))(RAX := 1)) r"
      unfolding amd64_loaded(1) [OF n] by (cases r) (simp_all add: u c g)
  qed
qed

interpretation amd64_switch: context_ops amd64_getmcontext amd64_setmcontext "\<lambda>m. mreg m RAX" "\<lambda>m. mreg m RDI"
  amd64_cells amd64_apart "UNIV - {RAX}"
  by unfold_locales (simp_all add: amd64_saved amd64_frame amd64_resume)

section \<open>The other processors\<close>

definition arm_cells :: "32 word \<Rightarrow> 32 word set" where
  "arm_cells u = (\<lambda>k. u + (12 + k)) ` {0, 4, 8, 12, 16, 20, 24, 28, 32, 36, 40, 44, 48, 52, 56}"

lemma arm_saved:
  fixes m :: arm
  defines "u \<equiv> mreg m 0" and "g \<equiv> arm_getmcontext m"
  shows "mreg g = (mreg m)(0 := 0, 1 := 1, 15 := mreg m 14)" "mmem g (u + 12) = 1"
    "mmem g (u + 16) = mreg m 1" "mmem g (u + 20) = mreg m 2" "mmem g (u + 24) = mreg m 3" "mmem g (u + 28) = mreg m 4"
    "mmem g (u + 32) = mreg m 5" "mmem g (u + 36) = mreg m 6" "mmem g (u + 40) = mreg m 7" "mmem g (u + 44) = mreg m 8"
    "mmem g (u + 48) = mreg m 9" "mmem g (u + 52) = mreg m 10" "mmem g (u + 56) = mreg m 11" "mmem g (u + 60) = mreg m 12"
    "mmem g (u + 64) = mreg m 13" "mmem g (u + 68) = mreg m 14"
  unfolding u_def g_def by (simp_all add: arm_getmcontext_def arm_regs_def mach_simps fun_eq_iff)

lemma arm_frame: "a \<notin> arm_cells (mreg m 0) \<Longrightarrow> mmem (arm_getmcontext m) a = mmem m a"
  by (simp add: arm_getmcontext_def arm_regs_def arm_cells_def mach_simps ac_simps)

lemma arm_resume:
  assumes mem: "\<forall>a \<in> arm_cells (mreg m 0). mmem m' a = mmem (arm_getmcontext m) a" and u: "mreg m' 0 = mreg m 0"
  shows "mreg (arm_setmcontext m') 0 = 1 \<and> (\<forall>r \<in> {2, 3, 4, 5, 6, 7, 8, 9, 10, 11, 12, 13, 14, 15}. mreg (arm_setmcontext m') r = mreg (arm_getmcontext m) r)"
proof -
  have c: "mmem m' (mreg m 0 + (12 + k)) = mmem (arm_getmcontext m) (mreg m 0 + (12 + k))"
    if "k \<in> {0, 4, 8, 12, 16, 20, 24, 28, 32, 36, 40, 44, 48, 52, 56}" for k
    using mem that by (auto simp: arm_cells_def)
  note c' = c [of 0] c [of 4] c [of 8] c [of 12] c [of 16] c [of 20] c [of 24] c [of 28] c [of 32] c [of 36]
    c [of 40] c [of 44] c [of 48] c [of 52] c [of 56]
  show ?thesis using c' [simplified] arm_saved [of m]
    by (simp add: arm_setmcontext_def arm_regs_def mach_simps u ac_simps)
qed

interpretation arm_switch: context_ops arm_getmcontext arm_setmcontext "\<lambda>m. mreg m 0" "\<lambda>m. mreg m 0" arm_cells
  "\<lambda>_. True" "{2, 3, 4, 5, 6, 7, 8, 9, 10, 11, 12, 13, 14, 15}"
  by unfold_locales (simp_all add: arm_saved arm_frame arm_resume)

definition ppc_cells :: "32 word \<Rightarrow> 32 word set" where
  "ppc_cells u = (+) u ` {0, 4, 8, 12, 16, 20, 24, 28, 32, 36, 40, 44, 48, 52, 56, 60, 64, 68, 72, 76, 80, 84, 88, 92, 96, 100}"

definition ppc_kept :: "nat set" where
  "ppc_kept = {1, 2, 13, 14, 15, 16, 17, 18, 19, 20, 21, 22, 23, 24, 25, 26, 27, 28, 29, 30, 31, LR, CR, CTR, XER, PPC_PC}"

lemma ppc_result: "mreg (ppc_getmcontext m) 3 = 0"
  by (simp add: ppc_getmcontext_def ppc_callee_saved_def mach_simps)

lemma ppc_frame: "a \<notin> ppc_cells (mreg m 3) \<Longrightarrow> mmem (ppc_getmcontext m) a = mmem m a"
  by (simp add: ppc_getmcontext_def ppc_callee_saved_def ppc_cells_def mach_simps ac_simps)

lemma ppc_saved:
  fixes m :: ppc
  defines "u \<equiv> mreg m 3" and "g \<equiv> ppc_getmcontext m"
  shows "mreg g = (mreg m)(0 := mreg m LR, 5 := 1, 6 := mreg m CTR, 7 := mreg m XER, 3 := 0, PPC_PC := mreg m LR)"
    and "\<forall>(r, off) \<in> set ppc_callee_saved. mmem g (u + off) = mreg m r"
    and "mmem g u = mreg m LR" "mmem g (u + 4) = mreg m CR" "mmem g (u + 8) = mreg m CTR" "mmem g (u + 12) = mreg m XER"
      "mmem g (u + 16) = mreg m 1" "mmem g (u + 20) = mreg m 2" "mmem g (u + 24) = 1"
  unfolding u_def g_def by (simp_all add: ppc_getmcontext_def ppc_callee_saved_def mach_simps fun_eq_iff)

lemma ppc_loaded:
  fixes m :: ppc
  defines "u \<equiv> mreg m 3" and "h \<equiv> ppc_setmcontext m"
  shows "\<forall>(r, off) \<in> set ppc_callee_saved. mreg h r = mmem m (u + off)"
    and "mreg h LR = mmem m u" "mreg h CR = mmem m (u + 4)" "mreg h CTR = mmem m (u + 8)" "mreg h XER = mmem m (u + 12)"
      "mreg h 1 = mmem m (u + 16)" "mreg h 2 = mmem m (u + 20)" "mreg h 3 = mmem m (u + 24)" "mreg h PPC_PC = mmem m u"
  unfolding u_def h_def by (simp_all add: ppc_setmcontext_def ppc_callee_saved_def mach_simps)

lemma ppc_resume:
  assumes mem: "\<forall>a \<in> ppc_cells (mreg m 3). mmem m' a = mmem (ppc_getmcontext m) a" and u: "mreg m' 3 = mreg m 3"
  shows "mreg (ppc_setmcontext m') 3 = 1 \<and> (\<forall>r \<in> ppc_kept. mreg (ppc_setmcontext m') r = mreg (ppc_getmcontext m) r)"
  using mem ppc_saved(2) [of m] ppc_loaded(1) [of m'] unfolding ppc_cells_def ppc_callee_saved_def ppc_kept_def
  by (simp del: One_nat_def add: ppc_saved(1,3-) ppc_loaded(2-) u)

interpretation ppc_switch: context_ops ppc_getmcontext ppc_setmcontext "\<lambda>m. mreg m 3" "\<lambda>m. mreg m 3" ppc_cells
  "\<lambda>_. True" ppc_kept
  by unfold_locales (simp_all add: ppc_result ppc_frame ppc_resume)

definition x86_cells :: "32 word \<Rightarrow> 32 word set" where
  "x86_cells u = (+) u ` {8, 12, 16, 20, 24, 28, 36, 40, 44, 48, 60, 72, 76}"

abbreviation x86_arg :: "x86 \<Rightarrow> 32 word" where
  "x86_arg m \<equiv> mmem m (mreg m ESP + 4)"

definition x86_apart :: "x86 \<Rightarrow> bool" where
  "x86_apart m \<longleftrightarrow> mreg m ESP \<notin> x86_cells (x86_arg m)"

lemma x86_result: "mreg (x86_getmcontext m) EAX = 0"
  by (simp add: x86_getmcontext_def x86_ret_def mach_simps)

lemma x86_frame: "a \<notin> x86_cells (x86_arg m) \<Longrightarrow> mmem (x86_getmcontext m) a = mmem m a"
  by (simp add: x86_getmcontext_def x86_ret_def x86_cells_def mach_simps ac_simps)

lemma x86_saved:
  fixes m :: x86
  defines "u \<equiv> x86_arg m" and "g \<equiv> x86_getmcontext m"
  assumes "x86_apart m"
  shows "mreg g = (mreg m)(EAX := 0, EIP := mmem m (mreg m ESP), ESP := mreg m ESP + 4)"
    and "mmem g (u + 8) = mreg m FS" "mmem g (u + 12) = mreg m ES" "mmem g (u + 16) = mreg m DS"
      "mmem g (u + 76) = mreg m SS" "mmem g (u + 20) = mreg m EDI" "mmem g (u + 24) = mreg m ESI"
      "mmem g (u + 28) = mreg m EBP" "mmem g (u + 36) = mreg m EBX" "mmem g (u + 40) = mreg m EDX"
      "mmem g (u + 44) = mreg m ECX" "mmem g (u + 48) = 1" "mmem g (u + 60) = mmem m (mreg m ESP)"
      "mmem g (u + 72) = mreg m ESP + 4"
  using assms(3) unfolding u_def g_def
  by (simp_all add: x86_getmcontext_def x86_ret_def x86_apart_def x86_cells_def mach_simps fun_eq_iff)

lemma x86_loaded:
  fixes m :: x86
  defines "u \<equiv> x86_arg m" and "h \<equiv> x86_setmcontext m"
  assumes "mmem m (u + 72) - 4 \<noteq> u + 48"
  shows "mreg h FS = mmem m (u + 8)" "mreg h ES = mmem m (u + 12)" "mreg h DS = mmem m (u + 16)"
    "mreg h SS = mmem m (u + 76)" "mreg h EDI = mmem m (u + 20)" "mreg h ESI = mmem m (u + 24)"
    "mreg h EBP = mmem m (u + 28)" "mreg h EBX = mmem m (u + 36)" "mreg h EDX = mmem m (u + 40)"
    "mreg h ECX = mmem m (u + 44)" "mreg h EAX = mmem m (u + 48)" "mreg h EIP = mmem m (u + 60)" "mreg h ESP = mmem m (u + 72)"
  using assms(3) unfolding u_def h_def
  by (simp_all add: x86_setmcontext_def x86_push_def x86_ret_def mach_simps)

lemma x86_resume:
  assumes "x86_apart m" and mem: "\<forall>a \<in> x86_cells (x86_arg m). mmem m' a = mmem (x86_getmcontext m) a"
    and u: "x86_arg m' = x86_arg m"
  shows "mreg (x86_setmcontext m') = (mreg (x86_getmcontext m))(EAX := 1)"
proof
  fix r
  have c: "mmem m' (x86_arg m + k) = mmem (x86_getmcontext m) (x86_arg m + k)"
    if "k \<in> {8, 12, 16, 20, 24, 28, 36, 40, 44, 48, 60, 72, 76}" for k
    using mem that by (auto simp: x86_cells_def)
  have "mmem m' (x86_arg m' + 72) - 4 \<noteq> x86_arg m' + 48"
    using assms(1) by (auto simp: u c x86_saved x86_apart_def x86_cells_def)
  from x86_loaded [OF this]
  show "mreg (x86_setmcontext m') r = ((mreg (x86_getmcontext m))(EAX := 1)) r"
    by (cases r) (simp_all add: u c x86_saved [OF assms(1)])
qed

interpretation x86_switch: context_ops x86_getmcontext x86_setmcontext "\<lambda>m. mreg m EAX" x86_arg x86_cells x86_apart
  "UNIV - {EAX}"
  by unfold_locales (simp_all add: x86_result x86_frame x86_resume)

text \<open>
  On MIPS a resumed call restores the registers a function keeps, but not the result: it returns what register 2
  held when the other side called \<open>setmcontext\<close>. If that was 0, the resumed \<open>swapcontext\<close> takes the return for
  the first one and switches away again.
\<close>

definition mips_cells :: "32 word \<Rightarrow> 32 word set" where
  "mips_cells u = (+) u ` {24, 28, 32, 36, 72, 76, 80, 84, 88, 92, 96, 100, 120, 124, 128, 132}"

lemma mips_saved:
  fixes m :: mips
  defines "u \<equiv> mreg m 4" and "g \<equiv> mips_getmcontext m"
  shows "mreg g = (mreg m)(2 := 0, 32 := mreg m 31)"
    and "\<forall>(r, off) \<in> {(16, 72), (17, 76), (18, 80), (19, 84), (20, 88), (21, 92), (22, 96), (23, 100), (28, 120), (29, 124),
           (30, 128), (31, 132)}. mmem g (u + off) = mreg m r"
  unfolding u_def g_def by (simp_all add: mips_getmcontext_def mach_simps fun_eq_iff)

lemma mips_loaded:
  fixes m :: mips
  defines "u \<equiv> mreg m 4" and "h \<equiv> mips_setmcontext m"
  shows "\<forall>(r, off) \<in> {(16, 72), (17, 76), (18, 80), (19, 84), (20, 88), (21, 92), (22, 96), (23, 100), (28, 120), (29, 124),
           (30, 128), (32, 132)}. mreg h r = mmem m (u + off)"
    and "mreg h 2 = mreg m 2"
  unfolding u_def h_def by (simp_all add: mips_setmcontext_def mach_simps)

lemma mips_resume:
  assumes mem: "\<forall>a \<in> mips_cells (mreg m 4). mmem m' a = mmem (mips_getmcontext m) a" and u: "mreg m' 4 = mreg m 4"
  shows "(\<forall>r \<in> {16, 17, 18, 19, 20, 21, 22, 23, 28, 29, 30, 32}. mreg (mips_setmcontext m') r = mreg (mips_getmcontext m) r) \<and>
    mreg (mips_setmcontext m') 2 = mreg m' 2"
  using mem mips_saved(2) [of m] mips_loaded(1) [of m'] unfolding mips_cells_def
  by (simp add: mips_saved(1) mips_loaded(2) u)

lemma mips_resumed_call_may_return_0:
  assumes "mreg m' 2 = 0"
  shows "mreg (mips_setmcontext m') 2 = 0"
  using assms by (simp add: mips_setmcontext_def mach_simps)

section \<open>New contexts\<close>

lemma store_simps: "mreg (store a v m) = mreg m" "mmem (store a v m) = (mmem m)(a := v)"
  by (simp_all add: store_def)

lemma fold_store_mem:
  "mreg (fold (\<lambda>i. store (f i) v) is m) = mreg m \<and>
   mmem (fold (\<lambda>i. store (f i) v) is m) a = (if a \<in> f ` set is then v else mmem m a)"
  by (induction "is" arbitrary: m) (auto simp: store_simps)

definition amd64_entry_sp :: "64 word \<Rightarrow> 64 word \<Rightarrow> 64 word" where
  "amd64_entry_sp ss_sp ss_size =
     (let sp = ss_sp + 8 * (ss_size div 8) - 8 * 2; sp = sp - sp mod 16 in sp - 8)"

lemma amd64_entry_sp_inside:
  assumes "unat ss_sp + unat ss_size < 2 ^ 64" and "48 \<le> unat ss_size"
  shows "unat ss_sp + 8 \<le> unat (amd64_entry_sp ss_sp ss_size)"
    and "unat (amd64_entry_sp ss_sp ss_size) + 8 \<le> unat ss_sp + unat ss_size"
    and "unat (amd64_entry_sp ss_sp ss_size) mod 16 = 8"
proof -
  let ?S = "unat ss_sp" and ?Z = "unat ss_size"
  have z: "unat (8 * (ss_size div 8)) = 8 * (?Z div 8)"
    using assms(1) by (simp add: unat_word_ariths unat_div)
  have t: "unat (ss_sp + 8 * (ss_size div 8)) = ?S + 8 * (?Z div 8)"
    using assms(1) z by (simp add: unat_word_ariths)
  define n where "n = ?S + 8 * (?Z div 8) - 16"
  have n: "unat (ss_sp + 8 * (ss_size div 8) - 16) = n"
    using t assms(2) by (simp add: unat_sub word_le_nat_alt n_def)
  define w where "w = ss_sp + 8 * (ss_size div 8) - 16"
  have w: "unat (w - w mod 16) = n - n mod 16"
    using n by (simp add: w_def unat_sub word_le_nat_alt unat_mod)
  have d: "48 \<le> 8 * (?Z div 8)" using assms(2) by simp
  have "8 * (?Z div 8) \<le> ?Z" by simp
  with d have ge: "?S + 32 \<le> n" "n + 16 \<le> ?S + ?Z" unfolding n_def by simp_all
  have e: "unat (amd64_entry_sp ss_sp ss_size) = n - n mod 16 - 8"
    using w ge by (simp add: amd64_entry_sp_def Let_def w_def [symmetric] unat_sub word_le_nat_alt)
  show "?S + 8 \<le> unat (amd64_entry_sp ss_sp ss_size)" using ge unfolding e by linarith
  show "unat (amd64_entry_sp ss_sp ss_size) + 8 \<le> ?S + ?Z" using ge unfolding e by linarith
  show "unat (amd64_entry_sp ss_sp ss_size) mod 16 = 8"
  proof -
    obtain k where k: "n div 16 = Suc k" using ge by (cases "n div 16") auto
    have "n - n mod 16 - 8 = 16 * k + 8" unfolding minus_mod_eq_mult_div k by simp
    then show ?thesis unfolding e by simp
  qed
qed

lemma amd64_makecontext_cells:
  assumes "amd64_makecontext u ss_sp ss_size func [x, y] m = Done m1"
    and "unat u + 800 \<le> unat (amd64_entry_sp ss_sp ss_size)"
  shows "mmem m1 (u + 160) = func" "mmem m1 (u + 184) = amd64_entry_sp ss_sp ss_size"
    "mmem m1 (u + 8) = scast (ucast x :: 32 word)" "mmem m1 (u + 16) = scast (ucast y :: 32 word)"
    "mmem m1 (amd64_entry_sp ss_sp ss_size) = 0"
proof -
  let ?sp = "amd64_entry_sp ss_sp ss_size"
  have ne: "?sp \<noteq> u + k" if "unat k < 800" for k
  proof
    assume "?sp = u + k"
    then have "unat ?sp = unat u + unat k"
      using assms(2) that unsigned_less [of ?sp, where ?'a = nat] by (simp add: unat_word_ariths)
    with assms(2) that show False by simp
  qed
  have m1: "m1 = store (u + 184) ?sp (store (u + 160) func (store ?sp 0 (store (u + 16) (scast (ucast y :: 32 word))
      (store (u + 8) (scast (ucast x :: 32 word)) (fold (\<lambda>i. store (u + 8 * of_nat i) 0) [0..<100] m)))))"
    using assms(1) by (simp add: amd64_makecontext_def amd64_entry_sp_def Let_def)
  show "mmem m1 (u + 160) = func" "mmem m1 (u + 184) = amd64_entry_sp ss_sp ss_size"
    "mmem m1 (u + 8) = scast (ucast x :: 32 word)" "mmem m1 (u + 16) = scast (ucast y :: 32 word)"
    "mmem m1 (amd64_entry_sp ss_sp ss_size) = 0"
    unfolding m1 using ne [of 160] ne [of 184] ne [of 8] ne [of 16] by (simp_all add: store_simps)
qed

text \<open>An argument survives exactly when it is the sign extension of its low half.\<close>

lemma int_argument_survives:
  "scast (ucast (x :: 64 word) :: 32 word) = x \<longleftrightarrow> - (2 ^ 31) \<le> sint x \<and> sint x < 2 ^ 31"
proof -
  have "sint (ucast x :: 32 word) = signed_take_bit 31 (uint x)"
    by (simp add: sint_uint unsigned_ucast_eq signed_take_bit_take_bit)
  also have "\<dots> = signed_take_bit 31 (sint x)" by (simp add: sint_uint)
  finally have s: "sint (scast (ucast x :: 32 word) :: 64 word) = signed_take_bit 31 (sint x)" by (simp add: sint_up_scast is_up)
  have "scast (ucast x :: 32 word) = x \<longleftrightarrow> sint (scast (ucast x :: 32 word) :: 64 word) = sint x"
    by (auto intro: signed_word_eqI)
  also have "\<dots> \<longleftrightarrow> - (2 ^ 31) \<le> sint x \<and> sint x < 2 ^ 31" unfolding s by (simp add: signed_take_bit_int_eq_self_iff)
  finally show ?thesis .
qed

lemma task_stack_size:
  assumes "78 \<le> stkSize" and "stkSize < 2 ^ 31" and "task_stack addr ctxSize stkSize = (ss, sz)"
  shows "stkSize - 78 \<le> sz"
proof -
  have r: "(k - 64) mod 2 ^ 64 = k - 64" if "78 - 14 \<le> k" "k \<le> stkSize" for k :: int
    using that assms(2) by (intro mod_pos_pos_trivial) simp_all
  define sp where "sp = addr + ctxSize + 4 * 8"
  define k where "k = (if sp mod 8 \<noteq> 0 then stkSize - (8 - sp mod 8) else stkSize)"
  define j where "j = (if k mod 8 \<noteq> 0 then k - (8 - k mod 8) else k)"
  have m: "0 \<le> sp mod 8" "sp mod 8 < 8" "0 \<le> k mod 8" "k mod 8 < 8" by simp_all
  have k: "stkSize - 7 \<le> k" "k \<le> stkSize" using m unfolding k_def by (cases "sp mod 8 = 0"; simp; linarith)+
  have j: "k - 7 \<le> j" "j \<le> k" using m unfolding j_def by (cases "k mod 8 = 0"; simp; linarith)+
  have "sz = (j - 64) mod 2 ^ 64"
    using assms(3) unfolding task_stack_def Let_def sp_def [symmetric] j_def k_def by (cases "sp mod 8 = 0") auto
  also have "\<dots> = j - 64" using r k j assms(1) by simp
  finally show ?thesis using k j by simp
qed

text \<open>On the other processors the routine gets its arguments whole, on PowerPC only the first one; none of them aligns the stack
  to more than a word.\<close>

lemma arm_new_context_starts:
  assumes "mreg m' 0 = u" and "mmem m' = mmem (arm_makecontext u ss_sp ss_size func [x, y] m)"
  shows "mreg (arm_setmcontext m') 15 = func" "mreg (arm_setmcontext m') 13 = ss_sp + 4 * (ss_size div 4)"
    "mreg (arm_setmcontext m') 0 = x" "mreg (arm_setmcontext m') 1 = y"
  using assms by (simp_all add: arm_setmcontext_def arm_makecontext_def arm_regs_def mach_simps)

lemma mips_new_context_starts:
  assumes "mreg m' 4 = u" and "mmem m' = mmem (mips_makecontext u ss_sp ss_size func [x, y] m)"
  shows "mreg (mips_setmcontext m') 32 = func" "mreg (mips_setmcontext m') 29 = ss_sp + 4 * (ss_size div 4)"
    "mreg (mips_setmcontext m') 4 = x" "mreg (mips_setmcontext m') 5 = y"
  using assms by (simp_all add: mips_setmcontext_def mips_makecontext_def mach_simps)

lemma ppc_new_context_starts:
  assumes "mreg m' 3 = u" and "ppc_makecontext u ss_sp ss_size func [x, y] m = Done m1" and "mmem m' = mmem m1"
  shows "mreg (ppc_setmcontext m') PPC_PC = func" "mreg (ppc_setmcontext m') 1 = ss_sp + 4 * (ss_size div 4) - 64"
    "mreg (ppc_setmcontext m') 3 = x" "mreg (ppc_setmcontext m') 4 = mreg m' 4"
  using assms by (auto simp: ppc_setmcontext_def ppc_makecontext_def ppc_callee_saved_def mach_simps)

text \<open>C40. A new task starts on its stack: the stack of \<open>make_task\<close> given to \<open>makecontext\<close> and the context resumed, the routine runs with a
  stack pointer inside the block behind the context, aligned as the calling convention wants, above a return address of 0. But the
  context pointer that \<open>make_task\<close> passes is read as an \<open>int\<close>: it arrives only if it is the sign extension of its low half.\<close>

theorem amd64_task_starts_on_its_stack:
  assumes "126 \<le> stkSize" and "stkSize < 2 ^ 31" and "0 \<le> addr" and "0 \<le> ctxSize" and "addr + ctxSize + stkSize < 2 ^ 64"
    and "task_stack addr ctxSize stkSize = (ss, sz)"
    and "addr \<le> uint u" and "uint u + 800 \<le> addr + ctxSize"
    and "amd64_makecontext u (word_of_int ss) (word_of_int sz) func [x, y] m = Done m1"
    and "\<forall>a. addr \<le> uint a \<and> uint a < addr + ctxSize + stkSize \<longrightarrow> mmem m' a = mmem m1 a"
    and "mreg m' RDI = u"
  shows "let h = amd64_setmcontext m'; sp = mreg h RSP in
    mreg h RIP = func \<and> addr + ctxSize + 32 \<le> uint sp - 8 \<and> uint sp + 8 \<le> addr + ctxSize + stkSize - 32 \<and>
    uint sp mod 16 = 8 \<and> mmem h sp = 0 \<and> (mreg h RDI = x \<longleftrightarrow> - (2 ^ 31) \<le> sint x \<and> sint x < 2 ^ 31)"
proof -
  have st: "addr + ctxSize + 32 \<le> ss" "0 \<le> sz" "ss + sz \<le> addr + ctxSize + stkSize - 32" "48 \<le> sz"
  proof -
    obtain sp size where b: "task_stack addr ctxSize stkSize = (sp, size)" "addr + ctxSize + 32 \<le> sp" "0 \<le> size"
        "sp + size \<le> addr + ctxSize + stkSize - 32"
      using task_stack_inside_block [of stkSize addr ctxSize] assms(1,2) by auto
    then show "addr + ctxSize + 32 \<le> ss" "0 \<le> sz" "ss + sz \<le> addr + ctxSize + stkSize - 32"
      using assms(6) by simp_all
    show "48 \<le> sz" using task_stack_size [OF _ assms(2,6)] assms(1) by simp
  qed
  let ?S = "word_of_int ss :: 64 word" and ?Z = "word_of_int sz :: 64 word"
  have r: "uint ?S = ss" "uint ?Z = sz"
    using st assms(3,4,5) by (simp_all add: uint_word_of_int)
  let ?sp = "amd64_entry_sp ?S ?Z"
  have i: "int (unat ?S) = ss" "int (unat ?Z) = sz" using r st assms(3,4) by (simp_all add: unat_eq_nat_uint)
  have "int (unat ?S + unat ?Z) < int (2 ^ 64)" unfolding of_nat_add i of_nat_power of_nat_numeral using st assms(5) by linarith
  then have fits: "unat ?S + unat ?Z < 2 ^ 64" by (simp only: of_nat_less_iff)
  have large: "48 \<le> unat ?Z" using i st by linarith
  note E = amd64_entry_sp_inside [OF fits large]
  have usp: "uint ?sp = int (unat ?sp)" by (rule uint_nat)
  have sp: "ss + 8 \<le> uint ?sp" "uint ?sp + 8 \<le> ss + sz" unfolding usp using E(1,2) i by linarith+
  have al: "uint ?sp mod 16 = 8" unfolding usp using E(3) by (metis of_nat_numeral zmod_int)
  have below: "unat u + 800 \<le> unat ?sp"
  proof -
    have "int (unat u) = uint u" by (rule uint_nat [symmetric])
    then show ?thesis using sp st assms(8) usp by linarith
  qed
  note C = amd64_makecontext_cells [OF assms(9) below]
  have k: "uint (u + k) = uint u + uint k" if "uint k < 800" for k
  proof -
    have "uint u + uint k < 2 ^ 64" using that assms(5,8) st by linarith
    then show ?thesis by (simp add: uint_word_ariths)
  qed
  have mem: "mmem m' (u + k) = mmem m1 (u + k)" if "uint k < 800" for k
  proof -
    have "0 \<le> uint k" by simp
    then have "addr \<le> uint (u + k)" "uint (u + k) < addr + ctxSize + stkSize"
      using k [OF that] that assms(1,7,8) by linarith+
    then show ?thesis using assms(10) by blast
  qed
  have top: "mmem m' ?sp = 0"
  proof -
    have "addr \<le> uint ?sp" "uint ?sp < addr + ctxSize + stkSize" using sp st assms(4) by linarith+
    then show ?thesis using assms(10) C(5) by simp
  qed
  have m: "mmem m' (u + 184) = ?sp" "mmem m' (u + 160) = func" "mmem m' (u + 8) = scast (ucast x :: 32 word)"
    using C by (simp_all add: mem)
  have "?sp \<noteq> u + 16"
    using below by (auto simp: unat_word_ariths)
  then have n: "mmem m' (mreg m' RDI + 184) - 8 \<noteq> mreg m' RDI + 8"
    unfolding assms(11) m by (simp add: diff_eq_eq add.commute)
  note h = amd64_loaded [OF n, unfolded assms(11) m]
  have "?sp \<noteq> ?sp - 8" by simp
  then show ?thesis unfolding Let_def using sp al st top
    by (simp add: h int_argument_survives)
qed

theorem amd64_task_starts_on_its_stack_witness:
  "\<exists>m1. amd64_makecontext 65536 66592 960 77 [5, 0] \<lparr>mreg = (\<lambda>_. 0), mmem = (\<lambda>_. 0)\<rparr> = Done m1 \<and>
     mreg (amd64_setmcontext (set_reg RDI 65536 m1)) RIP = 77 \<and> mreg (amd64_setmcontext (set_reg RDI 65536 m1)) RDI = 5"
proof -
  obtain m1 where m1: "amd64_makecontext 65536 66592 960 77 [5, 0] \<lparr>mreg = (\<lambda>_. 0), mmem = (\<lambda>_. 0)\<rparr> = Done m1"
    by (simp add: amd64_makecontext_def Let_def)
  have t: "task_stack 65536 1024 1024 = (66592, 960)" by (simp add: task_stack_def)
  have m1': "amd64_makecontext 65536 (word_of_int 66592) (word_of_int 960) 77 [5, 0]
      \<lparr>mreg = (\<lambda>_. 0), mmem = (\<lambda>_. 0)\<rparr> = Done m1" using m1 by simp
  have "let h = amd64_setmcontext (set_reg RDI 65536 m1); sp = mreg h RSP in
    mreg h RIP = 77 \<and> 65536 + 1024 + 32 \<le> uint sp - 8 \<and> uint sp + 8 \<le> 65536 + 1024 + 1024 - 32 \<and>
    uint sp mod 16 = 8 \<and> mmem h sp = 0 \<and> (mreg h RDI = 5 \<longleftrightarrow> - (2 ^ 31) \<le> sint (5 :: 64 word) \<and> sint (5 :: 64 word) < 2 ^ 31)"
    by (rule amd64_task_starts_on_its_stack [OF _ _ _ _ _ t _ _ m1']) (simp_all add: set_reg_def)
  with m1 show ?thesis by (simp add: Let_def)
qed

text \<open>C39. Switching there and back: after \<open>swapcontext\<close> from context \<open>a\<close> to \<open>b\<close>, a \<open>swapcontext\<close> from \<open>b\<close> to \<open>a\<close> at any later time resumes the first call
  with all registers it had, the stack pointer and the return address among them, and the result 1 that tells it was resumed; this
  needs the saved context to be untouched, and the two calls of \<open>getmcontext\<close> not to have their stack inside a context.\<close>

theorem amd64_switch_back_resumes:
  assumes "amd64_apart (call a m)" and "amd64_apart (call b m2)"
    and "\<forall>u x. mreg (call u x) RDI = u"
    and "\<forall>u x. \<forall>y \<in> amd64_cells a. mmem (call u x) y = mmem x y"
    and "amd64_cells a \<inter> amd64_cells b = {}"
    and "\<forall>y \<in> amd64_cells a. mmem m2 y = mmem (amd64_getmcontext (call a m)) y"
  shows "let h = swapcontext amd64_getmcontext amd64_setmcontext (\<lambda>m. mreg m RAX) call b a m2 in
    mreg h RAX = 1 \<and> mreg h RSP = mreg (call a m) RSP + 8 \<and> mreg h RIP = mmem (call a m) (mreg (call a m) RSP) \<and>
    (\<forall>r. r \<notin> {RAX, RSP, RIP} \<longrightarrow> mreg h r = mreg (call a m) r)"
proof -
  let ?h = "swapcontext amd64_getmcontext amd64_setmcontext (\<lambda>m. mreg m RAX) call b a m2"
  have "mreg ?h RAX = 1 \<and> (\<forall>r \<in> UNIV - {RAX}. mreg ?h r = mreg (amd64_getmcontext (call a m)) r)"
    by (rule amd64_switch.swap_back_resumes) (use assms in auto)
  then show ?thesis unfolding Let_def amd64_saved(1) [OF assms(1)] by simp
qed

theorem amd64_switch_back_resumes_witness:
  "let call = set_reg RDI; m = \<lparr>mreg = (\<lambda>_. 7)(RSP := 65536), mmem = (\<lambda>_. 9)\<rparr>;
       h = swapcontext amd64_getmcontext amd64_setmcontext (\<lambda>m. mreg m RAX) call 8192 4096
             (set_reg RSP 32768 (amd64_getmcontext (call 4096 m))) in
   mreg h RAX = 1 \<and> mreg h RSP = 65544 \<and> mreg h RIP = 9 \<and> mreg h RBX = 7"
proof -
  let ?m = "\<lparr>mreg = (\<lambda>_. 7)(RSP := 65536), mmem = (\<lambda>_. 9)\<rparr> :: amd64"
  let ?m2 = "set_reg RSP 32768 (amd64_getmcontext (set_reg RDI 4096 ?m))"
  show ?thesis unfolding Let_def
    using amd64_switch_back_resumes [of "set_reg RDI" 4096 ?m 8192 ?m2]
    by (simp add: Let_def amd64_apart_def amd64_cells_def set_reg_def)
qed

end
