(* ===== verification/Ws_Transcode.thy ===== *)
theory Ws_Transcode
  imports Websock
begin

text \<open>
  The program etc/ws_transcode.c: it sends one message as a frame, then decodes the frames of an input file and answers the
  first one. Its codec is the one of Websock. A path that can be opened is an argument; the diagnostics on the standard
  error and the hexadecimal dumps are left out.
\<close>

section \<open>Options\<close>

record tc_options =
  tc_bHex :: bool
  tc_bSilent :: bool
  tc_bCloseWait :: bool
  tc_bSleep :: bool
  tc_sendmsg :: "u8 list"
  tc_respmsg :: "u8 list"
  tc_outfile :: "u8 list"
  tc_infile :: "u8 list option"

text \<open>The first byte of \<open>infile\<close> is never initialised: without the option it is undetermined.\<close>

definition tc_defaults :: tc_options where
  "tc_defaults = \<lparr>tc_bHex = False, tc_bSilent = False, tc_bCloseWait = False, tc_bSleep = False, tc_sendmsg = [],
     tc_respmsg = [], tc_outfile = [], tc_infile = None\<rparr>"

text \<open>Whether a word starts with a dash and a letter; the characters are bytes.\<close>

definition is_opt :: "u8 \<Rightarrow> u8 list \<Rightarrow> bool" where
  "is_opt c a \<longleftrightarrow> take 2 a = [0x2D, c]"

text \<open>\<open>strcpy\<close> into an array of 256 bytes.\<close>

definition strcpy_256 :: "u8 list \<Rightarrow> u8 list outcome" where
  "strcpy_256 s = (if length s < 256 then Done s else Crash)"

text \<open>The loop over the words; \<open>nonzero\<close> tells whether \<open>atoi\<close> of a word is not 0.\<close>

fun tc_parse :: "(u8 list \<Rightarrow> bool) \<Rightarrow> u8 list list \<Rightarrow> tc_options \<Rightarrow> tc_options outcome" where
  "tc_parse nonzero [] opt = Done opt"
| "tc_parse nonzero [a] opt =
     Done (if is_opt 0x48 a then opt\<lparr>tc_bHex := True\<rparr>
           else if is_opt 0x53 a then opt\<lparr>tc_bSilent := True\<rparr> else opt)"
| "tc_parse nonzero (a # b # r) opt =
     (if is_opt 0x48 a then tc_parse nonzero (b # r) (opt\<lparr>tc_bHex := True\<rparr>)
      else if is_opt 0x53 a then tc_parse nonzero (b # r) (opt\<lparr>tc_bSilent := True\<rparr>)
      else if is_opt 0x71 a then tc_parse nonzero r (opt\<lparr>tc_bCloseWait := nonzero b\<rparr>)
      else if is_opt 0x73 a then tc_parse nonzero r (opt\<lparr>tc_bSleep := nonzero b\<rparr>)
      else if is_opt 0x63 a then obind (strcpy_256 b) (\<lambda>s. tc_parse nonzero r (opt\<lparr>tc_sendmsg := s\<rparr>))
      else if is_opt 0x72 a then obind (strcpy_256 b) (\<lambda>s. tc_parse nonzero r (opt\<lparr>tc_respmsg := s\<rparr>))
      else if is_opt 0x6F a then obind (strcpy_256 b) (\<lambda>s. tc_parse nonzero r (opt\<lparr>tc_outfile := s\<rparr>))
      else if is_opt 0x69 a then obind (strcpy_256 b) (\<lambda>s. tc_parse nonzero r (opt\<lparr>tc_infile := Some s\<rparr>))
      else tc_parse nonzero (b # r) opt)"

section \<open>The program\<close>

datatype tc_event = ToStdout "u8 list" | ToOutfile "u8 list" | Truncated "u8 list"

text \<open>
  The loop over the characters of the input: \<open>buf\<close> is \<open>websockMsg\<close>, \<open>out_ok\<close> says whether the output file is open, \<open>resp\<close> is
  the answer that is still to be sent. In hexadecimal mode the bytes go to the standard error.
\<close>

fun tc_loop :: "ws_config \<Rightarrow> bool \<Rightarrow> u8 list \<Rightarrow> bool \<Rightarrow> u8 list \<Rightarrow> u8 list \<Rightarrow> u8 list \<Rightarrow> tc_event list outcome" where
  "tc_loop cfg bHex key out_ok resp buf [] = Done []"
| "tc_loop cfg bHex key out_ok resp buf (ch # chs) =
     (if length buf \<ge> 65536 then Crash
      else
        (let buf = buf @ [ch]
         in obind (decodeWebSockMsg cfg buf) (\<lambda>r.
              if ws_ret r < 0 then tc_loop cfg bHex key out_ok resp buf chs
              else
                (let str = take (nat (ws_ret r)) (ws_msg r);
                     ev = (if bHex then [] else [ToStdout str])
                 in if bHex \<and> takeWhile (\<lambda>b. b \<noteq> 0) str = EXITEXIT then Done ev
                    else if resp = [] then obind (tc_loop cfg bHex key out_ok [] [] chs) (\<lambda>evs. Done (ev @ evs))
                    else
                      obind (encodeWebSockMsg cfg resp 1 (Some key)) (\<lambda>(nLenTx, frame).
                        if nLenTx > 65536 \<or> \<not> bHex \<and> \<not> out_ok then Crash
                        else obind (tc_loop cfg bHex key out_ok [] [] chs)
                               (\<lambda>evs. Done (ev @ (if bHex then [] else [ToOutfile frame]) @ evs)))))))"

text \<open>
  What \<open>getc\<close> delivers from a stream: one that was opened with mode \<open>w\<close> cannot be read. Both files are opened with that
  mode, which empties them.
\<close>

definition stream_chars :: "char \<Rightarrow> u8 list \<Rightarrow> u8 list" where
  "stream_chars mode content = (if mode = CHR ''w'' then [] else content)"

definition tc_open :: "(u8 list \<Rightarrow> bool) \<Rightarrow> u8 list \<Rightarrow> tc_event list \<times> bool" where
  "tc_open can_open path = (if path \<noteq> [] \<and> can_open path then ([Truncated path], True) else ([], False))"

definition tc_main ::
  "ws_config \<Rightarrow> u8 list \<Rightarrow> (u8 list \<Rightarrow> bool) \<Rightarrow> (u8 list \<Rightarrow> bool) \<Rightarrow> (u8 list \<Rightarrow> u8 list) \<Rightarrow> u8 list list \<Rightarrow> tc_event list outcome" where
  "tc_main cfg key nonzero can_open content argv =
     obind (tc_parse nonzero argv tc_defaults) (\<lambda>opt.
       case tc_infile opt of
         None \<Rightarrow> Crash
       | Some infile \<Rightarrow>
           let (ev1, out_ok) = tc_open can_open (tc_outfile opt);
               (ev2, in_ok) = tc_open can_open infile
           in obind (if tc_sendmsg opt = [] then Done []
                     else obind (encodeWebSockMsg cfg (tc_sendmsg opt) 1 (Some key)) (\<lambda>(nLenTx, frame).
                            if nLenTx > 65536 then Crash else Done (if tc_bHex opt then [] else [ToStdout frame])))
                (\<lambda>ev3.
                  if \<not> in_ok then Crash
                  else obind (tc_loop cfg (tc_bHex opt) key out_ok (tc_respmsg opt) []
                                (stream_chars (CHR ''w'') (content infile)))
                         (\<lambda>ev4. Done (ev1 @ ev2 @ ev3 @ ev4))))"

section \<open>Laws\<close>

text \<open>Without an answer the loop passes on what the loop of ws_decode.c decodes.\<close>

lemma tc_loop_decodes:
  "tc_loop cfg False key out_ok [] buf chs =
     obind (ws_decode_loop cfg False False buf chs) (\<lambda>ms. Done (map ToStdout ms))"
proof (induction chs arbitrary: buf)
  case (Cons ch chs)
  show ?case
  proof (cases "decodeWebSockMsg cfg (buf @ [ch])")
    case (Done r)
    then show ?thesis
      using Cons.IH [of "buf @ [ch]"] Cons.IH [of "[]"]
      by (cases "ws_decode_loop cfg False False [] chs") (simp_all add: Let_def)
  qed (simp_all add: Let_def)
qed simp

text \<open>The program as it is never decodes anything: it empties its input file and reads nothing from it, and without
  one it dereferences a null stream.\<close>

lemma stream_chars_w: "stream_chars (CHR ''w'') c = []"
  by (simp add: stream_chars_def)

lemma tc_main_reads_nothing: "tc_main cfg key nonzero can_open content = tc_main cfg key nonzero can_open content'"
  by (rule ext) (simp only: tc_main_def stream_chars_w)

lemma tc_main_empties_input:
  assumes "tc_main cfg key nonzero can_open content argv = Done evs"
  shows "\<exists>opt infile. tc_parse nonzero argv tc_defaults = Done opt \<and> tc_infile opt = Some infile \<and>
    Truncated infile \<in> set evs \<and> (\<forall>m. ToOutfile m \<notin> set evs)"
  using assms unfolding tc_main_def stream_chars_w
  by (fastforce simp: tc_open_def obind_Done_iff Let_def split: prod.splits if_splits option.splits)

lemma tc_main_sends:
  assumes "tc_parse nonzero argv tc_defaults = Done opt" and "tc_sendmsg opt \<noteq> []" and "\<not> tc_bHex opt"
    and "encodeWebSockMsg cfg (tc_sendmsg opt) 1 (Some key) = Done (int (length frame), frame)" and "length frame \<le> 65536"
    and "tc_infile opt = Some infile" and "infile \<noteq> []" and "can_open infile" and "tc_outfile opt = []"
  shows "tc_main cfg key nonzero can_open content argv = Done [Truncated infile, ToStdout frame]"
  using assms by (simp add: tc_main_def tc_open_def stream_chars_w)

end
