(* ===== verification/Task_Except.thy ===== *)
theory Task_Except
  imports Cexcept
begin

text \<open>
  Exceptions inside a task: the macros \<open>TaskTry\<close>, \<open>TaskCatch\<close> and \<open>TaskThrow\<close> of eloop/taskimpl.h. They jump with contexts instead of jump
  buffers: \<open>task_ucp\<close> of the current task is the context a throw resumes. Outside every \<open>TaskTry\<close> it is the task's own
  \<open>task_uc\<close>, which \<open>make_task\<close> put there, or null for the default context.
\<close>

record task_except =
  task_ucp :: ptr
  tx_caught :: bool
  tx_etmp :: cexception

type_synonym 'w task_body = "task_except \<times> 'w \<Rightarrow> (task_except \<times> 'w) body_result"

definition TaskThrow :: "cexception \<Rightarrow> 'w task_body" where
  "TaskThrow e = (\<lambda>(tc, w). Thrown (tc\<lparr>tx_etmp := e\<rparr>, w))"

definition TaskTry_Catch :: "ptr \<Rightarrow> 'w task_body \<Rightarrow> (cexception \<Rightarrow> 'w task_body) \<Rightarrow> 'w task_body" where
  "TaskTry_Catch task_uc_env body catch = (\<lambda>(tc, w).
     let task_ucp_prev = task_ucp tc in
     case body (tc\<lparr>task_ucp := task_uc_env\<rparr>, w) of
       Returned (tc', w') \<Rightarrow> Returned (tc'\<lparr>tx_caught := False, task_ucp := task_ucp_prev\<rparr>, w')
     | Thrown (tc', w') \<Rightarrow> catch (tx_etmp tc') (tc'\<lparr>tx_caught := True, task_ucp := task_ucp_prev\<rparr>, w'))"

section \<open>The exceptions of a task are those of a thread\<close>

text \<open>A task's exception state read as the exception context of a thread.\<close>

definition as_context :: "task_except \<Rightarrow> exception_context" where
  "as_context tc = \<lparr>penv = task_ucp tc, caught = tx_caught tc, etmp = tx_etmp tc\<rparr>"

fun result_as_context :: "(task_except \<times> 'w) body_result \<Rightarrow> (exception_context \<times> 'w) body_result" where
  "result_as_context (Returned (tc, w)) = Returned (as_context tc, w)"
| "result_as_context (Thrown (tc, w)) = Thrown (as_context tc, w)"

definition simulates :: "'w task_body \<Rightarrow> 'w tbody \<Rightarrow> bool" where
  "simulates t b \<longleftrightarrow> (\<forall>tc w. result_as_context (t (tc, w)) = b (as_context tc, w))"

lemma simulates_throw: "simulates (TaskThrow e) (Throw e)"
  by (simp add: simulates_def TaskThrow_def Throw_def as_context_def)

lemma simulates_try:
  assumes "simulates t b" and "\<And>e. simulates (tcatch e) (catch e)"
  shows "simulates (TaskTry_Catch env t tcatch) (Try_Catch env b catch)"
  unfolding simulates_def
proof (intro allI)
  fix tc :: task_except and w
  let ?tc = "tc\<lparr>task_ucp := env\<rparr>"
  have b: "b (as_context ?tc, w) = result_as_context (t (?tc, w))" using assms(1) by (simp add: simulates_def)
  have p: "(as_context tc)\<lparr>penv := env\<rparr> = as_context ?tc" by (simp add: as_context_def)
  show "result_as_context (TaskTry_Catch env t tcatch (tc, w)) = Try_Catch env b catch (as_context tc, w)"
  proof (cases "t (?tc, w)")
    case (Returned r)
    then show ?thesis by (cases r) (simp add: TaskTry_Catch_def Try_Catch_def Let_def p b, simp add: as_context_def)
  next
    case (Thrown r)
    then obtain tc' w' where r: "r = (tc', w')" by force
    have "(as_context tc')\<lparr>caught := True, penv := penv (as_context tc)\<rparr> = as_context (tc'\<lparr>tx_caught := True, task_ucp := task_ucp tc\<rparr>)"
      by (simp add: as_context_def)
    moreover have "etmp (as_context tc') = tx_etmp tc'" by (simp add: as_context_def)
    ultimately show ?thesis using assms(2) Thrown r
      by (simp add: TaskTry_Catch_def Try_Catch_def Let_def p b simulates_def)
  qed
qed

text \<open>After a \<open>TaskTry\<close> that did not throw, and in its catch clause, a throw goes to the surrounding one again.\<close>

lemma task_try_restores_target:
  assumes "body (tc\<lparr>task_ucp := env\<rparr>, w) = Returned (tc', w')"
  shows "\<exists>tc''. TaskTry_Catch env body catch (tc, w) = Returned (tc'', w') \<and> task_ucp tc'' = task_ucp tc \<and> \<not> tx_caught tc''"
  using assms by (simp add: TaskTry_Catch_def)

lemma task_throw_reaches_outer_catch:
  "TaskTry_Catch outer (TaskTry_Catch inner (TaskThrow e) (\<lambda>_. TaskThrow e2)) (\<lambda>x (tc, w). Returned (tc, x)) (tc, w) =
     Returned (tc\<lparr>tx_etmp := e2, tx_caught := True\<rparr>, e2)"
  by (simp add: TaskTry_Catch_def TaskThrow_def)

end
