(* ===== verification/Os_Unix.thy ===== *)
theory Os_Unix
  imports Os_Internal Common_Util
begin

text \<open>
  What eloop/os_unix.c, which the default build takes instead of eloop/os_internal.c, adds to the system calls it wraps: the
  search for the working directory with its bound, reading a file, random bytes, the file with the process number. The
  results of the system calls are arguments.
\<close>

section \<open>Paths\<close>

text \<open>The loop that doubles the buffer; \<open>cwd\<close> is the working directory, or nothing when \<open>getcwd\<close> fails for another reason than
  the size of the buffer. The length is 128 at first and never 0.\<close>

function unix_cwd_loop :: "(nat \<Rightarrow> bool) \<Rightarrow> string option \<Rightarrow> nat \<Rightarrow> string option" where
  "unix_cwd_loop mem_ok cwd len =
     (if \<not> mem_ok len then None
      else case cwd of
        None \<Rightarrow> None
      | Some d \<Rightarrow>
          if length d < len then Some d
          else if len = 0 \<or> len * 2 > 2000 then None
          else unix_cwd_loop mem_ok cwd (len * 2))"
  by auto
termination by (relation "measure (\<lambda>(_, cwd, len). 2001 - len)") auto

declare unix_cwd_loop.simps [simp del]

definition unix_rel2abs_path :: "(nat \<Rightarrow> bool) \<Rightarrow> string option \<Rightarrow> string \<Rightarrow> string option" where
  "unix_rel2abs_path mem_ok cwd rel_path =
     (if rel_path \<noteq> [] \<and> hd rel_path = CHR ''/'' then (if mem_ok (length rel_path + 1) then Some rel_path else None)
      else
        (case unix_cwd_loop mem_ok cwd 128 of
           None \<Rightarrow> None
         | Some c \<Rightarrow> if mem_ok (length c + 1 + length rel_path + 1) then Some (c @ ''/'' @ rel_path) else None))"

section \<open>Files\<close>

text \<open>
  \<open>os_readfile\<close>: the file, nothing when it cannot be opened; whether the block can be allocated; how many bytes \<open>fread\<close> delivers. The
  result is the length and the block, whose unread bytes are undetermined.
\<close>

definition os_readfile :: "u8 list option \<Rightarrow> bool \<Rightarrow> nat \<Rightarrow> (nat \<times> u8 option list) option outcome" where
  "os_readfile file mem_ok rc =
     (case file of
        None \<Rightarrow> Done None
      | Some content \<Rightarrow>
          (let len = length content; rc = min rc len;
               buf = map Some (take rc content) @ replicate (len - rc) None
           in if \<not> mem_ok then Done None
              else if rc = 0 then (if len = 0 then Crash else Done (Some (len, buf[0 := Some 0])))
              else Done (Some (len, buf))))"

text \<open>\<open>os_get_random\<close>: the bytes the device delivers, nothing when it cannot be opened.\<close>

definition os_get_random :: "u8 list option \<Rightarrow> nat \<Rightarrow> int \<times> u8 list" where
  "os_get_random device len =
     (case device of
        None \<Rightarrow> (-1, [])
      | Some bytes \<Rightarrow> (let got = take len bytes in (if length got \<noteq> len then -1 else 0, got)))"

text \<open>\<open>os_daemonize\<close> and \<open>os_daemonize_terminate\<close>: the files by their names.\<close>

definition os_daemonize ::
  "bool \<Rightarrow> nat \<Rightarrow> (string \<Rightarrow> bool) \<Rightarrow> string option \<Rightarrow> (string \<rightharpoonup> string) \<Rightarrow> int \<times> (string \<rightharpoonup> string)" where
  "os_daemonize daemon_ok pid can_open pid_file fs =
     (if \<not> daemon_ok then (-1, fs)
      else
        (0, case pid_file of
              None \<Rightarrow> fs
            | Some f \<Rightarrow> if can_open f then fs(f \<mapsto> percent_lu pid @ [CHR 0x0A]) else fs))"

definition os_daemonize_terminate :: "string option \<Rightarrow> (string \<rightharpoonup> string) \<Rightarrow> (string \<rightharpoonup> string)" where
  "os_daemonize_terminate pid_file fs = (case pid_file of None \<Rightarrow> fs | Some f \<Rightarrow> fs(f := None))"

definition unix_mktime ::
  "(int \<Rightarrow> int \<Rightarrow> int \<Rightarrow> int \<Rightarrow> int \<Rightarrow> int \<Rightarrow> int) \<Rightarrow> int \<Rightarrow> int \<Rightarrow> int \<Rightarrow> int \<Rightarrow> int \<Rightarrow> int \<Rightarrow> int option" where
  "unix_mktime mktime year month day hour minute sec =
     (if year < 1970 \<or> month < 1 \<or> month > 12 \<or> day < 1 \<or> day > 31 \<or> hour < 0 \<or> hour > 23 \<or>
         minute < 0 \<or> minute > 59 \<or> sec < 0 \<or> sec > 60
      then None else Some (mktime (year - 1900) (month - 1) day hour minute sec))"

section \<open>Laws\<close>

lemma unix_mktime_same: "unix_mktime = os_mktime"
  by (simp add: unix_mktime_def os_mktime_def fun_eq_iff)

text \<open>The sizes tried are 128, 256, 512 and 1024: a working directory of 1024 characters or more is not found.\<close>

lemma unix_cwd_loop_128:
  assumes "\<forall>n. mem_ok n"
  shows "unix_cwd_loop mem_ok (Some d) 128 = (if length d < 1024 then Some d else None)"
proof -
  have "unix_cwd_loop mem_ok (Some d) 1024 = (if length d < 1024 then Some d else None)"
    using assms by (subst unix_cwd_loop.simps) simp
  then have "unix_cwd_loop mem_ok (Some d) 512 = (if length d < 1024 then Some d else None)"
    using assms by (subst unix_cwd_loop.simps) simp
  then have "unix_cwd_loop mem_ok (Some d) 256 = (if length d < 1024 then Some d else None)"
    using assms by (subst unix_cwd_loop.simps) simp
  then show ?thesis using assms by (subst unix_cwd_loop.simps) simp
qed

lemma unix_rel2abs_path_relative:
  assumes "\<forall>n. mem_ok n" and "rel = [] \<or> hd rel \<noteq> CHR ''/''"
  shows "unix_rel2abs_path mem_ok (Some d) rel = (if length d < 1024 then Some (d @ ''/'' @ rel) else None)"
  using assms by (auto simp: unix_rel2abs_path_def unix_cwd_loop_128)

lemma os_readfile_reads:
  assumes "content \<noteq> []" and "length content \<le> rc"
  shows "os_readfile (Some content) True rc = Done (Some (length content, map Some content))"
  using assms by (simp add: os_readfile_def)

text \<open>For an empty file the terminating zero is written into a block of no bytes.\<close>

lemma os_readfile_empty: "os_readfile (Some []) True rc = Crash"
  by (simp add: os_readfile_def)

lemma os_daemonize_then_terminate:
  assumes "os_daemonize True pid can_open (Some f) fs = (r, fs')"
  shows "r = 0 \<and> os_daemonize_terminate (Some f) fs' = fs(f := None)"
  using assms by (auto simp: os_daemonize_def os_daemonize_terminate_def fun_eq_iff split: if_splits)

lemma os_get_random_short: "length bytes < len \<Longrightarrow> fst (os_get_random (Some bytes) len) = -1"
  by (simp add: os_get_random_def)

end
