(* ===== verification/Spec2Isabelle.thy ===== *)
theory Spec2Isabelle
  imports Eloop_Properties Eloop_Laws Dns_Host Ns_Timer_Laws Lfs_Laws Os_Internal Uart Websock Jss Task_Laws Log_Server_Laws Netcat Callback_Itf_Laws Sub_Process_Laws Dns_Async Pool_Alloc_Laws Byte_Order Context_Switch_Laws Ws_Transcode Task_Except Os_Unix
begin

text \<open>
  A verification library for the event loop repository: a select-based event loop in C (eloop/) with
  timeouts, signals, exceptions, tasks on stacks of their own and an asynchronous resolver, a smaller
  timer loop (ns_support/), a log file reader (logfile/), and a set of programs that use them (etc/). The library models
  each part by definitions that follow the C functions and proves what makes the part correct.

  \<^bold>\<open>How the parts interact.\<close> An application registers sockets, timeouts and signals with the loop and calls
  \<open>eloop_run\<close>, which waits in \<open>pselect\<close> and calls the handlers back, each inside the exception context of its thread
  (Cexcept). The C++ interfaces (Callback\_Itf) register a pair of an object and a method for a handler. A task (Task) is a
  routine on its own stack (Context\_Switch); it sleeps by registering a timeout with itself as data, and the handler of that
  timeout resumes it. The asynchronous lookup (Dns\_Async) is such a task around the resolver (Dns\_Lookup, Dns\_Host), which writes and
  reads packets (Dns\_Codec, Dns\_Names). The log server (Log\_Server) reads requests from a stream and calls the log file library
  (Lfs\_Search, Lfs\_Filter). Netcat and the WebSocket filters share a frame codec (Websock).

  \<^bold>\<open>The target\<close> is a 64-bit Linux with the switches of eloop/Makefile, except where a theory says otherwise. Integers are words of
  their width where overflow matters and unbounded integers where the code's range cannot be left or an overflow would be
  undefined. Effects are explicit: an operation takes the state and gives the new one. Its result is an \<open>outcome\<close> (Prelude):
  \<open>Done\<close>, \<open>ExitProcess\<close>, \<open>Crash\<close> for an access outside a block or through a null or freed pointer, and \<open>OutOfFuel\<close> for a loop that has used up
  its rounds. What is not in the repository is an argument: handlers, the C library's allocation, the clocks,
  what \<open>pselect\<close>, a device or the network delivers, the JSON and network libraries, websock_code.h.

  \<^bold>\<open>Shared vocabulary.\<close> Prelude: machine types, outcomes, the cutting of a stream, the interfaces of a time-ordered queue and of an invariant that
  scripts of calls keep. Memory: a block of cells. Os\_Time (eloop/os.h): times, their order and differences.

  \<^bold>\<open>The event loop, eloop/eloop.c and eloop/eloop.h.\<close>
  \<^item> Eloop\_State: \<open>eloop_data\<close> and its rows as records, in \<open>sys\<close> with the process state the operations touch: the live heap blocks, the
    calls to the hardware watchdog, the alarm, the installed signal handlers.
  \<^item> Eloop\_Sock: \<open>eloop_sock_table_add_sock\<close>, removal, \<open>max_sock\<close>, the sets for \<open>pselect\<close>. Eloop\_Timeout: the sorted list of
    \<open>eloop_register_timeout0\<close> and \<open>eloop_cancel_timeout0\<close>. Eloop\_Watchdog: the bookkeeping of the watchdog and the account of the
    heap blocks. Eloop\_TimeChange: \<open>eloop_timeChangeAuto\<close>. Eloop\_Signal: registration and asynchronous counting.
  \<^item> Eloop\_Api: the calls of an application as values, scripts of them, the states they reach. Eloop\_Run: the callback wrappers, the
    dispatch of signals, timeouts and sockets, \<open>eloop_run\<close>, \<open>eloop_destroy\<close>. A handler may make any script of calls and may throw.
  \<^item> Eloop\_Invariant: what a predicate must satisfy to survive the loop, as an interface, and its instances. Eloop\_Dispatch: the trace of the callbacks.
    Eloop\_Laws: one call at a time. Eloop\_Properties: whole runs.

  What is shown: nothing leaks and nothing is freed twice in a run followed by \<open>eloop_destroy\<close>; the ready rows are called in order, each pending signal once, the
  earliest due timeout first; \<open>pselect\<close> gets the right bound and waits exactly for the earliest deadline; the list stays sorted when the
  clock does not jump, and a jump keeps the time left; the watchdog follows the first watchdog timeout; a callback always finds its exception context.

  \<^bold>\<open>Exceptions.\<close> Cexcept (eloop/cexcept.h, eloop/cexceptNew.c): the table of threads, \<open>Try\<close>, \<open>Catch\<close>, \<open>Throw\<close>, the fault handler. Task\_Except
  (eloop/taskimpl.h): the same inside a task, with a simulation of the one by the other.

  \<^bold>\<open>Tasks.\<close> Task (eloop/context.c): contexts, switching, callbacks on the default loop, sleeping, exiting; a routine is a sequence of calls. Task\_Laws:
  control always comes back to the loop with no finished task left, a sleeping task is resumed once, its stack lies in its block.
  Context\_Switch (eloop/asm.S, eloop/context.c): \<open>getmcontext\<close> and \<open>setmcontext\<close> of five processors over a machine of
  registers and words, \<open>makecontext\<close>, \<open>swapcontext\<close>. Context\_Switch\_Laws: an interface of save and resume, interpreted for four of them; the MIPS
  version does not satisfy it, because the result of the resumed call is not set. A switch there and back restores every register; a new task starts on its stack.

  \<^bold>\<open>The resolver, eloop/dns.c.\<close> Dns\_Codec, Dns\_Names: headers, names, questions, answers, their round trips; the codec of a dotted name is an
  instance of a prefix-free code. Dns\_Lookup: resolv.conf, the query, the walk over the answers, the retry loop, which ends. Dns\_Host: the tables in the
  caller's buffer. Dns\_Async: the lookup as a task, which runs to its callback.

  \<^bold>\<open>Helpers.\<close> Common\_Util (eloop/common.c): hexadecimal text, dumps, time stamps, \<open>getopt\<close>. Byte\_Order (eloop/common.h): loads and stores in a byte order.
  Os\_Internal (eloop/os_internal.c): copying, comparing, strings, paths. Os\_Unix (eloop/os_unix.c): paths, files, random bytes, the file with the process
  number. Pool\_Alloc (etc/tdxagwDbgMalloc.cpp): the debugging allocator; Pool\_Alloc\_Laws states the interface of an allocator, proves the copying and
  clearing of blocks in it, and discharges it for \<open>tmalloc\<close> and for the pools, which refine a heap of separate blocks.

  \<^bold>\<open>Timers, logs, programs.\<close> Ns\_Timer (ns_support/ns_timer_support.c): the timers of 32 contexts. Lfs\_Search, Lfs\_Filter (logfile/lfs_read.c): the bisection over
  a log file, and reading and appending of lines; what was written is read back. Uart (etc/unix_UART.c), Websock and Ws\_Transcode (etc/ws\_encode.c,
  etc/ws\_decode.c, etc/ws\_transcode.c), Jss (etc/jss\_encode.c, etc/jss\_decode.c), Log\_Server (etc/ns\_log\_server.c), Netcat (etc/nc.c), Callback\_Itf
  (eloop/eloop\_callback\_itf.h), Sub\_Process (etc/unixProcess.c). A theory with the suffix \<open>_Laws\<close> holds the lemmas and properties of the theory it is named after.

  \<^bold>\<open>Fuel.\<close> The dispatch loops get the number of rows plus one as their rounds, and it is shown that they never run out: a handler that changes the
  table ends the loop over sockets, and the loop over signals is bounded by the table when handlers leave it alone. \<open>eloop_run\<close> runs over a list of
  inputs, one for each \<open>pselect\<close>. A lookup runs over the list of what the network does in each round; the bound on the rounds is proved. The decoder of names may run for
  ever on a pointer loop, which is shown; for a name without pointers as many rounds as labels are enough. Tasks get a bound on the nesting of starts.

  \<^bold>\<open>Findings.\<close> Where the code does not do what it means to, a lemma or a property states what it does; the manifest lists the places.

  \<^bold>\<open>Not modelled:\<close> printing, error messages and the variadic debug functions; wrappers that only pass their arguments to a system call, and the
  configuration of a serial device; the branches the build switches off (Windows, the second resolver with its own contexts, the watchdog and
  exception parts of ns_support, the double fork); the parts of a program that only print a state or a date; the sample programs and tests; headers
  that declare libraries which are not in the repository. They hold no state of the program, or no code that is built.
\<close>

end
